(* ===== verification/Prelude.thy ===== *)
theory Prelude
  imports Main "HOL-Library.Word" "HOL-Library.State_Monad" "HOL-Library.Signed_Division"
begin

text \<open>
  What every component of the development shares:

  \<^item> the machine integers of the C sources (\<open>u8\<close>, \<open>u16\<close>, \<open>u32\<close> are words; a C
    \<open>int\<close> is a mathematical \<open>int\<close>, narrowed by \<open>word_of_int\<close> and by \<open>c_int8\<close>
    exactly where the source stores it into a narrower field);
  \<^item> the state monad of the distribution with the few combinators the sources'
    idioms need: \<open>or_return\<close> (the \<open>*_OR_RETURN\<close> macros and \<open>if (ret == 0)\<close>
    chains) and \<open>c_ors\<close> (the short-circuiting \<open>a || b || c\<close>);
  \<^item> a weakest-precondition predicate \<open>wp\<close> and a frame predicate \<open>keeps\<close> over that
    monad, with the collections \<open>wp_rules\<close> and \<open>keeps_rules\<close> that carry the
    component proofs.
\<close>

unbundle bit_operations_syntax

type_synonym u8 = "8 word"
type_synonym u16 = "16 word"
type_synonym u32 = "32 word"

named_theorems wp_rules "introduction rules for weakest preconditions of operations"
named_theorems keeps_rules "introduction rules for frame conditions of operations"
named_theorems preserves_rules "introduction rules for invariants of operations"
named_theorems sim_rules "introduction rules relating operations to register files"

subsection \<open>C values\<close>

text \<open>Storing a C \<open>int\<close> into an \<open>int8_t\<close> field (two's complement wrap-around).\<close>

definition c_int8 :: "int \<Rightarrow> int" where
  "c_int8 i = signed_take_bit 7 i"

lemma c_int8_id [simp]: "-128 \<le> i \<Longrightarrow> i < 128 \<Longrightarrow> c_int8 i = i"
  by (simp add: c_int8_def signed_take_bit_int_eq_self)

text \<open>The truth value of a C comparison or of \<open>!x\<close>, \<open>a || b\<close>.\<close>

abbreviation c_bool :: "bool \<Rightarrow> int" where
  "c_bool b \<equiv> of_bool b"

text \<open>The bytes of a 16-bit value in the memory of a little-endian machine.\<close>

definition le_byte0 :: "u16 \<Rightarrow> u8" where
  "le_byte0 x = ucast x"

definition le_byte1 :: "u16 \<Rightarrow> u8" where
  "le_byte1 x = ucast (drop_bit 8 x)"

lemma u8_and_255: "uint (a :: u8) AND 255 = uint a"
proof -
  have "uint a AND mask 8 = take_bit 8 (uint a)" by (simp add: take_bit_eq_mask)
  also have "\<dots> = uint a" by (rule take_bit_int_eq_self) (use uint_lt2p [of a] in simp_all)
  finally show ?thesis by (simp add: mask_eq_exp_minus_1)
qed

lemma uint_word_cat8: "push_bit 8 (uint (a :: u8)) OR uint (b :: u8) = uint (word_cat a b :: u16)"
  by (rule bit_eqI) (auto simp: bit_uint_iff bit_word_cat_iff bit_simps dest: bit_imp_le_length)

lemma int_range_all: "list_all P [lo..hi] \<Longrightarrow> lo \<le> i \<Longrightarrow> i \<le> hi \<Longrightarrow> P (i :: int)"
  by (simp add: list_all_iff)

lemma find_append: "find P (xs @ ys) = (case find P xs of None \<Rightarrow> find P ys | Some x \<Rightarrow> Some x)"
  by (induction xs) auto

lemma sdiv_pos: "0 \<le> a \<Longrightarrow> 0 < b \<Longrightarrow> a sdiv b = a div (b :: int)"
  by (simp add: signed_divide_int_def sgn_if)

text \<open>Setting or clearing the bits of a mask in a register value.\<close>

definition put_bits :: "'a::len word \<Rightarrow> 'a word \<Rightarrow> bool \<Rightarrow> 'a word" where
  "put_bits x m b = (x AND NOT m) OR ((if b then m else 0) AND m)"

lemma put_bits_test [simp]: "m \<noteq> 0 \<Longrightarrow> put_bits x m b AND m = m \<longleftrightarrow> b"
proof -
  have "put_bits x m b AND m = (if b then m else 0)"
    unfolding put_bits_def by (rule bit_word_eqI) (auto simp: bit_simps)
  then show "m \<noteq> 0 \<Longrightarrow> put_bits x m b AND m = m \<longleftrightarrow> b" by auto
qed

lemma put_bits_other [simp]: "m AND k = 0 \<Longrightarrow> put_bits x m b AND k = x AND k"
proof -
  assume "m AND k = 0"
  then have "\<And>n. \<not> (bit m n \<and> bit k n)" by (metis bit_0_eq bit_and_iff bot_apply bot_bool_def)
  then show "put_bits x m b AND k = x AND k"
    unfolding put_bits_def by (intro bit_word_eqI) (auto simp: bit_simps)
qed

subsection \<open>The ESP-IDF error codes the sources use\<close>

type_synonym esp_err_t = int

abbreviation (input) ESP_OK :: esp_err_t where "ESP_OK \<equiv> 0"
abbreviation (input) ESP_FAIL :: esp_err_t where "ESP_FAIL \<equiv> - 1"
abbreviation (input) ESP_ERR_NO_MEM :: esp_err_t where "ESP_ERR_NO_MEM \<equiv> 0x101"
abbreviation (input) ESP_ERR_INVALID_ARG :: esp_err_t where "ESP_ERR_INVALID_ARG \<equiv> 0x102"
abbreviation (input) ESP_ERR_INVALID_STATE :: esp_err_t where "ESP_ERR_INVALID_STATE \<equiv> 0x103"
abbreviation (input) ESP_ERR_NOT_FOUND :: esp_err_t where "ESP_ERR_NOT_FOUND \<equiv> 0x105"
abbreviation (input) ESP_ERR_NOT_SUPPORTED :: esp_err_t where "ESP_ERR_NOT_SUPPORTED \<equiv> 0x106"

subsection \<open>Monadic combinators\<close>

abbreviation ret :: "'a \<Rightarrow> ('s, 'a) state" where
  "ret \<equiv> State_Monad.return"

definition gets :: "('s \<Rightarrow> 'a) \<Rightarrow> ('s, 'a) state" where
  "gets f = State (\<lambda>s. (f s, s))"

definition modify :: "('s \<Rightarrow> 's) \<Rightarrow> ('s, unit) state" where
  "modify f = State (\<lambda>s. ((), f s))"

definition or_return :: "('s, int) state \<Rightarrow> ('s, int) state \<Rightarrow> ('s, int) state" where
  "or_return m k = do { r \<leftarrow> m; if r \<noteq> 0 then ret r else k }"

definition c_or :: "('s, int) state \<Rightarrow> ('s, int) state \<Rightarrow> ('s, int) state" where
  "c_or m k = do { a \<leftarrow> m; if a \<noteq> 0 then ret 1 else do { b \<leftarrow> k; ret (c_bool (b \<noteq> 0)) } }"

definition c_ors :: "('s, int) state list \<Rightarrow> ('s, int) state" where
  "c_ors ms = foldr c_or ms (ret 0)"

definition when_m :: "bool \<Rightarrow> ('s, unit) state \<Rightarrow> ('s, unit) state" where
  "when_m b m = (if b then m else ret ())"

lemma run_state_gets [simp]: "run_state (gets f) s = (f s, s)"
  by (simp add: gets_def)

lemma run_state_modify [simp]: "run_state (modify f) s = ((), f s)"
  by (simp add: modify_def)

lemma run_state_or_return [simp]:
  "run_state (or_return m k) s =
     (case run_state m s of (r, s') \<Rightarrow> if r \<noteq> 0 then (r, s') else run_state k s')"
  by (simp add: or_return_def split: prod.split)

lemma run_state_c_or [simp]:
  "run_state (c_or m k) s =
     (case run_state m s of (a, s') \<Rightarrow>
        if a \<noteq> 0 then (1, s') else (case run_state k s' of (b, s'') \<Rightarrow> (c_bool (b \<noteq> 0), s'')))"
  by (simp add: c_or_def split: prod.split)

lemma c_ors_Nil [simp]: "c_ors [] = ret 0"
  by (simp add: c_ors_def)

lemma c_ors_Cons [simp]: "c_ors (m # ms) = c_or m (c_ors ms)"
  by (simp add: c_ors_def)

lemma run_state_when_m [simp]:
  "run_state (when_m b m) s = (if b then run_state m s else ((), s))"
  by (simp add: when_m_def)

lemma run_state_if [simp]:
  "run_state (if b then m else k) s = (if b then run_state m s else run_state k s)"
  by simp

subsection \<open>Weakest preconditions\<close>

definition wp :: "('s, 'a) state \<Rightarrow> ('a \<Rightarrow> 's \<Rightarrow> bool) \<Rightarrow> 's \<Rightarrow> bool" where
  "wp m Q s \<longleftrightarrow> (case run_state m s of (r, s') \<Rightarrow> Q r s')"

lemma wpI: "(\<And>r s'. run_state m s = (r, s') \<Longrightarrow> Q r s') \<Longrightarrow> wp m Q s"
  by (simp add: wp_def split: prod.split)

lemma wpD: "wp m Q s \<Longrightarrow> run_state m s = (r, s') \<Longrightarrow> Q r s'"
  by (simp add: wp_def)

lemma wp_return [simp]: "wp (ret x) Q s \<longleftrightarrow> Q x s"
  by (simp add: wp_def)

lemma wp_gets [simp]: "wp (gets f) Q s \<longleftrightarrow> Q (f s) s"
  by (simp add: wp_def)

lemma wp_modify [simp]: "wp (modify f) Q s \<longleftrightarrow> Q () (f s)"
  by (simp add: wp_def)

lemma wp_bind [simp]: "wp (State_Monad.bind m f) Q s \<longleftrightarrow> wp m (\<lambda>r. wp (f r) Q) s"
  by (simp add: wp_def split: prod.split)

lemma wp_if [simp]:
  "wp (if b then m else k) Q s \<longleftrightarrow> (b \<longrightarrow> wp m Q s) \<and> (\<not> b \<longrightarrow> wp k Q s)"
  by simp

lemma wp_when_m [simp]:
  "wp (when_m b m) Q s \<longleftrightarrow> (b \<longrightarrow> wp m Q s) \<and> (\<not> b \<longrightarrow> Q () s)"
  by (simp add: when_m_def)

lemma wp_or_return [simp]:
  "wp (or_return m k) Q s \<longleftrightarrow> wp m (\<lambda>r s'. if r \<noteq> 0 then Q r s' else wp k Q s') s"
  by (simp add: wp_def split: prod.split)

lemma wp_c_or [simp]:
  "wp (c_or m k) Q s \<longleftrightarrow>
     wp m (\<lambda>a s'. if a \<noteq> 0 then Q 1 s' else wp k (\<lambda>b. Q (c_bool (b \<noteq> 0))) s') s"
  by (simp add: wp_def split: prod.split)

lemma wp_mono: "wp m Q s \<Longrightarrow> (\<And>r s'. Q r s' \<Longrightarrow> R r s') \<Longrightarrow> wp m R s"
  by (auto simp: wp_def split: prod.splits)

lemma wp_conj: "wp m Q s \<Longrightarrow> wp m R s \<Longrightarrow> wp m (\<lambda>r s'. Q r s' \<and> R r s') s"
  by (auto simp: wp_def split: prod.splits)

subsection \<open>Frame conditions\<close>

text \<open>\<open>keeps f m\<close>: running \<open>m\<close> never changes what \<open>f\<close> reads from the state.\<close>

definition keeps :: "('s \<Rightarrow> 'b) \<Rightarrow> ('s, 'a) state \<Rightarrow> bool" where
  "keeps f m \<longleftrightarrow> (\<forall>s. f (snd (run_state m s)) = f s)"

lemma keepsI: "(\<And>s r s'. run_state m s = (r, s') \<Longrightarrow> f s' = f s) \<Longrightarrow> keeps f m"
  unfolding keeps_def by (metis prod.collapse)

lemma keepsD: "keeps f m \<Longrightarrow> run_state m s = (r, s') \<Longrightarrow> f s' = f s"
  unfolding keeps_def by (metis snd_conv)

lemma keeps_return [keeps_rules]: "keeps f (ret x)"
  by (simp add: keeps_def)

lemma keeps_gets [keeps_rules]: "keeps f (gets g)"
  by (simp add: keeps_def)

lemma keeps_modify [keeps_rules]: "(\<And>s. f (g s) = f s) \<Longrightarrow> keeps f (modify g)"
  by (simp add: keeps_def)

lemma keeps_bind [keeps_rules]:
  "keeps f m \<Longrightarrow> (\<And>r. keeps f (k r)) \<Longrightarrow> keeps f (State_Monad.bind m k)"
  by (simp add: keeps_def split: prod.split) (metis snd_conv)

lemma keeps_if [keeps_rules]: "(b \<Longrightarrow> keeps f m) \<Longrightarrow> (\<not> b \<Longrightarrow> keeps f k) \<Longrightarrow> keeps f (if b then m else k)"
  by simp

lemma keeps_or_return [keeps_rules]: "keeps f m \<Longrightarrow> keeps f k \<Longrightarrow> keeps f (or_return m k)"
  unfolding or_return_def by (intro keeps_rules)

lemma keeps_c_or [keeps_rules]: "keeps f m \<Longrightarrow> keeps f k \<Longrightarrow> keeps f (c_or m k)"
  unfolding c_or_def by (intro keeps_rules)

lemma keeps_when_m [keeps_rules]: "keeps f m \<Longrightarrow> keeps f (when_m b m)"
  unfolding when_m_def by (intro keeps_rules)

lemma keeps_c_ors [keeps_rules]: "(\<And>m. m \<in> set ms \<Longrightarrow> keeps f m) \<Longrightarrow> keeps f (c_ors ms)"
  by (induction ms) (auto intro!: keeps_rules)

lemma wp_keeps: "keeps f m \<Longrightarrow> (\<And>r s'. f s' = f s \<Longrightarrow> Q r s') \<Longrightarrow> wp m Q s"
  by (rule wpI) (auto dest: keepsD)

lemma keeps_wpI: "(\<And>s. wp m (\<lambda>_ s'. f s' = f s) s) \<Longrightarrow> keeps f m"
  by (auto simp: keeps_def wp_def split_beta)

subsection \<open>Invariants\<close>

text \<open>\<open>preserves P m\<close>: running \<open>m\<close> from a state with \<open>P\<close> ends in one with \<open>P\<close>.\<close>

definition preserves :: "('s \<Rightarrow> bool) \<Rightarrow> ('s, 'a) state \<Rightarrow> bool" where
  "preserves P m \<longleftrightarrow> (\<forall>s. P s \<longrightarrow> P (snd (run_state m s)))"

lemma preservesI: "(\<And>s r s'. P s \<Longrightarrow> run_state m s = (r, s') \<Longrightarrow> P s') \<Longrightarrow> preserves P m"
  unfolding preserves_def by (metis prod.collapse)

lemma preservesD: "preserves P m \<Longrightarrow> P s \<Longrightarrow> run_state m s = (r, s') \<Longrightarrow> P s'"
  unfolding preserves_def by (metis snd_conv)

lemma preserves_return [preserves_rules]: "preserves P (ret x)"
  by (simp add: preserves_def)

lemma preserves_gets [preserves_rules]: "preserves P (gets g)"
  by (simp add: preserves_def)

lemma preserves_modify: "(\<And>s. P s \<Longrightarrow> P (g s)) \<Longrightarrow> preserves P (modify g)"
  by (simp add: preserves_def)

lemma preserves_bind [preserves_rules]:
  "preserves P m \<Longrightarrow> (\<And>r. preserves P (k r)) \<Longrightarrow> preserves P (State_Monad.bind m k)"
  by (simp add: preserves_def split: prod.split) (metis snd_conv)

lemma preserves_if [preserves_rules]:
  "(b \<Longrightarrow> preserves P m) \<Longrightarrow> (\<not> b \<Longrightarrow> preserves P k) \<Longrightarrow> preserves P (if b then m else k)"
  by simp

lemma preserves_or_return [preserves_rules]:
  "preserves P m \<Longrightarrow> preserves P k \<Longrightarrow> preserves P (or_return m k)"
  unfolding or_return_def by (intro preserves_rules)

lemma preserves_c_or [preserves_rules]: "preserves P m \<Longrightarrow> preserves P k \<Longrightarrow> preserves P (c_or m k)"
  unfolding c_or_def by (intro preserves_rules)

lemma preserves_when_m [preserves_rules]: "preserves P m \<Longrightarrow> preserves P (when_m b m)"
  unfolding when_m_def by (intro preserves_rules)

end
