(* ===== verification/Sensor.thy ===== *)
theory Sensor
  imports Prelude
begin

text \<open>
  The sensor abstraction layer of the \<open>esp32-camera\<close> component: the types of
  \<open>driver/include/sensor.h\<close> (enumerations as datatypes, ordered by their C value where the
  sources compare them; structs as records) and the two tables and the lookup of
  \<open>driver/sensor.c\<close>. The lemmas show that the tables are consistent: a row stands at the
  index of its model, product ids are unique, so the lookup of a row's id finds that row.
\<close>

subsection \<open>Enumerations of \<open>sensor.h\<close>\<close>

datatype camera_model_t =
    CAMERA_OV7725 | CAMERA_OV2640 | CAMERA_OV3660 | CAMERA_OV5640
  | CAMERA_OV7670 | CAMERA_NT99141 | CAMERA_GC2145 | CAMERA_GC032A
  | CAMERA_GC0308 | CAMERA_BF3005 | CAMERA_BF20A6 | CAMERA_SC101IOT
  | CAMERA_SC030IOT | CAMERA_SC031GS | CAMERA_MODEL_MAX | CAMERA_NONE

datatype pixformat_t =
    PIXFORMAT_RGB565 | PIXFORMAT_YUV422 | PIXFORMAT_YUV420 | PIXFORMAT_GRAYSCALE
  | PIXFORMAT_JPEG | PIXFORMAT_RGB888 | PIXFORMAT_RAW | PIXFORMAT_RGB444
  | PIXFORMAT_RGB555

datatype framesize_t =
    FRAMESIZE_96X96 | FRAMESIZE_QQVGA | FRAMESIZE_QCIF | FRAMESIZE_HQVGA
  | FRAMESIZE_240X240 | FRAMESIZE_QVGA | FRAMESIZE_CIF | FRAMESIZE_HVGA
  | FRAMESIZE_VGA | FRAMESIZE_SVGA | FRAMESIZE_XGA | FRAMESIZE_HD
  | FRAMESIZE_SXGA | FRAMESIZE_UXGA | FRAMESIZE_FHD | FRAMESIZE_P_HD
  | FRAMESIZE_P_3MP | FRAMESIZE_QXGA | FRAMESIZE_QHD | FRAMESIZE_WQXGA
  | FRAMESIZE_P_FHD | FRAMESIZE_QSXGA | FRAMESIZE_INVALID

datatype aspect_ratio_t =
    ASPECT_RATIO_4X3 | ASPECT_RATIO_3X2 | ASPECT_RATIO_16X10 | ASPECT_RATIO_5X3
  | ASPECT_RATIO_16X9 | ASPECT_RATIO_21X9 | ASPECT_RATIO_5X4 | ASPECT_RATIO_1X1
  | ASPECT_RATIO_9X16

text \<open>The C value of each enumerator, its position in the declaration.\<close>

fun camera_model_index :: "camera_model_t \<Rightarrow> nat" where
  "camera_model_index CAMERA_OV7725 = 0"
| "camera_model_index CAMERA_OV2640 = 1"
| "camera_model_index CAMERA_OV3660 = 2"
| "camera_model_index CAMERA_OV5640 = 3"
| "camera_model_index CAMERA_OV7670 = 4"
| "camera_model_index CAMERA_NT99141 = 5"
| "camera_model_index CAMERA_GC2145 = 6"
| "camera_model_index CAMERA_GC032A = 7"
| "camera_model_index CAMERA_GC0308 = 8"
| "camera_model_index CAMERA_BF3005 = 9"
| "camera_model_index CAMERA_BF20A6 = 10"
| "camera_model_index CAMERA_SC101IOT = 11"
| "camera_model_index CAMERA_SC030IOT = 12"
| "camera_model_index CAMERA_SC031GS = 13"
| "camera_model_index CAMERA_MODEL_MAX = 14"
| "camera_model_index CAMERA_NONE = 15"

fun framesize_index :: "framesize_t \<Rightarrow> nat" where
  "framesize_index FRAMESIZE_96X96 = 0"
| "framesize_index FRAMESIZE_QQVGA = 1"
| "framesize_index FRAMESIZE_QCIF = 2"
| "framesize_index FRAMESIZE_HQVGA = 3"
| "framesize_index FRAMESIZE_240X240 = 4"
| "framesize_index FRAMESIZE_QVGA = 5"
| "framesize_index FRAMESIZE_CIF = 6"
| "framesize_index FRAMESIZE_HVGA = 7"
| "framesize_index FRAMESIZE_VGA = 8"
| "framesize_index FRAMESIZE_SVGA = 9"
| "framesize_index FRAMESIZE_XGA = 10"
| "framesize_index FRAMESIZE_HD = 11"
| "framesize_index FRAMESIZE_SXGA = 12"
| "framesize_index FRAMESIZE_UXGA = 13"
| "framesize_index FRAMESIZE_FHD = 14"
| "framesize_index FRAMESIZE_P_HD = 15"
| "framesize_index FRAMESIZE_P_3MP = 16"
| "framesize_index FRAMESIZE_QXGA = 17"
| "framesize_index FRAMESIZE_QHD = 18"
| "framesize_index FRAMESIZE_WQXGA = 19"
| "framesize_index FRAMESIZE_P_FHD = 20"
| "framesize_index FRAMESIZE_QSXGA = 21"
| "framesize_index FRAMESIZE_INVALID = 22"

fun aspect_ratio_index :: "aspect_ratio_t \<Rightarrow> nat" where
  "aspect_ratio_index ASPECT_RATIO_4X3 = 0"
| "aspect_ratio_index ASPECT_RATIO_3X2 = 1"
| "aspect_ratio_index ASPECT_RATIO_16X10 = 2"
| "aspect_ratio_index ASPECT_RATIO_5X3 = 3"
| "aspect_ratio_index ASPECT_RATIO_16X9 = 4"
| "aspect_ratio_index ASPECT_RATIO_21X9 = 5"
| "aspect_ratio_index ASPECT_RATIO_5X4 = 6"
| "aspect_ratio_index ASPECT_RATIO_1X1 = 7"
| "aspect_ratio_index ASPECT_RATIO_9X16 = 8"

fun pixformat_index :: "pixformat_t \<Rightarrow> nat" where
  "pixformat_index PIXFORMAT_RGB565 = 0"
| "pixformat_index PIXFORMAT_YUV422 = 1"
| "pixformat_index PIXFORMAT_YUV420 = 2"
| "pixformat_index PIXFORMAT_GRAYSCALE = 3"
| "pixformat_index PIXFORMAT_JPEG = 4"
| "pixformat_index PIXFORMAT_RGB888 = 5"
| "pixformat_index PIXFORMAT_RAW = 6"
| "pixformat_index PIXFORMAT_RGB444 = 7"
| "pixformat_index PIXFORMAT_RGB555 = 8"

lemma framesize_index_inj: "framesize_index x = framesize_index y \<longleftrightarrow> x = y"
  by (cases x; cases y) simp_all

text \<open>The sources compare frame sizes as integers (\<open>framesize <= FRAMESIZE_CIF\<close>).\<close>

instantiation framesize_t :: linorder
begin

definition less_eq_framesize_t :: "framesize_t \<Rightarrow> framesize_t \<Rightarrow> bool" where
  "less_eq_framesize_t x y \<longleftrightarrow> framesize_index x \<le> framesize_index y"

definition less_framesize_t :: "framesize_t \<Rightarrow> framesize_t \<Rightarrow> bool" where
  "less_framesize_t x y \<longleftrightarrow> framesize_index x < framesize_index y"

instance
  by intro_classes
    (auto simp: less_eq_framesize_t_def less_framesize_t_def framesize_index_inj)

end

lemmas framesize_order = less_eq_framesize_t_def less_framesize_t_def

subsection \<open>Structs of \<open>sensor.h\<close>\<close>

record camera_sensor_info_t =
  ci_model :: camera_model_t
  ci_name :: string
  ci_sccb_addr :: u8
  ci_pid :: u16
  ci_max_size :: framesize_t
  ci_support_jpeg :: bool

record resolution_info_t =
  ri_width :: u16
  ri_height :: u16
  ri_aspect_ratio :: aspect_ratio_t

record sensor_id_t =
  id_MIDH :: u8
  id_MIDL :: u8
  id_PID :: u16
  id_VER :: u8

record ratio_settings_t =
  rs_max_width :: u16
  rs_max_height :: u16
  rs_start_x :: u16
  rs_start_y :: u16
  rs_end_x :: u16
  rs_end_y :: u16
  rs_offset_x :: u16
  rs_offset_y :: u16
  rs_total_x :: u16
  rs_total_y :: u16

text \<open>The \<open>int8_t\<close> fields hold a value produced by \<open>c_int8\<close>.\<close>

record camera_status_t =
  st_framesize :: framesize_t
  st_scale :: bool
  st_binning :: bool
  st_quality :: u8
  st_brightness :: int
  st_contrast :: int
  st_saturation :: int
  st_sharpness :: int
  st_denoise :: u8
  st_special_effect :: u8
  st_wb_mode :: u8
  st_awb :: u8
  st_awb_gain :: u8
  st_aec :: u8
  st_aec2 :: u8
  st_ae_level :: int
  st_aec_value :: u16
  st_agc :: u8
  st_agc_gain :: u8
  st_gainceiling :: u8
  st_bpc :: u8
  st_wpc :: u8
  st_raw_gma :: u8
  st_lenc :: u8
  st_hmirror :: u8
  st_vflip :: u8
  st_dcw :: u8
  st_colorbar :: u8

text \<open>
  The function pointers of \<open>sensor_t\<close> are filled all at once by the sensor's \<open>_init\<close>
  function and never changed afterwards: \<open>s_driver\<close> records whose functions they are.
\<close>

datatype sensor_driver = No_driver | Driver camera_model_t

record sensor_t =
  s_id :: sensor_id_t
  s_slv_addr :: u8
  s_pixformat :: pixformat_t
  s_status :: camera_status_t
  s_xclk_freq_hz :: int
  s_driver :: sensor_driver

text \<open>The calls through the function pointers of \<open>sensor_t\<close>, with their arguments.\<close>

datatype sensor_op =
    Init_status | Reset | Set_pixformat pixformat_t | Set_framesize framesize_t
  | Set_contrast int | Set_brightness int | Set_saturation int | Set_sharpness int
  | Set_denoise int | Set_gainceiling int | Set_quality int | Set_colorbar int
  | Set_whitebal int | Set_gain_ctrl int | Set_exposure_ctrl int | Set_hmirror int
  | Set_vflip int | Set_aec2 int | Set_awb_gain int | Set_agc_gain int | Set_aec_value int
  | Set_special_effect int | Set_wb_mode int | Set_ae_level int | Set_dcw int | Set_bpc int
  | Set_wpc int | Set_raw_gma int | Set_lenc int | Get_reg int int | Set_reg int int int
  | Set_res_raw int int int int int int int int int int bool bool
  | Set_pll int int int int int int int int | Set_xclk int int

subsection \<open>The tables of \<open>sensor.c\<close>\<close>

definition camera_sensor :: "camera_sensor_info_t list" where
  "camera_sensor = [
    \<lparr>ci_model = CAMERA_OV7725, ci_name = ''OV7725'', ci_sccb_addr = 0x21, ci_pid = 0x77,
       ci_max_size = FRAMESIZE_VGA, ci_support_jpeg = False\<rparr>,
    \<lparr>ci_model = CAMERA_OV2640, ci_name = ''OV2640'', ci_sccb_addr = 0x30, ci_pid = 0x26,
       ci_max_size = FRAMESIZE_UXGA, ci_support_jpeg = True\<rparr>,
    \<lparr>ci_model = CAMERA_OV3660, ci_name = ''OV3660'', ci_sccb_addr = 0x3C, ci_pid = 0x3660,
       ci_max_size = FRAMESIZE_QXGA, ci_support_jpeg = True\<rparr>,
    \<lparr>ci_model = CAMERA_OV5640, ci_name = ''OV5640'', ci_sccb_addr = 0x3C, ci_pid = 0x5640,
       ci_max_size = FRAMESIZE_QSXGA, ci_support_jpeg = True\<rparr>,
    \<lparr>ci_model = CAMERA_OV7670, ci_name = ''OV7670'', ci_sccb_addr = 0x21, ci_pid = 0x76,
       ci_max_size = FRAMESIZE_VGA, ci_support_jpeg = False\<rparr>,
    \<lparr>ci_model = CAMERA_NT99141, ci_name = ''NT99141'', ci_sccb_addr = 0x2A, ci_pid = 0x1410,
       ci_max_size = FRAMESIZE_HD, ci_support_jpeg = True\<rparr>,
    \<lparr>ci_model = CAMERA_GC2145, ci_name = ''GC2145'', ci_sccb_addr = 0x3C, ci_pid = 0x2145,
       ci_max_size = FRAMESIZE_UXGA, ci_support_jpeg = False\<rparr>,
    \<lparr>ci_model = CAMERA_GC032A, ci_name = ''GC032A'', ci_sccb_addr = 0x21, ci_pid = 0x232a,
       ci_max_size = FRAMESIZE_VGA, ci_support_jpeg = False\<rparr>,
    \<lparr>ci_model = CAMERA_GC0308, ci_name = ''GC0308'', ci_sccb_addr = 0x21, ci_pid = 0x9b,
       ci_max_size = FRAMESIZE_VGA, ci_support_jpeg = False\<rparr>,
    \<lparr>ci_model = CAMERA_BF3005, ci_name = ''BF3005'', ci_sccb_addr = 0x6E, ci_pid = 0x30,
       ci_max_size = FRAMESIZE_VGA, ci_support_jpeg = False\<rparr>,
    \<lparr>ci_model = CAMERA_BF20A6, ci_name = ''BF20A6'', ci_sccb_addr = 0x6E, ci_pid = 0x20a6,
       ci_max_size = FRAMESIZE_VGA, ci_support_jpeg = False\<rparr>,
    \<lparr>ci_model = CAMERA_SC101IOT, ci_name = ''SC101IOT'', ci_sccb_addr = 0x68, ci_pid = 0xda4a,
       ci_max_size = FRAMESIZE_HD, ci_support_jpeg = False\<rparr>,
    \<lparr>ci_model = CAMERA_SC030IOT, ci_name = ''SC030IOT'', ci_sccb_addr = 0x68, ci_pid = 0x9a46,
       ci_max_size = FRAMESIZE_VGA, ci_support_jpeg = False\<rparr>,
    \<lparr>ci_model = CAMERA_SC031GS, ci_name = ''SC031GS'', ci_sccb_addr = 0x30, ci_pid = 0x0031,
       ci_max_size = FRAMESIZE_VGA, ci_support_jpeg = False\<rparr>
  ]"

definition resolution :: "resolution_info_t list" where
  "resolution = [
    \<lparr>ri_width = 96, ri_height = 96, ri_aspect_ratio = ASPECT_RATIO_1X1\<rparr>,
    \<lparr>ri_width = 160, ri_height = 120, ri_aspect_ratio = ASPECT_RATIO_4X3\<rparr>,
    \<lparr>ri_width = 176, ri_height = 144, ri_aspect_ratio = ASPECT_RATIO_5X4\<rparr>,
    \<lparr>ri_width = 240, ri_height = 176, ri_aspect_ratio = ASPECT_RATIO_4X3\<rparr>,
    \<lparr>ri_width = 240, ri_height = 240, ri_aspect_ratio = ASPECT_RATIO_1X1\<rparr>,
    \<lparr>ri_width = 320, ri_height = 240, ri_aspect_ratio = ASPECT_RATIO_4X3\<rparr>,
    \<lparr>ri_width = 400, ri_height = 296, ri_aspect_ratio = ASPECT_RATIO_4X3\<rparr>,
    \<lparr>ri_width = 480, ri_height = 320, ri_aspect_ratio = ASPECT_RATIO_3X2\<rparr>,
    \<lparr>ri_width = 640, ri_height = 480, ri_aspect_ratio = ASPECT_RATIO_4X3\<rparr>,
    \<lparr>ri_width = 800, ri_height = 600, ri_aspect_ratio = ASPECT_RATIO_4X3\<rparr>,
    \<lparr>ri_width = 1024, ri_height = 768, ri_aspect_ratio = ASPECT_RATIO_4X3\<rparr>,
    \<lparr>ri_width = 1280, ri_height = 720, ri_aspect_ratio = ASPECT_RATIO_16X9\<rparr>,
    \<lparr>ri_width = 1280, ri_height = 1024, ri_aspect_ratio = ASPECT_RATIO_5X4\<rparr>,
    \<lparr>ri_width = 1600, ri_height = 1200, ri_aspect_ratio = ASPECT_RATIO_4X3\<rparr>,
    \<lparr>ri_width = 1920, ri_height = 1080, ri_aspect_ratio = ASPECT_RATIO_16X9\<rparr>,
    \<lparr>ri_width = 720, ri_height = 1280, ri_aspect_ratio = ASPECT_RATIO_9X16\<rparr>,
    \<lparr>ri_width = 864, ri_height = 1536, ri_aspect_ratio = ASPECT_RATIO_9X16\<rparr>,
    \<lparr>ri_width = 2048, ri_height = 1536, ri_aspect_ratio = ASPECT_RATIO_4X3\<rparr>,
    \<lparr>ri_width = 2560, ri_height = 1440, ri_aspect_ratio = ASPECT_RATIO_16X9\<rparr>,
    \<lparr>ri_width = 2560, ri_height = 1600, ri_aspect_ratio = ASPECT_RATIO_16X10\<rparr>,
    \<lparr>ri_width = 1088, ri_height = 1920, ri_aspect_ratio = ASPECT_RATIO_9X16\<rparr>,
    \<lparr>ri_width = 2560, ri_height = 1920, ri_aspect_ratio = ASPECT_RATIO_4X3\<rparr>
  ]"

text \<open>
  \<open>resolution[fs]\<close>. The table has no row for \<open>FRAMESIZE_INVALID\<close>: reading it there is
  undefined in C, and unspecified here.
\<close>

definition resolution_at :: "framesize_t \<Rightarrow> resolution_info_t" where
  "resolution_at fs = resolution ! framesize_index fs"

definition esp_camera_sensor_get_info :: "sensor_id_t \<Rightarrow> camera_sensor_info_t option" where
  "esp_camera_sensor_get_info i = find (\<lambda>r. id_PID i = ci_pid r) camera_sensor"

subsection \<open>Consistency of the tables\<close>

text \<open>The facts the drivers use of the resolution table, one equation per frame size.\<close>

lemma resolution_at_simps [simp]:
  "resolution_at FRAMESIZE_96X96 = \<lparr>ri_width = 96, ri_height = 96, ri_aspect_ratio = ASPECT_RATIO_1X1\<rparr>"
  "resolution_at FRAMESIZE_QQVGA = \<lparr>ri_width = 160, ri_height = 120, ri_aspect_ratio = ASPECT_RATIO_4X3\<rparr>"
  "resolution_at FRAMESIZE_QCIF = \<lparr>ri_width = 176, ri_height = 144, ri_aspect_ratio = ASPECT_RATIO_5X4\<rparr>"
  "resolution_at FRAMESIZE_HQVGA = \<lparr>ri_width = 240, ri_height = 176, ri_aspect_ratio = ASPECT_RATIO_4X3\<rparr>"
  "resolution_at FRAMESIZE_240X240 = \<lparr>ri_width = 240, ri_height = 240, ri_aspect_ratio = ASPECT_RATIO_1X1\<rparr>"
  "resolution_at FRAMESIZE_QVGA = \<lparr>ri_width = 320, ri_height = 240, ri_aspect_ratio = ASPECT_RATIO_4X3\<rparr>"
  "resolution_at FRAMESIZE_CIF = \<lparr>ri_width = 400, ri_height = 296, ri_aspect_ratio = ASPECT_RATIO_4X3\<rparr>"
  "resolution_at FRAMESIZE_HVGA = \<lparr>ri_width = 480, ri_height = 320, ri_aspect_ratio = ASPECT_RATIO_3X2\<rparr>"
  "resolution_at FRAMESIZE_VGA = \<lparr>ri_width = 640, ri_height = 480, ri_aspect_ratio = ASPECT_RATIO_4X3\<rparr>"
  "resolution_at FRAMESIZE_SVGA = \<lparr>ri_width = 800, ri_height = 600, ri_aspect_ratio = ASPECT_RATIO_4X3\<rparr>"
  "resolution_at FRAMESIZE_XGA = \<lparr>ri_width = 1024, ri_height = 768, ri_aspect_ratio = ASPECT_RATIO_4X3\<rparr>"
  "resolution_at FRAMESIZE_HD = \<lparr>ri_width = 1280, ri_height = 720, ri_aspect_ratio = ASPECT_RATIO_16X9\<rparr>"
  "resolution_at FRAMESIZE_SXGA = \<lparr>ri_width = 1280, ri_height = 1024, ri_aspect_ratio = ASPECT_RATIO_5X4\<rparr>"
  "resolution_at FRAMESIZE_UXGA = \<lparr>ri_width = 1600, ri_height = 1200, ri_aspect_ratio = ASPECT_RATIO_4X3\<rparr>"
  "resolution_at FRAMESIZE_FHD = \<lparr>ri_width = 1920, ri_height = 1080, ri_aspect_ratio = ASPECT_RATIO_16X9\<rparr>"
  "resolution_at FRAMESIZE_P_HD = \<lparr>ri_width = 720, ri_height = 1280, ri_aspect_ratio = ASPECT_RATIO_9X16\<rparr>"
  "resolution_at FRAMESIZE_P_3MP = \<lparr>ri_width = 864, ri_height = 1536, ri_aspect_ratio = ASPECT_RATIO_9X16\<rparr>"
  "resolution_at FRAMESIZE_QXGA = \<lparr>ri_width = 2048, ri_height = 1536, ri_aspect_ratio = ASPECT_RATIO_4X3\<rparr>"
  "resolution_at FRAMESIZE_QHD = \<lparr>ri_width = 2560, ri_height = 1440, ri_aspect_ratio = ASPECT_RATIO_16X9\<rparr>"
  "resolution_at FRAMESIZE_WQXGA = \<lparr>ri_width = 2560, ri_height = 1600, ri_aspect_ratio = ASPECT_RATIO_16X10\<rparr>"
  "resolution_at FRAMESIZE_P_FHD = \<lparr>ri_width = 1088, ri_height = 1920, ri_aspect_ratio = ASPECT_RATIO_9X16\<rparr>"
  "resolution_at FRAMESIZE_QSXGA = \<lparr>ri_width = 2560, ri_height = 1920, ri_aspect_ratio = ASPECT_RATIO_4X3\<rparr>"
  by (simp_all add: resolution_at_def resolution_def)

lemma length_camera_sensor: "length camera_sensor = 14"
  by (simp add: camera_sensor_def)

lemma camera_sensor_pid_distinct: "distinct (map ci_pid camera_sensor)"
  by (simp add: camera_sensor_def)

lemma find_distinct_key_iff:
  "distinct (map f xs) \<Longrightarrow> find (\<lambda>y. k = f y) xs = Some x \<longleftrightarrow> x \<in> set xs \<and> f x = k"
  by (induction xs) (auto simp: image_iff)

text \<open>
  The sensor lookup of \<open>sensor.c\<close> is exact and the table is laid out as its comment
  demands: \<open>esp_camera_sensor_get_info\<close> returns a row precisely when that row is in the table
  and carries the product id asked for (so every supported sensor is found, and found by its
  own row), and the rows stand in the order of \<open>camera_model_t\<close>, which is what lets
  \<open>esp_camera_init\<close> index the table by the detected model.
\<close>

theorem sensor_table_lookup_exact:
  "(esp_camera_sensor_get_info i = Some r \<longleftrightarrow> r \<in> set camera_sensor \<and> ci_pid r = id_PID i) \<and>
   map (camera_model_index \<circ> ci_model) camera_sensor = [0..<14]"
proof
  show "esp_camera_sensor_get_info i = Some r \<longleftrightarrow> r \<in> set camera_sensor \<and> ci_pid r = id_PID i"
    unfolding esp_camera_sensor_get_info_def
    using camera_sensor_pid_distinct by (rule find_distinct_key_iff)
  show "map (camera_model_index \<circ> ci_model) camera_sensor = [0..<14]"
    by (simp add: camera_sensor_def upt_rec)
qed

end
