(* ===== verification/Sccb.thy ===== *)
theory Sccb
  imports Sensor
begin

text \<open>
  The SCCB bus driver, \<open>driver/sccb.c\<close> (the legacy I2C variant the firmware selects with
  \<open>CONFIG_SCCB_HARDWARE_I2C_DRIVER_LEGACY\<close>), with the default port 1 and clock of its
  \<open>Kconfig\<close>.

  The I2C peripheral driver, the GPIO and clock drivers and the device on the wire are a
  parameter: the record \<open>hw\<close> holds one function per driver call the sources make, each
  working on an opaque hardware state \<open>'d\<close>. A command link is the list of the commands
  queued on it. The static variables of the camera driver are the record \<open>world\<close>.

  \<open>sccb_dev8\<close> and \<open>sccb_dev16\<close> are the interfaces a sensor on the bus offers to the
  sensor drivers: what a write, an address select and a read transaction do to it. Inside
  them the bus routines are reduced to register accesses once and for all.
\<close>

subsection \<open>The hardware interface and the driver state\<close>

datatype i2c_cmd = I2C_start | I2C_write_byte u8 bool | I2C_read_byte bool | I2C_stop

record i2c_config_t =
  cf_mode_master :: bool
  cf_sda_io_num :: int
  cf_sda_pullup_en :: bool
  cf_scl_io_num :: int
  cf_scl_pullup_en :: bool
  cf_clk_speed :: int

record 'd hw =
  i2c_param_config :: "int \<Rightarrow> i2c_config_t \<Rightarrow> 'd \<Rightarrow> esp_err_t \<times> 'd"
  i2c_driver_install :: "int \<Rightarrow> 'd \<Rightarrow> esp_err_t \<times> 'd"
  i2c_driver_delete :: "int \<Rightarrow> 'd \<Rightarrow> esp_err_t \<times> 'd"
  i2c_master_cmd_begin :: "int \<Rightarrow> i2c_cmd list \<Rightarrow> 'd \<Rightarrow> esp_err_t \<times> u8 list \<times> 'd"
  vTaskDelay_ms :: "nat \<Rightarrow> 'd \<Rightarrow> 'd"
  xclk_timer_conf :: "int \<Rightarrow> int \<Rightarrow> 'd \<Rightarrow> esp_err_t \<times> 'd"
  gpio_config_output :: "int \<Rightarrow> 'd \<Rightarrow> 'd"
  gpio_set_level :: "int \<Rightarrow> int \<Rightarrow> 'd \<Rightarrow> 'd"

text \<open>
  \<open>sccb_write16_i\<close> is the static failure counter inside \<open>SCCB_Write16\<close>, \<open>reg_bank\<close> the
  static bank cache of \<open>sensors/ov2640.c\<close>, \<open>sensor\<close> the sensor the operations are called
  on, \<open>dev\<close> the hardware.
\<close>

record 'd world =
  sccb_i2c_port :: int
  sccb_owns_i2c_port :: bool
  sccb_write16_i :: u16
  reg_bank :: u8
  sensor :: sensor_t
  dev :: 'd

definition SCCB_I2C_PORT_DEFAULT :: int where
  "SCCB_I2C_PORT_DEFAULT = 1"

definition SCCB_FREQ :: int where
  "SCCB_FREQ = 100000"

definition I2C_NUM_MAX :: int where
  "I2C_NUM_MAX = 2"

abbreviation (input) WRITE_BIT :: u8 where "WRITE_BIT \<equiv> 0"
abbreviation (input) READ_BIT :: u8 where "READ_BIT \<equiv> 1"
abbreviation (input) ACK_CHECK_EN :: bool where "ACK_CHECK_EN \<equiv> True"
abbreviation (input) ACK_VAL :: bool where "ACK_VAL \<equiv> False"
abbreviation (input) NACK_VAL :: bool where "NACK_VAL \<equiv> True"

text \<open>The first byte of a transaction: \<open>(slv_addr << 1) | WRITE_BIT\<close> or \<open>| READ_BIT\<close>.\<close>

definition addr_write :: "u8 \<Rightarrow> u8" where
  "addr_write slv_addr = push_bit 1 slv_addr OR WRITE_BIT"

definition addr_read :: "u8 \<Rightarrow> u8" where
  "addr_read slv_addr = push_bit 1 slv_addr OR READ_BIT"

definition LITTLETOBIG :: "u16 \<Rightarrow> u16" where
  "LITTLETOBIG x = push_bit 8 x OR drop_bit 8 x"

text \<open>Access to the sensor the drivers are called on: \<open>sensor->slv_addr\<close>, \<open>sensor->status\<close>.\<close>

definition slv_addr_m :: "('d world, u8) state" where
  "slv_addr_m = gets (\<lambda>w. s_slv_addr (sensor w))"

definition status_m :: "('d world, camera_status_t) state" where
  "status_m = gets (\<lambda>w. s_status (sensor w))"

definition upd_sensor :: "(sensor_t \<Rightarrow> sensor_t) \<Rightarrow> ('d world, unit) state" where
  "upd_sensor f = modify (\<lambda>w. w\<lparr>sensor := f (sensor w)\<rparr>)"

definition upd_status :: "(camera_status_t \<Rightarrow> camera_status_t) \<Rightarrow> ('d world, unit) state" where
  "upd_status f = modify (\<lambda>w. w\<lparr>sensor := (sensor w)\<lparr>s_status := f (s_status (sensor w))\<rparr>\<rparr>)"

lemma run_state_sensor_access [simp]:
  "run_state slv_addr_m w = (s_slv_addr (sensor w), w)"
  "run_state status_m w = (s_status (sensor w), w)"
  "run_state (upd_sensor f) w = ((), w\<lparr>sensor := f (sensor w)\<rparr>)"
  "run_state (upd_status g) w = ((), w\<lparr>sensor := (sensor w)\<lparr>s_status := g (s_status (sensor w))\<rparr>\<rparr>)"
  by (simp_all add: slv_addr_m_def status_m_def upd_sensor_def upd_status_def)

lemma wp_sensor_access [simp]:
  "wp slv_addr_m Q w \<longleftrightarrow> Q (s_slv_addr (sensor w)) w"
  "wp status_m R w \<longleftrightarrow> R (s_status (sensor w)) w"
  "wp (upd_sensor f) S w \<longleftrightarrow> S () (w\<lparr>sensor := f (sensor w)\<rparr>)"
  "wp (upd_status g) S w \<longleftrightarrow> S () (w\<lparr>sensor := (sensor w)\<lparr>s_status := g (s_status (sensor w))\<rparr>\<rparr>)"
  by (simp_all add: wp_def)

text \<open>\<open>vTaskDelay(ms / portTICK_PERIOD_MS)\<close>: time passes for the hardware.\<close>

definition delay_ms :: "'d hw \<Rightarrow> nat \<Rightarrow> ('d world, unit) state" where
  "delay_ms hw ms = modify (\<lambda>w. w\<lparr>dev := vTaskDelay_ms hw ms (dev w)\<rparr>)"

text \<open>\<open>i2c_master_cmd_begin(sccb_i2c_port, cmd, ...)\<close>: the result code and the bytes read.\<close>

definition cmd_begin :: "'d hw \<Rightarrow> i2c_cmd list \<Rightarrow> ('d world, esp_err_t \<times> u8 list) state" where
  "cmd_begin hw cmd = State (\<lambda>w.
     case i2c_master_cmd_begin hw (sccb_i2c_port w) cmd (dev w) of
       (err, bytes, d) \<Rightarrow> ((err, bytes), w\<lparr>dev := d\<rparr>))"

text \<open>
  The variable a read command stores into keeps its initial value when the transaction
  delivered no byte for it.
\<close>

definition read_into :: "u8 \<Rightarrow> u8 list \<Rightarrow> nat \<Rightarrow> u8" where
  "read_into initial bytes k = (if k < length bytes then bytes ! k else initial)"

subsection \<open>The routines of \<open>sccb.c\<close>\<close>

definition SCCB_Init :: "'d hw \<Rightarrow> int \<Rightarrow> int \<Rightarrow> ('d world, int) state" where
  "SCCB_Init hw pin_sda pin_scl = do {
     modify (\<lambda>w. w\<lparr>sccb_i2c_port := SCCB_I2C_PORT_DEFAULT, sccb_owns_i2c_port := True\<rparr>);
     r \<leftarrow> State (\<lambda>w. case i2c_param_config hw (sccb_i2c_port w)
            \<lparr>cf_mode_master = True, cf_sda_io_num = pin_sda, cf_sda_pullup_en = True,
             cf_scl_io_num = pin_scl, cf_scl_pullup_en = True, cf_clk_speed = SCCB_FREQ\<rparr> (dev w) of
            (e, d) \<Rightarrow> (e, w\<lparr>dev := d\<rparr>));
     if r \<noteq> ESP_OK then ret r
     else State (\<lambda>w. case i2c_driver_install hw (sccb_i2c_port w) (dev w) of
            (e, d) \<Rightarrow> (e, w\<lparr>dev := d\<rparr>)) }"

definition SCCB_Deinit :: "'d hw \<Rightarrow> ('d world, int) state" where
  "SCCB_Deinit hw = do {
     owns \<leftarrow> gets sccb_owns_i2c_port;
     if \<not> owns then ret ESP_OK
     else do {
       modify (\<lambda>w. w\<lparr>sccb_owns_i2c_port := False\<rparr>);
       State (\<lambda>w. case i2c_driver_delete hw (sccb_i2c_port w) (dev w) of
            (e, d) \<Rightarrow> (e, w\<lparr>dev := d\<rparr>)) } }"

definition SCCB_Use_Port :: "'d hw \<Rightarrow> int \<Rightarrow> ('d world, int) state" where
  "SCCB_Use_Port hw i2c_num = do {
     owns \<leftarrow> gets sccb_owns_i2c_port;
     when_m owns (do { _ \<leftarrow> SCCB_Deinit hw; ret () });
     if i2c_num < 0 \<or> i2c_num > I2C_NUM_MAX then ret ESP_ERR_INVALID_ARG
     else do { modify (\<lambda>w. w\<lparr>sccb_i2c_port := i2c_num\<rparr>); ret ESP_OK } }"

text \<open>The loop of \<open>SCCB_Probe\<close>: the rest of the sensor table and the last address tried.\<close>

fun SCCB_Probe_loop :: "'d hw \<Rightarrow> camera_sensor_info_t list \<Rightarrow> u8 \<Rightarrow> ('d world, u8) state" where
  "SCCB_Probe_loop hw [] slave_addr = ret 0"
| "SCCB_Probe_loop hw (row # rows) slave_addr =
     (if slave_addr = ci_sccb_addr row then SCCB_Probe_loop hw rows slave_addr
      else do {
        (r, _) \<leftarrow> cmd_begin hw
           [I2C_start, I2C_write_byte (addr_write (ci_sccb_addr row)) ACK_CHECK_EN,
            I2C_stop];
        if r = ESP_OK then ret (ci_sccb_addr row)
        else SCCB_Probe_loop hw rows (ci_sccb_addr row) })"

definition SCCB_Probe :: "'d hw \<Rightarrow> ('d world, u8) state" where
  "SCCB_Probe hw = SCCB_Probe_loop hw camera_sensor 0"

definition SCCB_Read :: "'d hw \<Rightarrow> u8 \<Rightarrow> u8 \<Rightarrow> ('d world, u8) state" where
  "SCCB_Read hw slv_addr reg = do {
     (r, _) \<leftarrow> cmd_begin hw
        [I2C_start, I2C_write_byte (addr_write slv_addr) ACK_CHECK_EN,
         I2C_write_byte reg ACK_CHECK_EN, I2C_stop];
     if r \<noteq> ESP_OK then ret (- 1)
     else do {
       (_, bytes) \<leftarrow> cmd_begin hw
          [I2C_start, I2C_write_byte (addr_read slv_addr) ACK_CHECK_EN,
           I2C_read_byte NACK_VAL, I2C_stop];
       ret (read_into 0 bytes 0) } }"

definition SCCB_Write :: "'d hw \<Rightarrow> u8 \<Rightarrow> u8 \<Rightarrow> u8 \<Rightarrow> ('d world, int) state" where
  "SCCB_Write hw slv_addr reg data = do {
     (r, _) \<leftarrow> cmd_begin hw
        [I2C_start, I2C_write_byte (addr_write slv_addr) ACK_CHECK_EN,
         I2C_write_byte reg ACK_CHECK_EN, I2C_write_byte data ACK_CHECK_EN, I2C_stop];
     ret (if r = ESP_OK then 0 else - 1) }"

definition SCCB_Read16 :: "'d hw \<Rightarrow> u8 \<Rightarrow> u16 \<Rightarrow> ('d world, u8) state" where
  "SCCB_Read16 hw slv_addr reg = (let reg_htons = LITTLETOBIG reg in do {
     (r, _) \<leftarrow> cmd_begin hw
        [I2C_start, I2C_write_byte (addr_write slv_addr) ACK_CHECK_EN,
         I2C_write_byte (le_byte0 reg_htons) ACK_CHECK_EN,
         I2C_write_byte (le_byte1 reg_htons) ACK_CHECK_EN, I2C_stop];
     if r \<noteq> ESP_OK then ret (- 1)
     else do {
       (_, bytes) \<leftarrow> cmd_begin hw
          [I2C_start, I2C_write_byte (addr_read slv_addr) ACK_CHECK_EN,
           I2C_read_byte NACK_VAL, I2C_stop];
       ret (read_into 0 bytes 0) } })"

definition SCCB_Write16 :: "'d hw \<Rightarrow> u8 \<Rightarrow> u16 \<Rightarrow> u8 \<Rightarrow> ('d world, int) state" where
  "SCCB_Write16 hw slv_addr reg data = (let reg_htons = LITTLETOBIG reg in do {
     (r, _) \<leftarrow> cmd_begin hw
        [I2C_start, I2C_write_byte (addr_write slv_addr) ACK_CHECK_EN,
         I2C_write_byte (le_byte0 reg_htons) ACK_CHECK_EN,
         I2C_write_byte (le_byte1 reg_htons) ACK_CHECK_EN,
         I2C_write_byte data ACK_CHECK_EN, I2C_stop];
     when_m (r \<noteq> ESP_OK) (modify (\<lambda>w. w\<lparr>sccb_write16_i := sccb_write16_i w + 1\<rparr>));
     ret (if r = ESP_OK then 0 else - 1) })"

definition SCCB_Read_Addr16_Val16 :: "'d hw \<Rightarrow> u8 \<Rightarrow> u16 \<Rightarrow> ('d world, u16) state" where
  "SCCB_Read_Addr16_Val16 hw slv_addr reg = (let reg_htons = LITTLETOBIG reg in do {
     (r, _) \<leftarrow> cmd_begin hw
        [I2C_start, I2C_write_byte (addr_write slv_addr) ACK_CHECK_EN,
         I2C_write_byte (le_byte0 reg_htons) ACK_CHECK_EN,
         I2C_write_byte (le_byte1 reg_htons) ACK_CHECK_EN, I2C_stop];
     if r \<noteq> ESP_OK then ret (- 1)
     else do {
       (_, bytes) \<leftarrow> cmd_begin hw
          [I2C_start, I2C_write_byte (addr_read slv_addr) ACK_CHECK_EN,
           I2C_read_byte ACK_VAL, I2C_read_byte NACK_VAL, I2C_stop];
       ret (push_bit 8 (ucast (read_into 0 bytes 0)) OR ucast (read_into 0 bytes 1)) } })"

definition SCCB_Write_Addr16_Val16 :: "'d hw \<Rightarrow> u8 \<Rightarrow> u16 \<Rightarrow> u16 \<Rightarrow> ('d world, int) state" where
  "SCCB_Write_Addr16_Val16 hw slv_addr reg data =
     (let reg_htons = LITTLETOBIG reg; data_htons = LITTLETOBIG data in do {
     (r, _) \<leftarrow> cmd_begin hw
        [I2C_start, I2C_write_byte (addr_write slv_addr) ACK_CHECK_EN,
         I2C_write_byte (le_byte0 reg_htons) ACK_CHECK_EN,
         I2C_write_byte (le_byte1 reg_htons) ACK_CHECK_EN,
         I2C_write_byte (le_byte0 data_htons) ACK_CHECK_EN,
         I2C_write_byte (le_byte1 data_htons) ACK_CHECK_EN, I2C_stop];
     ret (if r = ESP_OK then 0 else - 1) })"

subsection \<open>What the bus routines leave alone, whatever the hardware does\<close>

lemmas sccb_defs = SCCB_Read_def SCCB_Write_def SCCB_Read16_def SCCB_Write16_def
  SCCB_Read_Addr16_Val16_def SCCB_Write_Addr16_Val16_def SCCB_Probe_def

lemma run_state_cmd_begin [simp]:
  "run_state (cmd_begin hw cmd) w =
     (case i2c_master_cmd_begin hw (sccb_i2c_port w) cmd (dev w) of
        (err, bytes, d) \<Rightarrow> ((err, bytes), w\<lparr>dev := d\<rparr>))"
  by (simp add: cmd_begin_def)

lemma run_state_delay_ms [simp]:
  "run_state (delay_ms hw ms) w = ((), w\<lparr>dev := vTaskDelay_ms hw ms (dev w)\<rparr>)"
  by (simp add: delay_ms_def)

text \<open>
  A bus routine changes the hardware and at most the failure counter: any observation of the
  world that ignores these two is kept.
\<close>

lemma keeps_bus:
  assumes "\<And>w d. f (w\<lparr>dev := d\<rparr>) = f w" and "\<And>w i. f (w\<lparr>sccb_write16_i := i\<rparr>) = f w"
  shows "keeps f (SCCB_Read hw a r8)" "keeps f (SCCB_Write hw a r8 v8)"
    "keeps f (SCCB_Read16 hw a r)" "keeps f (SCCB_Write16 hw a r v8)"
    "keeps f (SCCB_Read_Addr16_Val16 hw a r)" "keeps f (SCCB_Write_Addr16_Val16 hw a r v)"
    "keeps f (delay_ms hw ms)"
  by (rule keepsI; auto simp: sccb_defs assms Let_def split: prod.splits if_splits)+

lemma sensor_frame:
  "sensor (w\<lparr>dev := d\<rparr>) = sensor w" "sensor (w\<lparr>sccb_write16_i := i\<rparr>) = sensor w"
  by simp_all

lemma port_frame:
  "sccb_i2c_port (w\<lparr>dev := d\<rparr>) = sccb_i2c_port w"
  "sccb_i2c_port (w\<lparr>sccb_write16_i := i\<rparr>) = sccb_i2c_port w"
  by simp_all

lemma keeps_access [keeps_rules]: "keeps f slv_addr_m" "keeps f status_m"
  by (simp_all add: slv_addr_m_def status_m_def keeps_gets)

lemmas keeps_bus_sensor [keeps_rules] = keeps_bus [where f = sensor, OF sensor_frame]
lemmas keeps_bus_port [keeps_rules] = keeps_bus [where f = sccb_i2c_port, OF port_frame]

text \<open>
  Demonic rules: a write either succeeds with 0 or fails with -1, a read delivers any byte;
  the hardware afterwards is arbitrary.
\<close>

lemma wp_SCCB_Write [wp_rules]:
  assumes "\<And>d. Q 0 (w\<lparr>dev := d\<rparr>)" and "\<And>d. Q (- 1) (w\<lparr>dev := d\<rparr>)"
  shows "wp (SCCB_Write hw a r v) Q w"
  using assms by (auto simp: wp_def SCCB_Write_def split: prod.split)

lemma wp_SCCB_Write16 [wp_rules]:
  assumes "\<And>d. Q 0 (w\<lparr>dev := d\<rparr>)" and "\<And>d i. Q (- 1) (w\<lparr>dev := d, sccb_write16_i := i\<rparr>)"
  shows "wp (SCCB_Write16 hw a r v) Q w"
  using assms by (auto simp: wp_def SCCB_Write16_def Let_def split: prod.split)

lemma wp_SCCB_Read [wp_rules]:
  assumes "\<And>b d. Q b (w\<lparr>dev := d\<rparr>)"
  shows "wp (SCCB_Read hw a r) Q w"
  using assms by (auto simp: wp_def SCCB_Read_def split: prod.split)

lemma wp_SCCB_Read16 [wp_rules]:
  assumes "\<And>b d. Q b (w\<lparr>dev := d\<rparr>)"
  shows "wp (SCCB_Read16 hw a r) Q w"
  using assms by (auto simp: wp_def SCCB_Read16_def Let_def split: prod.split)

lemma wp_delay_ms [simp]: "wp (delay_ms hw ms) Q w \<longleftrightarrow> Q () (w\<lparr>dev := vTaskDelay_ms hw ms (dev w)\<rparr>)"
  by (simp add: wp_def)

subsection \<open>Setters that commit on success\<close>

text \<open>
  \<open>commits f m\<close>: \<open>m\<close> updates the sensor structure by \<open>f\<close> when it returns 0 and leaves it
  exactly as it was otherwise, whatever the bus does. It is the contract of the sensor
  drivers' setters.
\<close>

definition on_status :: "(camera_status_t \<Rightarrow> camera_status_t) \<Rightarrow> sensor_t \<Rightarrow> sensor_t" where
  "on_status f s = s\<lparr>s_status := f (s_status s)\<rparr>"

lemma on_status_on_status: "on_status f (on_status g s) = on_status (\<lambda>st. f (g st)) s"
  by (simp add: on_status_def)

definition commits :: "(sensor_t \<Rightarrow> sensor_t) \<Rightarrow> ('d world, int) state \<Rightarrow> bool" where
  "commits f m \<longleftrightarrow> (\<forall>w r w'. run_state m w = (r, w') \<longrightarrow>
     sensor w' = (if r = 0 then f (sensor w) else sensor w))"

lemma commitsD:
  "commits f m \<Longrightarrow> run_state m w = (r, w') \<Longrightarrow> sensor w' = (if r = 0 then f (sensor w) else sensor w)"
  by (simp add: commits_def)

lemma commits_keeps: "keeps sensor m \<Longrightarrow> commits (\<lambda>s. s) m"
  by (auto simp: commits_def dest: keepsD)

lemma commits_fail [keeps_rules]: "x \<noteq> 0 \<Longrightarrow> commits f (ret x)"
  by (simp add: commits_def)

lemma commits_if [keeps_rules]:
  "(b \<Longrightarrow> commits f m) \<Longrightarrow> (\<not> b \<Longrightarrow> commits f k) \<Longrightarrow> commits f (if b then m else k)"
  by simp

lemma commits_slv [keeps_rules]:
  "(\<And>slv. commits f (k slv)) \<Longrightarrow> commits f (State_Monad.bind slv_addr_m k)"
  by (simp add: commits_def)

lemma commits_bind:
  "keeps sensor m \<Longrightarrow> (\<And>r. commits f (k r)) \<Longrightarrow> commits f (State_Monad.bind m k)"
  by (fastforce simp: commits_def split: prod.splits dest: keepsD)

lemma commits_or_return [keeps_rules]:
  "keeps sensor m \<Longrightarrow> commits f k \<Longrightarrow> commits f (or_return m k)"
  by (auto simp: commits_def split: prod.splits if_splits dest: keepsD)

lemma commits_sensor [keeps_rules]:
  assumes "keeps sensor m"
  shows "commits f (do { r \<leftarrow> m; when_m (r = 0) (upd_sensor f); ret r })"
  using assms by (auto simp: commits_def split: prod.splits if_splits dest: keepsD)

lemma commits_status [keeps_rules]:
  assumes "keeps sensor m"
  shows "commits (on_status f)
           (do { r \<leftarrow> m; when_m (r = 0) (upd_status f); ret r })"
  using assms by (auto simp: commits_def on_status_def split: prod.splits if_splits dest: keepsD)

subsection \<open>Byte order on the wire\<close>

lemma LITTLETOBIG_bytes [simp]:
  "le_byte0 (LITTLETOBIG x) = ucast (drop_bit 8 x)" "le_byte1 (LITTLETOBIG x) = ucast x"
  unfolding LITTLETOBIG_def le_byte0_def le_byte1_def
  by (rule bit_word_eqI; auto simp: bit_simps)+

lemma join_bytes:
  "push_bit 8 (ucast (ucast (drop_bit 8 x) :: u8)) OR ucast (ucast x :: u8) = (x :: u16)"
  by (rule bit_word_eqI) (auto simp: bit_simps)

subsection \<open>The interface a register device offers\<close>

text \<open>
  What the sensor drivers rely on of a device at address \<open>slv\<close> behind \<open>port\<close>: it
  acknowledges the three transactions the driver uses; a write transaction applies \<open>wr\<close>; a
  select transaction followed by a read transaction delivers the selected register. How
  \<open>wr\<close> acts on the registers is left to the sensor's own interface.
\<close>

locale sccb_dev8 =
  fixes hw :: "'d hw" and port :: int and slv :: u8
    and reg :: "'d \<Rightarrow> u8 \<Rightarrow> u8" and wr :: "u8 \<Rightarrow> u8 \<Rightarrow> 'd \<Rightarrow> 'd"
    and sel :: "u8 \<Rightarrow> 'd \<Rightarrow> 'd" and after_read :: "u8 \<Rightarrow> 'd \<Rightarrow> 'd"
  assumes write_ack: "i2c_master_cmd_begin hw port
      [I2C_start, I2C_write_byte (addr_write slv) True, I2C_write_byte r True,
       I2C_write_byte v True, I2C_stop] d = (ESP_OK, [], wr r v d)"
    and select_ack: "i2c_master_cmd_begin hw port
      [I2C_start, I2C_write_byte (addr_write slv) True, I2C_write_byte r True, I2C_stop] d =
      (ESP_OK, [], sel r d)"
    and read_ack: "i2c_master_cmd_begin hw port
      [I2C_start, I2C_write_byte (addr_read slv) True, I2C_read_byte True, I2C_stop]
      (sel r d) = (ESP_OK, [reg d r], after_read r d)"
begin

lemma run_SCCB_Write:
  "sccb_i2c_port w = port \<Longrightarrow>
   run_state (SCCB_Write hw slv r v) w = (0, w\<lparr>dev := wr r v (dev w)\<rparr>)"
  by (simp add: SCCB_Write_def write_ack)

lemma run_SCCB_Read:
  "sccb_i2c_port w = port \<Longrightarrow>
   run_state (SCCB_Read hw slv r) w = (reg (dev w) r, w\<lparr>dev := after_read r (dev w)\<rparr>)"
  by (simp add: SCCB_Read_def select_ack read_ack read_into_def)

end

locale sccb_dev16 =
  fixes hw :: "'d hw" and port :: int and slv :: u8
    and reg :: "'d \<Rightarrow> u16 \<Rightarrow> u8" and wr :: "u16 \<Rightarrow> u8 \<Rightarrow> 'd \<Rightarrow> 'd"
    and sel :: "u16 \<Rightarrow> 'd \<Rightarrow> 'd" and after_read :: "u16 \<Rightarrow> 'd \<Rightarrow> 'd"
  assumes write_ack: "i2c_master_cmd_begin hw port
      [I2C_start, I2C_write_byte (addr_write slv) True, I2C_write_byte (ucast (drop_bit 8 r)) True,
       I2C_write_byte (ucast r) True, I2C_write_byte v True, I2C_stop] d = (ESP_OK, [], wr r v d)"
    and select_ack: "i2c_master_cmd_begin hw port
      [I2C_start, I2C_write_byte (addr_write slv) True, I2C_write_byte (ucast (drop_bit 8 r)) True,
       I2C_write_byte (ucast r) True, I2C_stop] d = (ESP_OK, [], sel r d)"
    and read_ack: "i2c_master_cmd_begin hw port
      [I2C_start, I2C_write_byte (addr_read slv) True, I2C_read_byte True, I2C_stop]
      (sel r d) = (ESP_OK, [reg d r], after_read r d)"
begin

lemma run_SCCB_Write16:
  "sccb_i2c_port w = port \<Longrightarrow>
   run_state (SCCB_Write16 hw slv r v) w = (0, w\<lparr>dev := wr r v (dev w)\<rparr>)"
  by (simp add: SCCB_Write16_def write_ack)

lemma run_SCCB_Read16:
  "sccb_i2c_port w = port \<Longrightarrow>
   run_state (SCCB_Read16 hw slv r) w = (reg (dev w) r, w\<lparr>dev := after_read r (dev w)\<rparr>)"
  by (simp add: SCCB_Read16_def select_ack read_ack read_into_def)

end

subsection \<open>Register files\<close>

text \<open>
  A driver seen as acting on a register file. \<open>ok v s R\<close> relates a world to the sensor structure
  \<open>s\<close> and an abstract register file \<open>R\<close> it stands for. \<open>sim m s R x s' R'\<close>: on every world that
  stands for \<open>s\<close> and \<open>R\<close>, \<open>m\<close> returns \<open>x\<close> and ends in a world that stands for \<open>s'\<close> and \<open>R'\<close>. The
  rules follow the structure of the drivers' programs.
\<close>

locale reg_view =
  fixes slv :: u8 and ok :: "'d world \<Rightarrow> sensor_t \<Rightarrow> 'r \<Rightarrow> bool"
  assumes ok_sensor: "ok v s R \<Longrightarrow> sensor v = s"
    and ok_slv: "ok v s R \<Longrightarrow> s_slv_addr s = slv"
    and ok_update: "ok v s R \<Longrightarrow> s_slv_addr s' = slv \<Longrightarrow> ok (v\<lparr>sensor := s'\<rparr>) s' R"
begin

definition sim :: "('d world, 'a) state \<Rightarrow> sensor_t \<Rightarrow> 'r \<Rightarrow> 'a \<Rightarrow> sensor_t \<Rightarrow> 'r \<Rightarrow> bool" where
  "sim m s R x s' R' \<longleftrightarrow> (\<forall>v. ok v s R \<longrightarrow> (\<exists>v'. run_state m v = (x, v') \<and> ok v' s' R'))"

lemma simI:
  assumes "\<And>v. ok v s R \<Longrightarrow> \<exists>v'. run_state m v = (x, v') \<and> ok v' s' R'"
  shows "sim m s R x s' R'"
  using assms by (simp add: sim_def)

lemma simD: "sim m s R x s' R' \<Longrightarrow> ok v s R \<Longrightarrow> run_state m v = (r, v') \<Longrightarrow> r = x \<and> ok v' s' R'"
  by (auto simp: sim_def)

lemma sim_slvI: "(s_slv_addr s = slv \<Longrightarrow> sim m s R x s' R') \<Longrightarrow> sim m s R x s' R'"
  using ok_slv by (auto simp: sim_def)

lemma sim_conv: "sim m s R x s' R' \<Longrightarrow> x = y \<Longrightarrow> s' = s'' \<Longrightarrow> R' = R'' \<Longrightarrow> sim m s R y s'' R''"
  by simp

lemma sim_return [sim_rules]: "sim (ret x) s R x s R"
  by (simp add: sim_def)

lemma sim_bind [sim_rules]:
  "sim m s R x s1 R1 \<Longrightarrow> sim (k x) s1 R1 y s2 R2 \<Longrightarrow> sim (State_Monad.bind m k) s R y s2 R2"
  unfolding sim_def by fastforce

lemma sim_or_return [sim_rules]:
  "sim m s R 0 s1 R1 \<Longrightarrow> sim k s1 R1 x s2 R2 \<Longrightarrow> sim (or_return m k) s R x s2 R2"
  unfolding or_return_def by (rule sim_bind, assumption, simp)

lemma sim_c_or [sim_rules]:
  "sim m s R 0 s1 R1 \<Longrightarrow> sim k s1 R1 0 s2 R2 \<Longrightarrow> sim (c_or m k) s R 0 s2 R2"
  unfolding c_or_def by (rule sim_bind, assumption, simp, rule sim_bind, assumption) (simp add: sim_return)

lemma sim_when [sim_rules]: "sim m s R () s1 R1 \<Longrightarrow> b \<Longrightarrow> sim (when_m b m) s R () s1 R1"
  by (simp add: when_m_def)

lemma sim_if_True: "b \<Longrightarrow> sim m s R x s1 R1 \<Longrightarrow> sim (if b then m else k) s R x s1 R1"
  by simp

lemma sim_if_False: "\<not> b \<Longrightarrow> sim k s R x s1 R1 \<Longrightarrow> sim (if b then m else k) s R x s1 R1"
  by simp

lemma sim_slv [sim_rules]: "sim slv_addr_m s R slv s R"
  by (rule simI) (use ok_sensor ok_slv in auto)

lemma sim_status [sim_rules]: "sim status_m s R (s_status s) s R"
  by (rule simI) (use ok_sensor in auto)

lemma sim_gets_sensor [sim_rules]: "sim (gets sensor) s R s s R"
  by (rule simI) (use ok_sensor in auto)

lemma sim_upd_sensor:
  assumes "s_slv_addr (f s) = s_slv_addr s"
  shows "sim (upd_sensor f) s R () (f s) R"
proof (rule simI)
  fix v assume v: "ok v s R"
  then have "ok (v\<lparr>sensor := f s\<rparr>) (f s) R"
    using assms ok_slv [OF v] by (intro ok_update) simp_all
  then show "\<exists>v'. run_state (upd_sensor f) v = ((), v') \<and> ok v' (f s) R"
    using ok_sensor [OF v] by simp
qed

lemma sim_upd_status [sim_rules]: "sim (upd_status f) s R () (on_status f s) R"
  using sim_upd_sensor [of "on_status f" s R]
  by (simp add: sim_def on_status_def)

text \<open>Running one operation after another from a world that stands for \<open>s\<close> and \<open>R\<close>.\<close>

lemma sim_then:
  assumes "ok v s R" "sim m s R x s1 R1" "sim k s1 R1 y s2 R2" "run_state m v = (r, v')"
  shows "r = x \<and> fst (run_state k v') = y \<and> sensor (snd (run_state k v')) = s2"
proof -
  have "r = x" and v': "ok v' s1 R1"
    using simD [OF assms(2,1,4)] by simp_all
  moreover have "fst (run_state k v') = y \<and> ok (snd (run_state k v')) s2 R2"
    using simD [OF assms(3) v', of "fst (run_state k v')" "snd (run_state k v')"] by simp
  ultimately show ?thesis using ok_sensor by blast
qed

end

text \<open>
  A sensor of 16-bit register addresses. \<open>plain r\<close>: the sensor keeps what is written to register
  \<open>r\<close> until it is written again, and accesses to other plain registers and the passing of time
  do not disturb it. (A software reset bit is not such a register, and exposure registers are
  not while the automatic control runs.)
\<close>

locale reg_dev16 = sccb_dev16 hw port slv reg wr sel after_read
  for hw :: "'d hw" and port slv reg wr sel after_read +
  fixes plain :: "u16 \<Rightarrow> bool"
  assumes reg_wr: "plain r \<Longrightarrow> plain r' \<Longrightarrow> reg (wr r v d) r' = (if r' = r then v else reg d r')"
    and reg_after_read: "plain r \<Longrightarrow> plain r' \<Longrightarrow> reg (after_read r d) r' = reg d r'"
    and reg_delay: "plain r \<Longrightarrow> reg (vTaskDelay_ms hw ms d) r = reg d r"
begin

definition stands :: "'d world \<Rightarrow> sensor_t \<Rightarrow> (u16 \<Rightarrow> u8) \<Rightarrow> bool" where
  "stands v s R \<longleftrightarrow> sccb_i2c_port v = port \<and> sensor v = s \<and> s_slv_addr s = slv \<and>
     (\<forall>r. plain r \<longrightarrow> reg (dev v) r = R r)"

lemma standsI:
  "sccb_i2c_port v = port \<Longrightarrow> s_slv_addr (sensor v) = slv \<Longrightarrow> stands v (sensor v) (reg (dev v))"
  by (simp add: stands_def)

lemma stands_reg: "stands v s R \<Longrightarrow> plain r \<Longrightarrow> reg (dev v) r = R r"
  by (simp add: stands_def)

end

sublocale reg_dev16 < reg_view slv stands
  by unfold_locales (auto simp: stands_def)

context reg_dev16
begin

lemmas axioms_view = reg_view_axioms

lemma sim_write16 [sim_rules]: "plain r \<Longrightarrow> sim (SCCB_Write16 hw slv r v) s R 0 s (R(r := v))"
  by (rule simI) (auto simp: stands_def run_SCCB_Write16 reg_wr)

lemma sim_read16 [sim_rules]: "plain r \<Longrightarrow> sim (SCCB_Read16 hw slv r) s R (R r) s R"
  by (rule simI) (auto simp: stands_def run_SCCB_Read16 reg_after_read)

lemma sim_delay [sim_rules]: "sim (delay_ms hw ms) s R () s R"
  by (rule simI) (auto simp: stands_def reg_delay)

end

subsection \<open>Simulated buses\<close>

text \<open>
  Concrete hardware for the interpretations and for runs: \<open>sim_hw\<close> answers a transaction
  from the bytes written and the number of bytes read; \<open>flaky_hw\<close> acknowledges according to
  a script, one entry per transaction, and delivers zero bytes.
\<close>

definition written :: "i2c_cmd list \<Rightarrow> u8 list" where
  "written cmd = concat (map (\<lambda>c. case c of I2C_write_byte b _ \<Rightarrow> [b] | _ \<Rightarrow> []) cmd)"

definition reads :: "i2c_cmd list \<Rightarrow> nat" where
  "reads cmd = length (filter (\<lambda>c. case c of I2C_read_byte _ \<Rightarrow> True | _ \<Rightarrow> False) cmd)"

definition sim_hw :: "(u8 list \<Rightarrow> nat \<Rightarrow> 'd \<Rightarrow> esp_err_t \<times> u8 list \<times> 'd) \<Rightarrow> 'd hw" where
  "sim_hw respond = \<lparr>
     i2c_param_config = (\<lambda>_ _ d. (ESP_OK, d)), i2c_driver_install = (\<lambda>_ d. (ESP_OK, d)),
     i2c_driver_delete = (\<lambda>_ d. (ESP_OK, d)),
     i2c_master_cmd_begin = (\<lambda>_ cmd d. respond (written cmd) (reads cmd) d),
     vTaskDelay_ms = (\<lambda>_ d. d), xclk_timer_conf = (\<lambda>_ _ d. (ESP_OK, d)),
     gpio_config_output = (\<lambda>_ d. d), gpio_set_level = (\<lambda>_ _ d. d)\<rparr>"

definition flaky_hw :: "bool list hw" where
  "flaky_hw = sim_hw (\<lambda>_ n d. case d of [] \<Rightarrow> (ESP_OK, replicate n 0, [])
     | ok # d' \<Rightarrow> (if ok then (ESP_OK, replicate n 0, d') else (ESP_FAIL, [], d')))"

lemma written_simps [simp]:
  "written [] = []" "written (I2C_start # c) = written c" "written (I2C_stop # c) = written c"
  "written (I2C_write_byte b k # c) = b # written c" "written (I2C_read_byte k # c) = written c"
  by (simp_all add: written_def)

lemma reads_simps [simp]:
  "reads [] = 0" "reads (I2C_start # c) = reads c" "reads (I2C_stop # c) = reads c"
  "reads (I2C_write_byte b k # c) = reads c" "reads (I2C_read_byte k # c) = Suc (reads c)"
  by (simp_all add: reads_def)

lemma sim_hw_simps [simp]:
  "i2c_master_cmd_begin (sim_hw respond) p cmd d = respond (written cmd) (reads cmd) d"
  "vTaskDelay_ms (sim_hw respond) ms d = d"
  "xclk_timer_conf (sim_hw respond) t f d = (ESP_OK, d)"
  by (simp_all add: sim_hw_def)

text \<open>A device of 8-bit registers at 8-bit addresses, and one at 16-bit addresses.\<close>

record 'a reg_dev =
  rd_sel :: 'a
  rd_regs :: "'a \<Rightarrow> u8"

definition sim_dev8 :: "u8 \<Rightarrow> u8 reg_dev hw" where
  "sim_dev8 slv = sim_hw (\<lambda>bs n d.
     if n = 1 \<and> bs = [addr_read slv] then (ESP_OK, [rd_regs d (rd_sel d)], d)
     else case bs of
       [a, r, v] \<Rightarrow> (if a = addr_write slv then (ESP_OK, [], d\<lparr>rd_regs := (rd_regs d)(r := v)\<rparr>)
                     else (ESP_FAIL, [], d))
     | [a, r] \<Rightarrow> (if a = addr_write slv then (ESP_OK, [], d\<lparr>rd_sel := r\<rparr>) else (ESP_FAIL, [], d))
     | [a] \<Rightarrow> ((if a = addr_write slv then ESP_OK else ESP_FAIL), [], d)
     | _ \<Rightarrow> (ESP_FAIL, [], d))"

definition sim_dev16 :: "u8 \<Rightarrow> u16 reg_dev hw" where
  "sim_dev16 slv = sim_hw (\<lambda>bs n d.
     if n = 1 \<and> bs = [addr_read slv] then (ESP_OK, [rd_regs d (rd_sel d)], d)
     else case bs of
       [a, h, l, v] \<Rightarrow> (if a = addr_write slv
          then (ESP_OK, [], d\<lparr>rd_regs := (rd_regs d)(push_bit 8 (ucast h) OR ucast l := v)\<rparr>)
          else (ESP_FAIL, [], d))
     | [a, h, l] \<Rightarrow> (if a = addr_write slv
          then (ESP_OK, [], d\<lparr>rd_sel := push_bit 8 (ucast h) OR ucast l\<rparr>) else (ESP_FAIL, [], d))
     | [a] \<Rightarrow> ((if a = addr_write slv then ESP_OK else ESP_FAIL), [], d)
     | _ \<Rightarrow> (ESP_FAIL, [], d))"

interpretation sim8: sccb_dev8 "sim_dev8 slv" p slv rd_regs
  "\<lambda>r v d. d\<lparr>rd_regs := (rd_regs d)(r := v)\<rparr>" "\<lambda>r d. d\<lparr>rd_sel := r\<rparr>" "\<lambda>r d. d\<lparr>rd_sel := r\<rparr>"
  for slv p
  by unfold_locales (simp_all add: sim_dev8_def)

interpretation sim16: sccb_dev16 "sim_dev16 slv" p slv rd_regs
  "\<lambda>r v d. d\<lparr>rd_regs := (rd_regs d)(r := v)\<rparr>" "\<lambda>r d. d\<lparr>rd_sel := r\<rparr>" "\<lambda>r d. d\<lparr>rd_sel := r\<rparr>"
  for slv p
  by unfold_locales (simp_all add: sim_dev16_def join_bytes)

interpretation sim16r: reg_dev16 "sim_dev16 slv" p slv rd_regs
  "\<lambda>r v d. d\<lparr>rd_regs := (rd_regs d)(r := v)\<rparr>" "\<lambda>r d. d\<lparr>rd_sel := r\<rparr>" "\<lambda>r d. d\<lparr>rd_sel := r\<rparr>"
  "\<lambda>_. True" for slv p
  by unfold_locales (simp_all add: sim_dev16_def)

subsection \<open>Properties of the bus driver\<close>

text \<open>
  A 16-bit register value survives the trip over the wire: on any device that keeps the
  two data bytes of a write and returns them in the order they were sent,
  \<open>SCCB_Read_Addr16_Val16\<close> reads back exactly what \<open>SCCB_Write_Addr16_Val16\<close> wrote, at the
  same 16-bit address. The byte swaps of both directions (\<open>LITTLETOBIG\<close>, \<open>data_u8[1]\<close> first)
  have to agree for this to hold.
\<close>

theorem SCCB_val16_roundtrip:
  fixes hw :: "'d hw"
  assumes wr: "\<And>h l x y d. i2c_master_cmd_begin hw port
      [I2C_start, I2C_write_byte (addr_write slv) True, I2C_write_byte h True,
       I2C_write_byte l True, I2C_write_byte x True, I2C_write_byte y True, I2C_stop] d =
      (ESP_OK, [], store h l x y d)"
    and sel: "\<And>h l d. i2c_master_cmd_begin hw port
      [I2C_start, I2C_write_byte (addr_write slv) True, I2C_write_byte h True,
       I2C_write_byte l True, I2C_stop] d = (ESP_OK, [], select h l d)"
    and rd: "\<And>h l x y d. i2c_master_cmd_begin hw port
      [I2C_start, I2C_write_byte (addr_read slv) True, I2C_read_byte False,
       I2C_read_byte True, I2C_stop] (select h l (store h l x y d)) = (ESP_OK, [x, y], d')"
    and port: "sccb_i2c_port w = port"
    and run: "run_state (SCCB_Write_Addr16_Val16 hw slv r v) w = (e, w')"
  shows "e = 0 \<and> fst (run_state (SCCB_Read_Addr16_Val16 hw slv r) w') = v"
proof -
  have w': "w' = w\<lparr>dev := store (ucast (drop_bit 8 r)) (ucast r) (ucast (drop_bit 8 v)) (ucast v) (dev w)\<rparr>"
    and e: "e = 0"
    using run by (simp_all add: SCCB_Write_Addr16_Val16_def Let_def wr port)
  show ?thesis
    unfolding w' using e
    by (simp add: SCCB_Read_Addr16_Val16_def Let_def sel rd port read_into_def join_bytes)
qed

text \<open>The device of the witness keeps one 16-bit cell.\<close>

definition cell_dev :: "u8 \<Rightarrow> (u8 \<times> u8) hw" where
  "cell_dev slv = sim_hw (\<lambda>bs n d.
     if n = 2 then (ESP_OK, [fst d, snd d], (0, 0))
     else case bs of [a, h, l, x, y] \<Rightarrow> (ESP_OK, [], (x, y)) | _ \<Rightarrow> (ESP_OK, [], d))"

definition world0 :: "'d \<Rightarrow> 'd world" where
  "world0 d = \<lparr>sccb_i2c_port = 1, sccb_owns_i2c_port = True, sccb_write16_i = 0, reg_bank = 2,
     sensor = \<lparr>s_id = \<lparr>id_MIDH = 0, id_MIDL = 0, id_PID = 0, id_VER = 0\<rparr>, s_slv_addr = 0x3c,
       s_pixformat = PIXFORMAT_JPEG,
       s_status = \<lparr>st_framesize = FRAMESIZE_UXGA, st_scale = False, st_binning = False,
         st_quality = 0, st_brightness = 0, st_contrast = 0, st_saturation = 0, st_sharpness = 0,
         st_denoise = 0, st_special_effect = 0, st_wb_mode = 0, st_awb = 0, st_awb_gain = 0,
         st_aec = 0, st_aec2 = 0, st_ae_level = 0, st_aec_value = 0, st_agc = 0, st_agc_gain = 0,
         st_gainceiling = 0, st_bpc = 0, st_wpc = 0, st_raw_gma = 0, st_lenc = 0, st_hmirror = 0,
         st_vflip = 0, st_dcw = 0, st_colorbar = 0\<rparr>,
       s_xclk_freq_hz = 16000000, s_driver = No_driver\<rparr>,
     dev = d\<rparr>"

theorem SCCB_val16_roundtrip_witness:
  "fst (run_state (SCCB_Read_Addr16_Val16 (cell_dev 0x3c) 0x3c 0x1234)
     (snd (run_state (SCCB_Write_Addr16_Val16 (cell_dev 0x3c) 0x3c 0x1234 0xBEEF) (world0 (0, 0))))) = 0xBEEF"
proof -
  obtain e w' where run:
    "run_state (SCCB_Write_Addr16_Val16 (cell_dev 0x3c) 0x3c 0x1234 0xBEEF) (world0 (0, 0)) = (e, w')"
    by fastforce
  show ?thesis
    using SCCB_val16_roundtrip [where store = "\<lambda>h l x y d. (x, y)" and select = "\<lambda>h l d. d"
        and port = 1 and d' = "(0, 0)", OF _ _ _ _ run] run
    by (simp add: cell_dev_def world0_def)
qed

text \<open>
  C23. \<open>SCCB_Probe\<close> finds the first address of the sensor table that is acknowledged: if
  whether a device answers an address probe does not change during the scan, the result is
  the first acknowledged address in table order, or 0 when no supported sensor answers (no
  table row has address 0, so 0 is never mistaken for a sensor).
\<close>

theorem SCCB_Probe_first_acknowledged:
  assumes "\<And>a. i2c_master_cmd_begin hw (sccb_i2c_port w)
      [I2C_start, I2C_write_byte (addr_write a) True, I2C_stop] (dev w) =
      (if acks a then ESP_OK else ESP_FAIL, [], dev w)"
  shows "run_state (SCCB_Probe hw) w =
     ((case find acks (map ci_sccb_addr camera_sensor) of Some a \<Rightarrow> a | None \<Rightarrow> 0), w) \<and>
     0 \<notin> set (map ci_sccb_addr camera_sensor)"
proof -
  have "run_state (SCCB_Probe_loop hw rows a) w =
     ((case find acks (map ci_sccb_addr rows) of Some b \<Rightarrow> b | None \<Rightarrow> 0), w)"
    if "a \<in> set (map ci_sccb_addr rows) \<longrightarrow> \<not> acks a" for rows a
    using that assms
  proof (induction rows arbitrary: a)
    case (Cons row rows)
    then show ?case by (cases "acks (ci_sccb_addr row)") auto
  qed simp
  moreover have "0 \<notin> set (map ci_sccb_addr camera_sensor)"
    by (simp add: camera_sensor_def)
  ultimately show ?thesis
    by (simp add: SCCB_Probe_def)
qed

theorem SCCB_Probe_first_acknowledged_witness:
  "run_state (SCCB_Probe (sim_dev16 0x3c)) (world0 \<lparr>rd_sel = 0, rd_regs = (\<lambda>_. 0)\<rparr>) =
     (0x3c, world0 \<lparr>rd_sel = 0, rd_regs = (\<lambda>_. 0)\<rparr>)"
  using SCCB_Probe_first_acknowledged
    [of "sim_dev16 0x3c" "world0 \<lparr>rd_sel = 0, rd_regs = (\<lambda>_. 0)\<rparr>"
      "\<lambda>a. addr_write a = addr_write 0x3c"]
  by (simp add: sim_dev16_def world0_def camera_sensor_def addr_write_def)

text \<open>
  C24. Port ownership: after \<open>SCCB_Deinit\<close> the driver owns no port, and a second call returns
  \<open>ESP_OK\<close> without touching the hardware; \<open>SCCB_Use_Port\<close> first gives up an owned port and
  then accepts exactly the port numbers 0 to \<open>I2C_NUM_MAX\<close>. The last of these is not a port
  (the ports are 0 to \<open>I2C_NUM_MAX - 1\<close>): the comparison is off by one.
\<close>

theorem SCCB_port_ownership:
  assumes "run_state (SCCB_Deinit hw) w = (r, w')" and "run_state (SCCB_Use_Port hw n) w = (e, w'')"
  shows "\<not> sccb_owns_i2c_port w' \<and> run_state (SCCB_Deinit hw) w' = (ESP_OK, w') \<and>
     \<not> sccb_owns_i2c_port w'' \<and> (e = ESP_OK \<longleftrightarrow> 0 \<le> n \<and> n \<le> I2C_NUM_MAX) \<and>
     (e = ESP_OK \<longrightarrow> sccb_i2c_port w'' = n)"
  using assms
  by (auto simp: SCCB_Deinit_def SCCB_Use_Port_def when_m_def split: if_splits prod.splits)

theorem SCCB_port_ownership_witness:
  "fst (run_state (SCCB_Use_Port flaky_hw 2) (world0 [])) = ESP_OK \<and> I2C_NUM_MAX = 2"
proof -
  obtain r w' e w'' where "run_state (SCCB_Deinit flaky_hw) (world0 []) = (r, w')"
    and use: "run_state (SCCB_Use_Port flaky_hw 2) (world0 []) = (e, w'')"
    by fastforce
  from SCCB_port_ownership [OF this] use show ?thesis
    by (simp add: I2C_NUM_MAX_def)
qed

end
