(* ===== verification/Ov3660.thy ===== *)
theory Ov3660
  imports Sccb
begin

text \<open>
  The OV3660 sensor driver, \<open>sensors/ov3660.c\<close> with the register numbers of
  \<open>ov3660_regs.h\<close> and the tables of \<open>ov3660_settings.h\<close>, in the order of the source
  (\<open>set_ae_level\<close> moved before \<open>reset\<close>, which calls it). Every static function is prefixed
  \<open>ov3660_\<close>; logging is left out; \<open>REG_DEBUG_ON\<close> is not defined in the source.

  \<open>ov3660_dev\<close> extends the register-device interface with what the driver assumes of the
  sensor's configuration registers.
\<close>

subsection \<open>Tables of \<open>ov3660_settings.h\<close>\<close>

definition ov3660_ratio_table :: "ratio_settings_t list" where
  "ov3660_ratio_table = [
     \<lparr>rs_max_width = 2048, rs_max_height = 1536, rs_start_x = 0, rs_start_y = 0, rs_end_x = 2079,
      rs_end_y = 1547, rs_offset_x = 16, rs_offset_y = 6, rs_total_x = 2300, rs_total_y = 1564\<rparr>,
     \<lparr>rs_max_width = 1920, rs_max_height = 1280, rs_start_x = 64, rs_start_y = 128, rs_end_x = 2015,
      rs_end_y = 1419, rs_offset_x = 16, rs_offset_y = 6, rs_total_x = 2172, rs_total_y = 1436\<rparr>,
     \<lparr>rs_max_width = 2048, rs_max_height = 1280, rs_start_x = 0, rs_start_y = 128, rs_end_x = 2079,
      rs_end_y = 1419, rs_offset_x = 16, rs_offset_y = 6, rs_total_x = 2300, rs_total_y = 1436\<rparr>,
     \<lparr>rs_max_width = 1920, rs_max_height = 1152, rs_start_x = 64, rs_start_y = 192, rs_end_x = 2015,
      rs_end_y = 1355, rs_offset_x = 16, rs_offset_y = 6, rs_total_x = 2172, rs_total_y = 1372\<rparr>,
     \<lparr>rs_max_width = 1920, rs_max_height = 1080, rs_start_x = 64, rs_start_y = 242, rs_end_x = 2015,
      rs_end_y = 1333, rs_offset_x = 16, rs_offset_y = 6, rs_total_x = 2172, rs_total_y = 1322\<rparr>,
     \<lparr>rs_max_width = 2048, rs_max_height = 880, rs_start_x = 0, rs_start_y = 328, rs_end_x = 2079,
      rs_end_y = 1219, rs_offset_x = 16, rs_offset_y = 6, rs_total_x = 2300, rs_total_y = 1236\<rparr>,
     \<lparr>rs_max_width = 1920, rs_max_height = 1536, rs_start_x = 64, rs_start_y = 0, rs_end_x = 2015,
      rs_end_y = 1547, rs_offset_x = 16, rs_offset_y = 6, rs_total_x = 2172, rs_total_y = 1564\<rparr>,
     \<lparr>rs_max_width = 1536, rs_max_height = 1536, rs_start_x = 256, rs_start_y = 0, rs_end_x = 1823,
      rs_end_y = 1547, rs_offset_x = 16, rs_offset_y = 6, rs_total_x = 2044, rs_total_y = 1564\<rparr>,
     \<lparr>rs_max_width = 864, rs_max_height = 1536, rs_start_x = 592, rs_start_y = 0, rs_end_x = 1487,
      rs_end_y = 1547, rs_offset_x = 16, rs_offset_y = 6, rs_total_x = 2044, rs_total_y = 1564\<rparr>]"

abbreviation (input) REG_DLY :: u16 where "REG_DLY \<equiv> 0xffff"
abbreviation (input) REGLIST_TAIL :: u16 where "REGLIST_TAIL \<equiv> 0x0000"

definition ov3660_sensor_default_regs :: "(u16 \<times> u16) list" where
  "ov3660_sensor_default_regs = [
     (0x3008, 0x82), (0xffff, 0x0a), (0x3103, 0x13), (0x3008, 0x42), (0x3017, 0xff), (0x3018, 0xff),
     (0x302c, 0xc3), (0x4740, 0x21), (0x3611, 0x01), (0x3612, 0x2d), (0x3032, 0x00), (0x3614, 0x80),
     (0x3618, 0x00), (0x3619, 0x75), (0x3622, 0x80), (0x3623, 0x00), (0x3624, 0x03), (0x3630, 0x52),
     (0x3632, 0x07), (0x3633, 0xd2), (0x3704, 0x80), (0x3708, 0x66), (0x3709, 0x12), (0x370b, 0x12),
     (0x3717, 0x00), (0x371b, 0x60), (0x371c, 0x00), (0x3901, 0x13), (0x3600, 0x08), (0x3620, 0x43),
     (0x3702, 0x20), (0x3739, 0x48), (0x3730, 0x20), (0x370c, 0x0c), (0x3a18, 0x00), (0x3a19, 0xf8),
     (0x3000, 0x10), (0x3004, 0xef), (0x6700, 0x05), (0x6701, 0x19), (0x6702, 0xfd), (0x6703, 0xd1),
     (0x6704, 0xff), (0x6705, 0xff), (0x3c01, 0x80), (0x3c00, 0x04), (0x3a08, 0x00), (0x3a09, 0x62),
     (0x3a0e, 0x08), (0x3a0a, 0x00), (0x3a0b, 0x52), (0x3a0d, 0x09), (0x3a00, 0x3a), (0x3a14, 0x09),
     (0x3a15, 0x30), (0x3a02, 0x09), (0x3a03, 0x30), (0x440e, 0x08), (0x4520, 0x0b), (0x460b, 0x37),
     (0x4713, 0x02), (0x471c, 0xd0), (0x5086, 0x00), (0x5002, 0x00), (0x501f, 0x00), (0x3008, 0x02),
     (0x5180, 0xff), (0x5181, 0xf2), (0x5182, 0x00), (0x5183, 0x14), (0x5184, 0x25), (0x5185, 0x24),
     (0x5186, 0x16), (0x5187, 0x16), (0x5188, 0x16), (0x5189, 0x68), (0x518a, 0x60), (0x518b, 0xe0),
     (0x518c, 0xb2), (0x518d, 0x42), (0x518e, 0x35), (0x518f, 0x56), (0x5190, 0x56), (0x5191, 0xf8),
     (0x5192, 0x04), (0x5193, 0x70), (0x5194, 0xf0), (0x5195, 0xf0), (0x5196, 0x03), (0x5197, 0x01),
     (0x5198, 0x04), (0x5199, 0x12), (0x519a, 0x04), (0x519b, 0x00), (0x519c, 0x06), (0x519d, 0x82),
     (0x519e, 0x38), (0x5381, 0x1d), (0x5382, 0x60), (0x5383, 0x03), (0x5384, 0x0c), (0x5385, 0x78),
     (0x5386, 0x84), (0x5387, 0x7d), (0x5388, 0x6b), (0x5389, 0x12), (0x538a, 0x01), (0x538b, 0x98),
     (0x5480, 0x01), (0x5000, 0xa7), (0x5800, 0x0c), (0x5801, 0x09), (0x5802, 0x0c), (0x5803, 0x0c),
     (0x5804, 0x0d), (0x5805, 0x17), (0x5806, 0x06), (0x5807, 0x05), (0x5808, 0x04), (0x5809, 0x06),
     (0x580a, 0x09), (0x580b, 0x0e), (0x580c, 0x05), (0x580d, 0x01), (0x580e, 0x01), (0x580f, 0x01),
     (0x5810, 0x05), (0x5811, 0x0d), (0x5812, 0x05), (0x5813, 0x01), (0x5814, 0x01), (0x5815, 0x01),
     (0x5816, 0x05), (0x5817, 0x0d), (0x5818, 0x08), (0x5819, 0x06), (0x581a, 0x05), (0x581b, 0x07),
     (0x581c, 0x0b), (0x581d, 0x0d), (0x581e, 0x12), (0x581f, 0x0d), (0x5820, 0x0e), (0x5821, 0x10),
     (0x5822, 0x10), (0x5823, 0x1e), (0x5824, 0x53), (0x5825, 0x15), (0x5826, 0x05), (0x5827, 0x14),
     (0x5828, 0x54), (0x5829, 0x25), (0x582a, 0x33), (0x582b, 0x33), (0x582c, 0x34), (0x582d, 0x16),
     (0x582e, 0x24), (0x582f, 0x41), (0x5830, 0x50), (0x5831, 0x42), (0x5832, 0x15), (0x5833, 0x25),
     (0x5834, 0x34), (0x5835, 0x33), (0x5836, 0x24), (0x5837, 0x26), (0x5838, 0x54), (0x5839, 0x25),
     (0x583a, 0x15), (0x583b, 0x25), (0x583c, 0x53), (0x583d, 0xcf), (0x3a0f, 0x30), (0x3a10, 0x28),
     (0x3a1b, 0x30), (0x3a1e, 0x28), (0x3a11, 0x60), (0x3a1f, 0x14), (0x5302, 0x28), (0x5303, 0x20),
     (0x5306, 0x1c), (0x5307, 0x28), (0x4002, 0xc5), (0x4003, 0x81), (0x4005, 0x12), (0x5688, 0x11),
     (0x5689, 0x11), (0x568a, 0x11), (0x568b, 0x11), (0x568c, 0x11), (0x568d, 0x11), (0x568e, 0x11),
     (0x568f, 0x11), (0x5580, 0x06), (0x5588, 0x00), (0x5583, 0x40), (0x5584, 0x2c), (0x5001, 0x83),
     (0x0000, 0x00)]"

definition ov3660_sensor_fmt_jpeg :: "(u16 \<times> u16) list" where
  "ov3660_sensor_fmt_jpeg = [
     (0x501f, 0x00), (0x4300, 0x30), (0x3002, 0x00), (0x3006, 0xff), (0x471c, 0x50), (0x0000, 0x00)]"

definition ov3660_sensor_fmt_raw :: "(u16 \<times> u16) list" where
  "ov3660_sensor_fmt_raw = [
     (0x4300, 0x00), (0x0000, 0x00)]"

definition ov3660_sensor_fmt_grayscale :: "(u16 \<times> u16) list" where
  "ov3660_sensor_fmt_grayscale = [
     (0x501f, 0x00), (0x4300, 0x10), (0x0000, 0x00)]"

definition ov3660_sensor_fmt_yuv422 :: "(u16 \<times> u16) list" where
  "ov3660_sensor_fmt_yuv422 = [
     (0x501f, 0x00), (0x4300, 0x30), (0x0000, 0x00)]"

definition ov3660_sensor_fmt_rgb565 :: "(u16 \<times> u16) list" where
  "ov3660_sensor_fmt_rgb565 = [
     (0x501f, 0x01), (0x4300, 0x61), (0x0000, 0x00)]"

definition ov3660_sensor_saturation_levels :: "u8 list list" where
  "ov3660_sensor_saturation_levels = [
     [0x1d, 0x60, 0x03, 0x07, 0x48, 0x4f, 0x4b, 0x40, 0x0b, 0x01, 0x98],
     [0x1d, 0x60, 0x03, 0x08, 0x54, 0x5c, 0x58, 0x4b, 0x0d, 0x01, 0x98],
     [0x1d, 0x60, 0x03, 0x0a, 0x60, 0x6a, 0x64, 0x56, 0x0e, 0x01, 0x98],
     [0x1d, 0x60, 0x03, 0x0b, 0x6c, 0x77, 0x70, 0x60, 0x10, 0x01, 0x98],
     [0x1d, 0x60, 0x03, 0x0c, 0x78, 0x84, 0x7d, 0x6b, 0x12, 0x01, 0x98],
     [0x1d, 0x60, 0x03, 0x0d, 0x84, 0x91, 0x8a, 0x76, 0x14, 0x01, 0x98],
     [0x1d, 0x60, 0x03, 0x0e, 0x90, 0x9e, 0x96, 0x80, 0x16, 0x01, 0x98],
     [0x1d, 0x60, 0x03, 0x10, 0x9c, 0xac, 0xa2, 0x8b, 0x17, 0x01, 0x98],
     [0x1d, 0x60, 0x03, 0x11, 0xa8, 0xb9, 0xaf, 0x96, 0x19, 0x01, 0x98]]"

definition ov3660_sensor_special_effects :: "u8 list list" where
  "ov3660_sensor_special_effects = [
     [0x06, 0x40, 0x2c, 0x08],
     [0x46, 0x40, 0x28, 0x08],
     [0x1e, 0x80, 0x80, 0x08],
     [0x1e, 0x80, 0xc0, 0x08],
     [0x1e, 0x60, 0x60, 0x08],
     [0x1e, 0xa0, 0x40, 0x08],
     [0x1e, 0x40, 0xa0, 0x08]]"

subsection \<open>Register numbers of \<open>ov3660_regs.h\<close>\<close>

abbreviation (input) SYSTEM_CTROL0 :: u16 where "SYSTEM_CTROL0 \<equiv> 0x3008"
abbreviation (input) PRE_ISP_TEST_SETTING_1 :: u16 where "PRE_ISP_TEST_SETTING_1 \<equiv> 0x503D"
abbreviation (input) AEC_PK_MANUAL :: u16 where "AEC_PK_MANUAL \<equiv> 0x3503"
abbreviation (input) TIMING_TC_REG20 :: u16 where "TIMING_TC_REG20 \<equiv> 0x3820"
abbreviation (input) TIMING_TC_REG21 :: u16 where "TIMING_TC_REG21 \<equiv> 0x3821"
abbreviation (input) X_ADDR_ST_H :: u16 where "X_ADDR_ST_H \<equiv> 0x3800"
abbreviation (input) X_ADDR_END_H :: u16 where "X_ADDR_END_H \<equiv> 0x3804"
abbreviation (input) X_OUTPUT_SIZE_H :: u16 where "X_OUTPUT_SIZE_H \<equiv> 0x3808"
abbreviation (input) X_TOTAL_SIZE_H :: u16 where "X_TOTAL_SIZE_H \<equiv> 0x380c"
abbreviation (input) X_OFFSET_H :: u16 where "X_OFFSET_H \<equiv> 0x3810"
abbreviation (input) X_INCREMENT :: u16 where "X_INCREMENT \<equiv> 0x3814"
abbreviation (input) Y_INCREMENT :: u16 where "Y_INCREMENT \<equiv> 0x3815"
abbreviation (input) ISP_CONTROL_01 :: u16 where "ISP_CONTROL_01 \<equiv> 0x5001"
abbreviation (input) PCLK_RATIO :: u16 where "PCLK_RATIO \<equiv> 0x3824"
abbreviation (input) VFIFO_CTRL0C :: u16 where "VFIFO_CTRL0C \<equiv> 0x460C"
abbreviation (input) SC_PLLS_CTRL0 :: u16 where "SC_PLLS_CTRL0 \<equiv> 0x303a"
abbreviation (input) SC_PLLS_CTRL1 :: u16 where "SC_PLLS_CTRL1 \<equiv> 0x303b"
abbreviation (input) SC_PLLS_CTRL2 :: u16 where "SC_PLLS_CTRL2 \<equiv> 0x303c"
abbreviation (input) SC_PLLS_CTRL3 :: u16 where "SC_PLLS_CTRL3 \<equiv> 0x303d"
abbreviation (input) COMPRESSION_CTRL07 :: u16 where "COMPRESSION_CTRL07 \<equiv> 0x4407"
abbreviation (input) TEST_COLOR_BAR :: u8 where "TEST_COLOR_BAR \<equiv> 0xC0"
abbreviation (input) AEC_PK_MANUAL_AGC_MANUALEN :: u8 where "AEC_PK_MANUAL_AGC_MANUALEN \<equiv> 0x02"
abbreviation (input) AEC_PK_MANUAL_AEC_MANUALEN :: u8 where "AEC_PK_MANUAL_AEC_MANUALEN \<equiv> 0x01"
abbreviation (input) TIMING_TC_REG20_VFLIP :: u8 where "TIMING_TC_REG20_VFLIP \<equiv> 0x06"
abbreviation (input) TIMING_TC_REG21_HMIRROR :: u8 where "TIMING_TC_REG21_HMIRROR \<equiv> 0x06"
abbreviation (input) OV3660_SCCB_ADDR :: u8 where "OV3660_SCCB_ADDR \<equiv> 0x3C"
abbreviation (input) OV3660_PID :: u16 where "OV3660_PID \<equiv> 0x3660"

subsection \<open>Register access\<close>

definition ov3660_read_reg :: "'d hw \<Rightarrow> u8 \<Rightarrow> u16 \<Rightarrow> ('d world, int) state" where
  "ov3660_read_reg hw slv_addr reg = do { b \<leftarrow> SCCB_Read16 hw slv_addr reg; ret (uint b) }"

definition ov3660_check_reg_mask :: "'d hw \<Rightarrow> u8 \<Rightarrow> u16 \<Rightarrow> u8 \<Rightarrow> ('d world, int) state" where
  "ov3660_check_reg_mask hw slv_addr reg msk = do {
     r \<leftarrow> ov3660_read_reg hw slv_addr reg;
     ret (c_bool (r AND uint msk = uint msk)) }"

definition ov3660_read_reg16 :: "'d hw \<Rightarrow> u8 \<Rightarrow> u16 \<Rightarrow> ('d world, int) state" where
  "ov3660_read_reg16 hw slv_addr reg = do {
     r \<leftarrow> ov3660_read_reg hw slv_addr reg;
     if r \<ge> 0 then do {
       r2 \<leftarrow> ov3660_read_reg hw slv_addr (reg + 1);
       ret (if r2 < 0 then r2 else push_bit 8 (r AND 0xFF) OR (r2 AND 0xFF)) }
     else ret r }"

definition ov3660_write_reg :: "'d hw \<Rightarrow> u8 \<Rightarrow> u16 \<Rightarrow> u8 \<Rightarrow> ('d world, int) state" where
  "ov3660_write_reg hw slv_addr reg v = SCCB_Write16 hw slv_addr reg v"

definition ov3660_set_reg_bits ::
  "'d hw \<Rightarrow> u8 \<Rightarrow> u16 \<Rightarrow> nat \<Rightarrow> u8 \<Rightarrow> u8 \<Rightarrow> ('d world, int) state" where
  "ov3660_set_reg_bits hw slv_addr reg offset msk v = do {
     r \<leftarrow> ov3660_read_reg hw slv_addr reg;
     if r < 0 then ret r
     else (let c_value = word_of_int r :: u8;
               new_value = (c_value AND NOT (push_bit offset msk)) OR push_bit offset (v AND msk)
           in ov3660_write_reg hw slv_addr reg new_value) }"

fun ov3660_write_regs :: "'d hw \<Rightarrow> u8 \<Rightarrow> (u16 \<times> u16) list \<Rightarrow> ('d world, int) state" where
  "ov3660_write_regs hw slv_addr [] = ret 0"
| "ov3660_write_regs hw slv_addr ((r, v) # regs) =
     (if r = REGLIST_TAIL then ret 0
      else if r = REG_DLY then do { delay_ms hw (unat v); ov3660_write_regs hw slv_addr regs }
      else or_return (ov3660_write_reg hw slv_addr r (ucast v)) (ov3660_write_regs hw slv_addr regs))"

definition ov3660_write_reg16 :: "'d hw \<Rightarrow> u8 \<Rightarrow> u16 \<Rightarrow> u16 \<Rightarrow> ('d world, int) state" where
  "ov3660_write_reg16 hw slv_addr reg v = do {
     e \<leftarrow> c_or (ov3660_write_reg hw slv_addr reg (ucast (drop_bit 8 v)))
             (ov3660_write_reg hw slv_addr (reg + 1) (ucast v));
     ret (if e \<noteq> 0 then - 1 else 0) }"

definition ov3660_write_addr_reg ::
  "'d hw \<Rightarrow> u8 \<Rightarrow> u16 \<Rightarrow> u16 \<Rightarrow> u16 \<Rightarrow> ('d world, int) state" where
  "ov3660_write_addr_reg hw slv_addr reg x_value y_value = do {
     e \<leftarrow> c_or (ov3660_write_reg16 hw slv_addr reg x_value)
             (ov3660_write_reg16 hw slv_addr (reg + 2) y_value);
     ret (if e \<noteq> 0 then - 1 else 0) }"

definition ov3660_write_reg_bits ::
  "'d hw \<Rightarrow> u8 \<Rightarrow> u16 \<Rightarrow> u8 \<Rightarrow> bool \<Rightarrow> ('d world, int) state" where
  "ov3660_write_reg_bits hw slv_addr reg msk enable =
     ov3660_set_reg_bits hw slv_addr reg 0 msk (if enable then msk else 0)"

subsection \<open>Clocks\<close>


definition ov3660_set_pll ::
  "'d hw \<Rightarrow> bool \<Rightarrow> u8 \<Rightarrow> u8 \<Rightarrow> u8 \<Rightarrow> bool \<Rightarrow> u8 \<Rightarrow> bool \<Rightarrow> u8 \<Rightarrow> ('d world, int) state" where
  "ov3660_set_pll hw bypass multiplier sys_div pre_div root_2x seld5 pclk_manual pclk_div =
   (if multiplier > 31 \<or> sys_div > 15 \<or> pre_div > 3 \<or> pclk_div > 31 \<or> seld5 > 3 then ret (- 1)
    else do {
      slv \<leftarrow> slv_addr_m;
      or_return (ov3660_write_reg hw slv SC_PLLS_CTRL0 (if bypass then 0x80 else 0x00))
     (or_return (ov3660_write_reg hw slv SC_PLLS_CTRL1 (multiplier AND 0x1f))
     (or_return (ov3660_write_reg hw slv SC_PLLS_CTRL2 (0x10 OR (sys_div AND 0x0f)))
     (or_return (ov3660_write_reg hw slv SC_PLLS_CTRL3
        (push_bit 4 (pre_div AND 0x3) OR seld5 OR (if root_2x then 0x40 else 0x00)))
     (or_return (ov3660_write_reg hw slv PCLK_RATIO (pclk_div AND 0x1f))
                (ov3660_write_reg hw slv VFIFO_CTRL0C (if pclk_manual then 0x22 else 0x20)))))) })"

subsection \<open>Reset, pixel format, frame size\<close>

definition ov3660_set_ae_level :: "'d hw \<Rightarrow> int \<Rightarrow> ('d world, int) state" where
  "ov3660_set_ae_level hw level =
   (if level < - 5 \<or> level > 5 then ret (- 1)
    else (let target_level = (level + 5) * 10 + 5;
              level_low = target_level * 23 div 25;
              level_high = target_level * 27 div 25;
              fast_low = drop_bit 1 level_low;
              fast_high = push_bit 1 level_high;
              fast_high = (if fast_high > 255 then 255 else fast_high)
    in do {
      slv \<leftarrow> slv_addr_m;
      r \<leftarrow> c_ors [ov3660_write_reg hw slv 0x3a0f (word_of_int level_high),
                ov3660_write_reg hw slv 0x3a10 (word_of_int level_low),
                ov3660_write_reg hw slv 0x3a1b (word_of_int level_high),
                ov3660_write_reg hw slv 0x3a1e (word_of_int level_low),
                ov3660_write_reg hw slv 0x3a11 (word_of_int fast_high),
                ov3660_write_reg hw slv 0x3a1f (word_of_int fast_low)];
      when_m (r = 0) (upd_status (st_ae_level_update (\<lambda>_. c_int8 level)));
      ret r }))"

definition ov3660_reset :: "'d hw \<Rightarrow> ('d world, int) state" where
  "ov3660_reset hw = do {
     slv \<leftarrow> slv_addr_m;
     r \<leftarrow> ov3660_write_reg hw slv SYSTEM_CTROL0 0x82;
     if r \<noteq> 0 then ret r
     else do {
       delay_ms hw 100;
       r \<leftarrow> ov3660_write_regs hw slv ov3660_sensor_default_regs;
       if r = 0 then do {
         r \<leftarrow> ov3660_set_ae_level hw 0;
         delay_ms hw 100;
         ret r }
       else ret r } }"

definition ov3660_set_pixformat :: "'d hw \<Rightarrow> pixformat_t \<Rightarrow> ('d world, int) state" where
  "ov3660_set_pixformat hw pixformat =
   (case (case pixformat of
        PIXFORMAT_YUV422 \<Rightarrow> Some ov3660_sensor_fmt_yuv422
      | PIXFORMAT_GRAYSCALE \<Rightarrow> Some ov3660_sensor_fmt_grayscale
      | PIXFORMAT_RGB565 \<Rightarrow> Some ov3660_sensor_fmt_rgb565
      | PIXFORMAT_RGB888 \<Rightarrow> Some ov3660_sensor_fmt_rgb565
      | PIXFORMAT_JPEG \<Rightarrow> Some ov3660_sensor_fmt_jpeg
      | PIXFORMAT_RAW \<Rightarrow> Some ov3660_sensor_fmt_raw
      | _ \<Rightarrow> None) of
      None \<Rightarrow> ret (- 1)
    | Some regs \<Rightarrow> do {
        slv \<leftarrow> slv_addr_m;
        r \<leftarrow> ov3660_write_regs hw slv regs;
        when_m (r = 0) (upd_sensor (s_pixformat_update (\<lambda>_. pixformat)));
        ret r })"

text \<open>The three mode registers \<open>set_image_options\<close> computes: \<open>reg20\<close>, \<open>reg21\<close>, \<open>reg4514\<close>.\<close>

definition ov3660_image_option_regs :: "bool \<Rightarrow> bool \<Rightarrow> bool \<Rightarrow> bool \<Rightarrow> u8 \<times> u8 \<times> u8" where
  "ov3660_image_option_regs jpeg binning vflip hmirror =
   (let reg20 = (if binning then 0x01 else 0x40) OR (if vflip then 0x06 else 0);
        reg21 = (if jpeg then 0x20 else 0) OR (if binning then 0x01 else 0)
                OR (if hmirror then 0x06 else 0);
        reg4514_test = (if binning then 4 else 0) OR (if vflip then 1 else 0)
                OR (if hmirror then 2 else 0) :: u8;
        reg4514 = (if reg4514_test = 0 then 0x88 else if reg4514_test = 1 then 0x88
          else if reg4514_test = 2 then 0xbb else if reg4514_test = 3 then 0xbb
          else if reg4514_test = 4 then 0xaa else if reg4514_test = 5 then 0xbb
          else if reg4514_test = 6 then 0xbb else if reg4514_test = 7 then 0xaa else 0)
    in (reg20, reg21, reg4514))"

text \<open>The second assignment to \<open>ret\<close> overwrites the result of the first group of writes.\<close>

definition ov3660_set_image_options :: "'d hw \<Rightarrow> ('d world, int) state" where
  "ov3660_set_image_options hw = do {
     s \<leftarrow> gets sensor;
     let st = s_status s;
     let slv = s_slv_addr s;
     let (reg20, reg21, reg4514) = ov3660_image_option_regs (s_pixformat s = PIXFORMAT_JPEG)
           (st_binning st) (st_vflip st \<noteq> 0) (st_hmirror st \<noteq> 0);
     _ \<leftarrow> c_ors [ov3660_write_reg hw slv TIMING_TC_REG20 reg20,
               ov3660_write_reg hw slv TIMING_TC_REG21 reg21,
               ov3660_write_reg hw slv 0x4514 reg4514];
     if st_binning st
     then c_ors [ov3660_write_reg hw slv 0x4520 0x0b, ov3660_write_reg hw slv X_INCREMENT 0x31,
                 ov3660_write_reg hw slv Y_INCREMENT 0x31]
     else c_ors [ov3660_write_reg hw slv 0x4520 0xb0, ov3660_write_reg hw slv X_INCREMENT 0x11,
                 ov3660_write_reg hw slv Y_INCREMENT 0x11] }"

text \<open>The register writes of \<open>set_framesize\<close> up to its second \<open>goto fail\<close>.\<close>

definition ov3660_framesize_window ::
  "'d hw \<Rightarrow> ratio_settings_t \<Rightarrow> u16 \<Rightarrow> u16 \<Rightarrow> ('d world, int) state" where
  "ov3660_framesize_window hw settings w h = do {
     slv \<leftarrow> slv_addr_m;
     or_return (c_ors [
        ov3660_write_addr_reg hw slv X_ADDR_ST_H (rs_start_x settings) (rs_start_y settings),
        ov3660_write_addr_reg hw slv X_ADDR_END_H (rs_end_x settings) (rs_end_y settings),
        ov3660_write_addr_reg hw slv X_OUTPUT_SIZE_H w h]) (do {
     st \<leftarrow> status_m;
     or_return (if st_binning st
        then c_ors [ov3660_write_addr_reg hw slv X_TOTAL_SIZE_H (rs_total_x settings)
                      (rs_total_y settings div 2 + 1),
                    ov3660_write_addr_reg hw slv X_OFFSET_H 8 2]
        else c_ors [ov3660_write_addr_reg hw slv X_TOTAL_SIZE_H (rs_total_x settings)
                      (rs_total_y settings),
                    ov3660_write_addr_reg hw slv X_OFFSET_H 16 6])
     (or_return (ov3660_write_reg_bits hw slv ISP_CONTROL_01 0x20 (st_scale st))
       (ov3660_set_image_options hw)) }) }"

text \<open>
  The clock settings \<open>set_framesize\<close> chooses: the multiplier, \<open>sys_div\<close>, \<open>pre_div\<close>, \<open>seld5\<close>
  and \<open>pclk_div\<close> arguments of \<open>set_pll\<close> (never bypassed, never doubled, PCLK set manually).
\<close>

definition ov3660_pll_args :: "pixformat_t \<Rightarrow> int \<Rightarrow> framesize_t \<Rightarrow> u8 \<times> u8 \<times> u8 \<times> u8 \<times> u8" where
  "ov3660_pll_args pixformat xclk_freq_hz framesize =
   (if pixformat = PIXFORMAT_JPEG then
      (if framesize = FRAMESIZE_QXGA \<or> xclk_freq_hz = 16000000 then (24, 1, 3, 0, 8)
       else (30, 1, 3, 0, 10))
    else
      (if framesize > FRAMESIZE_HVGA then (4, 1, 0, 2, 2)
       else if framesize \<ge> FRAMESIZE_QVGA then (8, 1, 0, 2, 4)
       else (8, 1, 0, 0, 8)))"

definition ov3660_framesize_pll :: "'d hw \<Rightarrow> framesize_t \<Rightarrow> ('d world, int) state" where
  "ov3660_framesize_pll hw framesize = do {
     s \<leftarrow> gets sensor;
     let (mul, sys, pre, seld5, pclk) = ov3660_pll_args (s_pixformat s) (s_xclk_freq_hz s) framesize;
     ov3660_set_pll hw False mul sys pre False seld5 True pclk }"

definition ov3660_set_framesize :: "'d hw \<Rightarrow> framesize_t \<Rightarrow> ('d world, int) state" where
  "ov3660_set_framesize hw framesize0 = do {
     let framesize = (if framesize0 > FRAMESIZE_QXGA then FRAMESIZE_QXGA else framesize0);
     st \<leftarrow> status_m;
     let old_framesize = st_framesize st;
     upd_status (st_framesize_update (\<lambda>_. framesize));
     let w = ri_width (resolution_at framesize);
     let h = ri_height (resolution_at framesize);
     let settings = ov3660_ratio_table ! aspect_ratio_index (ri_aspect_ratio (resolution_at framesize));
     upd_status (st_binning_update (\<lambda>_. w \<le> rs_max_width settings div 2 \<and> h \<le> rs_max_height settings div 2));
     upd_status (st_scale_update (\<lambda>_. \<not> ((w = rs_max_width settings \<and> h = rs_max_height settings)
        \<or> (w = rs_max_width settings div 2 \<and> h = rs_max_height settings div 2))));
     r \<leftarrow> ov3660_framesize_window hw settings w h;
     if r \<noteq> 0 then do { upd_status (st_framesize_update (\<lambda>_. old_framesize)); ret r }
     else ov3660_framesize_pll hw framesize }"

definition ov3660_set_hmirror :: "'d hw \<Rightarrow> int \<Rightarrow> ('d world, int) state" where
  "ov3660_set_hmirror hw enable = do {
     upd_status (st_hmirror_update (\<lambda>_. word_of_int enable));
     ov3660_set_image_options hw }"

definition ov3660_set_vflip :: "'d hw \<Rightarrow> int \<Rightarrow> ('d world, int) state" where
  "ov3660_set_vflip hw enable = do {
     upd_status (st_vflip_update (\<lambda>_. word_of_int enable));
     ov3660_set_image_options hw }"

subsection \<open>Image controls\<close>

definition ov3660_set_quality :: "'d hw \<Rightarrow> int \<Rightarrow> ('d world, int) state" where
  "ov3660_set_quality hw qs = do {
     slv \<leftarrow> slv_addr_m;
     r \<leftarrow> ov3660_write_reg hw slv COMPRESSION_CTRL07 (word_of_int (qs AND 0x3f));
     when_m (r = 0) (upd_status (st_quality_update (\<lambda>_. word_of_int qs)));
     ret r }"

definition ov3660_set_colorbar :: "'d hw \<Rightarrow> int \<Rightarrow> ('d world, int) state" where
  "ov3660_set_colorbar hw enable = do {
     slv \<leftarrow> slv_addr_m;
     r \<leftarrow> ov3660_write_reg_bits hw slv PRE_ISP_TEST_SETTING_1 TEST_COLOR_BAR (enable \<noteq> 0);
     when_m (r = 0) (upd_status (st_colorbar_update (\<lambda>_. word_of_int enable)));
     ret r }"

definition ov3660_set_gain_ctrl :: "'d hw \<Rightarrow> int \<Rightarrow> ('d world, int) state" where
  "ov3660_set_gain_ctrl hw enable = do {
     slv \<leftarrow> slv_addr_m;
     r \<leftarrow> ov3660_write_reg_bits hw slv AEC_PK_MANUAL AEC_PK_MANUAL_AGC_MANUALEN (enable = 0);
     when_m (r = 0) (upd_status (st_agc_update (\<lambda>_. word_of_int enable)));
     ret r }"

definition ov3660_set_exposure_ctrl :: "'d hw \<Rightarrow> int \<Rightarrow> ('d world, int) state" where
  "ov3660_set_exposure_ctrl hw enable = do {
     slv \<leftarrow> slv_addr_m;
     r \<leftarrow> ov3660_write_reg_bits hw slv AEC_PK_MANUAL AEC_PK_MANUAL_AEC_MANUALEN (enable = 0);
     when_m (r = 0) (upd_status (st_aec_update (\<lambda>_. word_of_int enable)));
     ret r }"

definition ov3660_set_whitebal :: "'d hw \<Rightarrow> int \<Rightarrow> ('d world, int) state" where
  "ov3660_set_whitebal hw enable = do {
     slv \<leftarrow> slv_addr_m;
     r \<leftarrow> ov3660_write_reg_bits hw slv ISP_CONTROL_01 0x01 (enable \<noteq> 0);
     when_m (r = 0) (upd_status (st_awb_update (\<lambda>_. word_of_int enable)));
     ret r }"

definition ov3660_set_dcw_dsp :: "'d hw \<Rightarrow> int \<Rightarrow> ('d world, int) state" where
  "ov3660_set_dcw_dsp hw enable = do {
     slv \<leftarrow> slv_addr_m;
     r \<leftarrow> ov3660_write_reg_bits hw slv 0x5183 0x80 (enable = 0);
     when_m (r = 0) (upd_status (st_dcw_update (\<lambda>_. word_of_int enable)));
     ret r }"

definition ov3660_set_aec2 :: "'d hw \<Rightarrow> int \<Rightarrow> ('d world, int) state" where
  "ov3660_set_aec2 hw enable = do {
     slv \<leftarrow> slv_addr_m;
     r \<leftarrow> ov3660_write_reg_bits hw slv 0x3a00 0x04 (enable \<noteq> 0);
     when_m (r = 0) (upd_status (st_aec2_update (\<lambda>_. word_of_int enable)));
     ret r }"

definition ov3660_set_bpc_dsp :: "'d hw \<Rightarrow> int \<Rightarrow> ('d world, int) state" where
  "ov3660_set_bpc_dsp hw enable = do {
     slv \<leftarrow> slv_addr_m;
     r \<leftarrow> ov3660_write_reg_bits hw slv 0x5000 0x04 (enable \<noteq> 0);
     when_m (r = 0) (upd_status (st_bpc_update (\<lambda>_. word_of_int enable)));
     ret r }"

definition ov3660_set_wpc_dsp :: "'d hw \<Rightarrow> int \<Rightarrow> ('d world, int) state" where
  "ov3660_set_wpc_dsp hw enable = do {
     slv \<leftarrow> slv_addr_m;
     r \<leftarrow> ov3660_write_reg_bits hw slv 0x5000 0x02 (enable \<noteq> 0);
     when_m (r = 0) (upd_status (st_wpc_update (\<lambda>_. word_of_int enable)));
     ret r }"

definition ov3660_set_raw_gma_dsp :: "'d hw \<Rightarrow> int \<Rightarrow> ('d world, int) state" where
  "ov3660_set_raw_gma_dsp hw enable = do {
     slv \<leftarrow> slv_addr_m;
     r \<leftarrow> ov3660_write_reg_bits hw slv 0x5000 0x20 (enable \<noteq> 0);
     when_m (r = 0) (upd_status (st_raw_gma_update (\<lambda>_. word_of_int enable)));
     ret r }"

definition ov3660_set_lenc_dsp :: "'d hw \<Rightarrow> int \<Rightarrow> ('d world, int) state" where
  "ov3660_set_lenc_dsp hw enable = do {
     slv \<leftarrow> slv_addr_m;
     r \<leftarrow> ov3660_write_reg_bits hw slv 0x5000 0x80 (enable \<noteq> 0);
     when_m (r = 0) (upd_status (st_lenc_update (\<lambda>_. word_of_int enable)));
     ret r }"

definition ov3660_get_agc_gain :: "'d hw \<Rightarrow> ('d world, int) state" where
  "ov3660_get_agc_gain hw = do {
     slv \<leftarrow> slv_addr_m;
     ra \<leftarrow> ov3660_read_reg hw slv 0x350a;
     if ra < 0 then ret 0
     else do {
       rb \<leftarrow> ov3660_read_reg hw slv 0x350b;
       if rb < 0 then ret 0
       else (let res = drop_bit 4 (rb AND 0xF0) OR push_bit 4 (ra AND 0x03)
             in ret (if rb AND 0x0F \<noteq> 0 then res + 1 else res)) } }"

definition ov3660_set_agc_gain :: "'d hw \<Rightarrow> int \<Rightarrow> ('d world, int) state" where
  "ov3660_set_agc_gain hw gain0 = do {
     let gain = (if gain0 < 0 then 0 else if gain0 > 64 then 64 else gain0);
     let gainv0 = push_bit 4 gain;
     let gainv = (if gainv0 \<noteq> 0 then gainv0 - 1 else gainv0);
     slv \<leftarrow> slv_addr_m;
     r \<leftarrow> c_ors [ov3660_write_reg hw slv 0x350a (word_of_int (drop_bit 8 gainv)),
               ov3660_write_reg hw slv 0x350b (word_of_int (gainv AND 0xff))];
     when_m (r = 0) (upd_status (st_agc_gain_update (\<lambda>_. word_of_int gain)));
     ret r }"

definition ov3660_get_aec_value :: "'d hw \<Rightarrow> ('d world, int) state" where
  "ov3660_get_aec_value hw = do {
     slv \<leftarrow> slv_addr_m;
     ra \<leftarrow> ov3660_read_reg hw slv 0x3500;
     if ra < 0 then ret 0
     else do {
       rb \<leftarrow> ov3660_read_reg hw slv 0x3501;
       if rb < 0 then ret 0
       else do {
         rc \<leftarrow> ov3660_read_reg hw slv 0x3502;
         if rc < 0 then ret 0
         else ret (push_bit 12 (ra AND 0x0F) OR push_bit 4 (rb AND 0xFF)
                   OR drop_bit 4 (rc AND 0xF0)) } } }"

definition ov3660_set_aec_value :: "'d hw \<Rightarrow> int \<Rightarrow> ('d world, int) state" where
  "ov3660_set_aec_value hw value0 = do {
     slv \<leftarrow> slv_addr_m;
     max_val \<leftarrow> ov3660_read_reg16 hw slv 0x380e;
     if max_val < 0 then ret (- 1)
     else do {
       let v = (if value0 > max_val then max_val else value0);
       r \<leftarrow> c_ors [ov3660_write_reg hw slv 0x3500 (word_of_int (drop_bit 12 v AND 0x0F)),
                 ov3660_write_reg hw slv 0x3501 (word_of_int (drop_bit 4 v AND 0xFF)),
                 ov3660_write_reg hw slv 0x3502 (word_of_int (push_bit 4 v AND 0xF0))];
       when_m (r = 0) (upd_status (st_aec_value_update (\<lambda>_. word_of_int v)));
       ret r } }"

definition ov3660_set_wb_mode :: "'d hw \<Rightarrow> int \<Rightarrow> ('d world, int) state" where
  "ov3660_set_wb_mode hw mode =
   (if mode < 0 \<or> mode > 4 then ret (- 1)
    else do {
      slv \<leftarrow> slv_addr_m;
      or_return (ov3660_write_reg hw slv 0x3406 (word_of_int (c_bool (mode \<noteq> 0)))) (do {
      r \<leftarrow> (if mode = 1 then c_ors [ov3660_write_reg16 hw slv 0x3400 0x5e0,
                ov3660_write_reg16 hw slv 0x3402 0x410, ov3660_write_reg16 hw slv 0x3404 0x540]
          else if mode = 2 then c_ors [ov3660_write_reg16 hw slv 0x3400 0x650,
                ov3660_write_reg16 hw slv 0x3402 0x410, ov3660_write_reg16 hw slv 0x3404 0x4f0]
          else if mode = 3 then c_ors [ov3660_write_reg16 hw slv 0x3400 0x520,
                ov3660_write_reg16 hw slv 0x3402 0x410, ov3660_write_reg16 hw slv 0x3404 0x660]
          else if mode = 4 then c_ors [ov3660_write_reg16 hw slv 0x3400 0x420,
                ov3660_write_reg16 hw slv 0x3402 0x3f0, ov3660_write_reg16 hw slv 0x3404 0x710]
          else ret 0);
      when_m (r = 0) (upd_status (st_wb_mode_update (\<lambda>_. word_of_int mode)));
      ret r }) })"

definition ov3660_set_awb_gain_dsp :: "'d hw \<Rightarrow> int \<Rightarrow> ('d world, int) state" where
  "ov3660_set_awb_gain_dsp hw enable = do {
     st \<leftarrow> status_m;
     let old_mode = uint (st_wb_mode st);
     let mode = (if enable \<noteq> 0 then old_mode else 0);
     r \<leftarrow> ov3660_set_wb_mode hw mode;
     when_m (r = 0) (do {
       upd_status (st_wb_mode_update (\<lambda>_. word_of_int old_mode));
       upd_status (st_awb_gain_update (\<lambda>_. word_of_int enable)) });
     ret r }"

definition ov3660_set_special_effect :: "'d hw \<Rightarrow> int \<Rightarrow> ('d world, int) state" where
  "ov3660_set_special_effect hw effect =
   (if effect < 0 \<or> effect > 6 then ret (- 1)
    else do {
      slv \<leftarrow> slv_addr_m;
      let regs = ov3660_sensor_special_effects ! nat effect;
      r \<leftarrow> c_ors [ov3660_write_reg hw slv 0x5580 (regs ! 0), ov3660_write_reg hw slv 0x5583 (regs ! 1),
                ov3660_write_reg hw slv 0x5584 (regs ! 2), ov3660_write_reg hw slv 0x5003 (regs ! 3)];
      when_m (r = 0) (upd_status (st_special_effect_update (\<lambda>_. word_of_int effect)));
      ret r })"

definition ov3660_set_brightness :: "'d hw \<Rightarrow> int \<Rightarrow> ('d world, int) state" where
  "ov3660_set_brightness hw level = do {
     let (v, negative) =
       (if level = 3 then (0x30 :: u8, False) else if level = 2 then (0x20, False)
        else if level = 1 then (0x10, False) else if level = - 1 then (0x10, True)
        else if level = - 2 then (0x20, True) else if level = - 3 then (0x30, True)
        else (0, False));
     slv \<leftarrow> slv_addr_m;
     r \<leftarrow> or_return (ov3660_write_reg hw slv 0x5587 v)
            (ov3660_write_reg_bits hw slv 0x5588 0x08 negative);
     when_m (r = 0) (upd_status (st_brightness_update (\<lambda>_. c_int8 level)));
     ret r }"

definition ov3660_set_contrast :: "'d hw \<Rightarrow> int \<Rightarrow> ('d world, int) state" where
  "ov3660_set_contrast hw level =
   (if level > 3 \<or> level < - 3 then ret (- 1)
    else do {
      slv \<leftarrow> slv_addr_m;
      r \<leftarrow> ov3660_write_reg hw slv 0x5586 (word_of_int (push_bit 3 (level + 4)));
      when_m (r = 0) (upd_status (st_contrast_update (\<lambda>_. c_int8 level)));
      ret r })"

text \<open>The loop of \<open>set_saturation\<close>, from register \<open>reg\<close> on.\<close>

fun ov3660_write_consecutive :: "'d hw \<Rightarrow> u8 \<Rightarrow> u16 \<Rightarrow> u8 list \<Rightarrow> ('d world, int) state" where
  "ov3660_write_consecutive hw slv reg [] = ret 0"
| "ov3660_write_consecutive hw slv reg (v # vs) =
     or_return (ov3660_write_reg hw slv reg v) (ov3660_write_consecutive hw slv (reg + 1) vs)"

definition ov3660_set_saturation :: "'d hw \<Rightarrow> int \<Rightarrow> ('d world, int) state" where
  "ov3660_set_saturation hw level =
   (if level > 4 \<or> level < - 4 then ret (- 1)
    else do {
      slv \<leftarrow> slv_addr_m;
      r \<leftarrow> ov3660_write_consecutive hw slv 0x5381
             (take 11 (ov3660_sensor_saturation_levels ! nat (level + 4)));
      when_m (r = 0) (upd_status (st_saturation_update (\<lambda>_. c_int8 level)));
      ret r })"

definition ov3660_set_sharpness :: "'d hw \<Rightarrow> int \<Rightarrow> ('d world, int) state" where
  "ov3660_set_sharpness hw level =
   (if level > 3 \<or> level < - 3 then ret (- 1)
    else do {
      let mt_offset_2 = (word_of_int ((level + 3) * 8) :: u8);
      let mt_offset_1 = mt_offset_2 + 1;
      slv \<leftarrow> slv_addr_m;
      r \<leftarrow> c_ors [ov3660_write_reg_bits hw slv 0x5308 0x40 False,
                ov3660_write_reg hw slv 0x5300 0x10, ov3660_write_reg hw slv 0x5301 0x10,
                ov3660_write_reg hw slv 0x5302 mt_offset_1, ov3660_write_reg hw slv 0x5303 mt_offset_2,
                ov3660_write_reg hw slv 0x5309 0x10, ov3660_write_reg hw slv 0x530a 0x10,
                ov3660_write_reg hw slv 0x530b 0x04, ov3660_write_reg hw slv 0x530c 0x06];
      when_m (r = 0) (upd_status (st_sharpness_update (\<lambda>_. c_int8 level)));
      ret r })"

definition ov3660_set_gainceiling :: "'d hw \<Rightarrow> int \<Rightarrow> ('d world, int) state" where
  "ov3660_set_gainceiling hw l = do {
     slv \<leftarrow> slv_addr_m;
     r \<leftarrow> c_ors [ov3660_write_reg hw slv 0x3A18 (word_of_int (drop_bit 8 l AND 3)),
               ov3660_write_reg hw slv 0x3A19 (word_of_int (l AND 0xFF))];
     when_m (r = 0) (upd_status (st_gainceiling_update (\<lambda>_. word_of_int l)));
     ret r }"

definition ov3660_get_denoise :: "'d hw \<Rightarrow> ('d world, int) state" where
  "ov3660_get_denoise hw = do {
     slv \<leftarrow> slv_addr_m;
     c \<leftarrow> ov3660_check_reg_mask hw slv 0x5308 0x10;
     if c = 0 then ret 0
     else do { r \<leftarrow> ov3660_read_reg hw slv 0x5306; ret (r div 4 + 1) } }"

definition ov3660_set_denoise :: "'d hw \<Rightarrow> int \<Rightarrow> ('d world, int) state" where
  "ov3660_set_denoise hw level =
   (if level < 0 \<or> level > 8 then ret (- 1)
    else do {
      slv \<leftarrow> slv_addr_m;
      r \<leftarrow> ov3660_write_reg_bits hw slv 0x5308 0x10 (level > 0);
      r \<leftarrow> (if r = 0 \<and> level > 0 then ov3660_write_reg hw slv 0x5306 (word_of_int ((level - 1) * 4))
          else ret r);
      when_m (r = 0) (upd_status (st_denoise_update (\<lambda>_. word_of_int level)));
      ret r })"

subsection \<open>Raw register access, resolution and clock of the API\<close>

text \<open>The read that \<open>get_reg\<close> and \<open>set_reg\<close> share: one, two or three bytes by the mask.\<close>

definition ov3660_read_wide :: "'d hw \<Rightarrow> u8 \<Rightarrow> int \<Rightarrow> int \<Rightarrow> ('d world, int) state" where
  "ov3660_read_wide hw slv reg msk =
   (if msk > 0xFF then do {
      r \<leftarrow> ov3660_read_reg16 hw slv (word_of_int reg);
      if r \<ge> 0 \<and> msk > 0xFFFF then do {
        r2 \<leftarrow> ov3660_read_reg hw slv (word_of_int (reg + 2));
        ret (if r2 \<ge> 0 then push_bit 8 r OR r2 else r2) }
      else ret r }
    else ov3660_read_reg hw slv (word_of_int reg))"

definition ov3660_get_reg :: "'d hw \<Rightarrow> int \<Rightarrow> int \<Rightarrow> ('d world, int) state" where
  "ov3660_get_reg hw reg msk = do {
     slv \<leftarrow> slv_addr_m;
     r \<leftarrow> ov3660_read_wide hw slv reg msk;
     ret (if r > 0 then r AND msk else r) }"

definition ov3660_set_reg :: "'d hw \<Rightarrow> int \<Rightarrow> int \<Rightarrow> int \<Rightarrow> ('d world, int) state" where
  "ov3660_set_reg hw reg msk value0 = do {
     slv \<leftarrow> slv_addr_m;
     r \<leftarrow> ov3660_read_wide hw slv reg msk;
     if r < 0 then ret r
     else do {
       let v = (r AND NOT msk) OR (value0 AND msk);
       if msk > 0xFFFF then do {
         r \<leftarrow> ov3660_write_reg16 hw slv (word_of_int reg) (word_of_int (drop_bit 8 v));
         if r \<ge> 0 then ov3660_write_reg hw slv (word_of_int (reg + 2)) (word_of_int (v AND 0xFF))
         else ret r }
       else if msk > 0xFF then ov3660_write_reg16 hw slv (word_of_int reg) (word_of_int v)
       else ov3660_write_reg hw slv (word_of_int reg) (word_of_int v) } }"

definition ov3660_set_res_raw ::
  "'d hw \<Rightarrow> int \<Rightarrow> int \<Rightarrow> int \<Rightarrow> int \<Rightarrow> int \<Rightarrow> int \<Rightarrow> int \<Rightarrow> int \<Rightarrow> int \<Rightarrow> int \<Rightarrow> bool \<Rightarrow> bool \<Rightarrow>
   ('d world, int) state" where
  "ov3660_set_res_raw hw startX startY endX endY offsetX offsetY totalX totalY outputX outputY
     scale binning = do {
     slv \<leftarrow> slv_addr_m;
     r \<leftarrow> c_ors [
       ov3660_write_addr_reg hw slv X_ADDR_ST_H (word_of_int startX) (word_of_int startY),
       ov3660_write_addr_reg hw slv X_ADDR_END_H (word_of_int endX) (word_of_int endY),
       ov3660_write_addr_reg hw slv X_OFFSET_H (word_of_int offsetX) (word_of_int offsetY),
       ov3660_write_addr_reg hw slv X_TOTAL_SIZE_H (word_of_int totalX) (word_of_int totalY),
       ov3660_write_addr_reg hw slv X_OUTPUT_SIZE_H (word_of_int outputX) (word_of_int outputY),
       ov3660_write_reg_bits hw slv ISP_CONTROL_01 0x20 scale];
     if r = 0 then do {
       upd_status (st_scale_update (\<lambda>_. scale));
       upd_status (st_binning_update (\<lambda>_. binning));
       ov3660_set_image_options hw }
     else ret r }"

definition ov3660_set_pll_api ::
  "'d hw \<Rightarrow> int \<Rightarrow> int \<Rightarrow> int \<Rightarrow> int \<Rightarrow> int \<Rightarrow> int \<Rightarrow> int \<Rightarrow> int \<Rightarrow> ('d world, int) state" where
  "ov3660_set_pll_api hw bypass multiplier sys_div root_2x pre_div seld5 pclk_manual pclk_div =
     ov3660_set_pll hw (bypass > 0) (word_of_int multiplier) (word_of_int sys_div)
       (word_of_int pre_div) (root_2x > 0) (word_of_int seld5) (pclk_manual > 0) (word_of_int pclk_div)"

definition ov3660_set_xclk :: "'d hw \<Rightarrow> int \<Rightarrow> int \<Rightarrow> ('d world, int) state" where
  "ov3660_set_xclk hw timer xclk = do {
     upd_sensor (s_xclk_freq_hz_update (\<lambda>_. sint (word_of_int (xclk * 1000000) :: u32)));
     State (\<lambda>w. case xclk_timer_conf hw timer (s_xclk_freq_hz (sensor w)) (dev w) of
        (e, d) \<Rightarrow> (e, w\<lparr>dev := d\<rparr>)) }"

subsection \<open>Status read-back, detection, installation\<close>

definition ov3660_init_status :: "'d hw \<Rightarrow> ('d world, int) state" where
  "ov3660_init_status hw = do {
     slv \<leftarrow> slv_addr_m;
     upd_status (st_brightness_update (\<lambda>_. 0));
     upd_status (st_contrast_update (\<lambda>_. 0));
     upd_status (st_saturation_update (\<lambda>_. 0));
     r \<leftarrow> ov3660_read_reg hw slv 0x5303;
     upd_status (st_sharpness_update (\<lambda>_. c_int8 (r div 8 - 3)));
     r \<leftarrow> ov3660_get_denoise hw;
     upd_status (st_denoise_update (\<lambda>_. word_of_int r));
     upd_status (st_ae_level_update (\<lambda>_. 0));
     r \<leftarrow> ov3660_read_reg16 hw slv 0x3A18;
     upd_status (st_gainceiling_update (\<lambda>_. word_of_int (r AND 0x3FF)));
     r \<leftarrow> ov3660_check_reg_mask hw slv ISP_CONTROL_01 0x01;
     upd_status (st_awb_update (\<lambda>_. word_of_int r));
     r \<leftarrow> ov3660_check_reg_mask hw slv 0x5183 0x80;
     upd_status (st_dcw_update (\<lambda>_. of_bool (r = 0)));
     r \<leftarrow> ov3660_check_reg_mask hw slv AEC_PK_MANUAL AEC_PK_MANUAL_AGC_MANUALEN;
     upd_status (st_agc_update (\<lambda>_. of_bool (r = 0)));
     r \<leftarrow> ov3660_check_reg_mask hw slv AEC_PK_MANUAL AEC_PK_MANUAL_AEC_MANUALEN;
     upd_status (st_aec_update (\<lambda>_. of_bool (r = 0)));
     r \<leftarrow> ov3660_check_reg_mask hw slv TIMING_TC_REG21 TIMING_TC_REG21_HMIRROR;
     upd_status (st_hmirror_update (\<lambda>_. word_of_int r));
     r \<leftarrow> ov3660_check_reg_mask hw slv TIMING_TC_REG20 TIMING_TC_REG20_VFLIP;
     upd_status (st_vflip_update (\<lambda>_. word_of_int r));
     r \<leftarrow> ov3660_check_reg_mask hw slv PRE_ISP_TEST_SETTING_1 TEST_COLOR_BAR;
     upd_status (st_colorbar_update (\<lambda>_. word_of_int r));
     r \<leftarrow> ov3660_check_reg_mask hw slv 0x5000 0x04;
     upd_status (st_bpc_update (\<lambda>_. word_of_int r));
     r \<leftarrow> ov3660_check_reg_mask hw slv 0x5000 0x02;
     upd_status (st_wpc_update (\<lambda>_. word_of_int r));
     r \<leftarrow> ov3660_check_reg_mask hw slv 0x5000 0x20;
     upd_status (st_raw_gma_update (\<lambda>_. word_of_int r));
     r \<leftarrow> ov3660_check_reg_mask hw slv 0x5000 0x80;
     upd_status (st_lenc_update (\<lambda>_. word_of_int r));
     r \<leftarrow> ov3660_read_reg hw slv COMPRESSION_CTRL07;
     upd_status (st_quality_update (\<lambda>_. word_of_int (r AND 0x3f)));
     upd_status (st_special_effect_update (\<lambda>_. 0));
     upd_status (st_wb_mode_update (\<lambda>_. 0));
     r \<leftarrow> ov3660_check_reg_mask hw slv 0x3406 0x01;
     upd_status (st_awb_gain_update (\<lambda>_. word_of_int r));
     r \<leftarrow> ov3660_get_agc_gain hw;
     upd_status (st_agc_gain_update (\<lambda>_. word_of_int r));
     r \<leftarrow> ov3660_get_aec_value hw;
     upd_status (st_aec_value_update (\<lambda>_. word_of_int r));
     r \<leftarrow> ov3660_check_reg_mask hw slv 0x3a00 0x04;
     upd_status (st_aec2_update (\<lambda>_. word_of_int r));
     ret 0 }"

definition ov3660_detect :: "'d hw \<Rightarrow> u8 \<Rightarrow> ('d world, int) state" where
  "ov3660_detect hw slv_addr =
   (if slv_addr = OV3660_SCCB_ADDR then do {
      h \<leftarrow> SCCB_Read16 hw slv_addr 0x300A;
      l \<leftarrow> SCCB_Read16 hw slv_addr 0x300B;
      let PID = (push_bit 8 (ucast h) OR ucast l :: u16);
      if PID = OV3660_PID then do {
        upd_sensor (\<lambda>s. s\<lparr>s_id := (s_id s)\<lparr>id_PID := PID\<rparr>\<rparr>);
        ret (uint PID) }
      else ret 0 }
    else ret 0)"

definition ov3660_init :: "('d world, int) state" where
  "ov3660_init = do { upd_sensor (s_driver_update (\<lambda>_. Driver CAMERA_OV3660)); ret 0 }"

text \<open>The function table \<open>ov3660_init\<close> installs.\<close>

fun ov3660_call :: "'d hw \<Rightarrow> sensor_op \<Rightarrow> ('d world, int) state" where
  "ov3660_call hw Reset = ov3660_reset hw"
| "ov3660_call hw (Set_pixformat f) = ov3660_set_pixformat hw f"
| "ov3660_call hw (Set_framesize f) = ov3660_set_framesize hw f"
| "ov3660_call hw (Set_contrast l) = ov3660_set_contrast hw l"
| "ov3660_call hw (Set_brightness l) = ov3660_set_brightness hw l"
| "ov3660_call hw (Set_saturation l) = ov3660_set_saturation hw l"
| "ov3660_call hw (Set_sharpness l) = ov3660_set_sharpness hw l"
| "ov3660_call hw (Set_gainceiling l) = ov3660_set_gainceiling hw l"
| "ov3660_call hw (Set_quality q) = ov3660_set_quality hw q"
| "ov3660_call hw (Set_colorbar e) = ov3660_set_colorbar hw e"
| "ov3660_call hw (Set_gain_ctrl e) = ov3660_set_gain_ctrl hw e"
| "ov3660_call hw (Set_exposure_ctrl e) = ov3660_set_exposure_ctrl hw e"
| "ov3660_call hw (Set_whitebal e) = ov3660_set_whitebal hw e"
| "ov3660_call hw (Set_hmirror e) = ov3660_set_hmirror hw e"
| "ov3660_call hw (Set_vflip e) = ov3660_set_vflip hw e"
| "ov3660_call hw Init_status = ov3660_init_status hw"
| "ov3660_call hw (Set_aec2 e) = ov3660_set_aec2 hw e"
| "ov3660_call hw (Set_aec_value v) = ov3660_set_aec_value hw v"
| "ov3660_call hw (Set_special_effect e) = ov3660_set_special_effect hw e"
| "ov3660_call hw (Set_wb_mode m) = ov3660_set_wb_mode hw m"
| "ov3660_call hw (Set_ae_level l) = ov3660_set_ae_level hw l"
| "ov3660_call hw (Set_dcw e) = ov3660_set_dcw_dsp hw e"
| "ov3660_call hw (Set_bpc e) = ov3660_set_bpc_dsp hw e"
| "ov3660_call hw (Set_wpc e) = ov3660_set_wpc_dsp hw e"
| "ov3660_call hw (Set_awb_gain e) = ov3660_set_awb_gain_dsp hw e"
| "ov3660_call hw (Set_agc_gain g) = ov3660_set_agc_gain hw g"
| "ov3660_call hw (Set_raw_gma e) = ov3660_set_raw_gma_dsp hw e"
| "ov3660_call hw (Set_lenc e) = ov3660_set_lenc_dsp hw e"
| "ov3660_call hw (Set_denoise l) = ov3660_set_denoise hw l"
| "ov3660_call hw (Get_reg r m) = ov3660_get_reg hw r m"
| "ov3660_call hw (Set_reg r m v) = ov3660_set_reg hw r m v"
| "ov3660_call hw (Set_res_raw sx sy ex ey fx fy tx ty ox oy sc b) =
     ov3660_set_res_raw hw sx sy ex ey fx fy tx ty ox oy sc b"
| "ov3660_call hw (Set_pll b mul sy rt pr s5 pe pc) = ov3660_set_pll_api hw b mul sy rt pr s5 pe pc"
| "ov3660_call hw (Set_xclk t x) = ov3660_set_xclk hw t x"

subsection \<open>What the driver leaves alone, whatever the bus does\<close>

lemmas ov3660_access_defs = ov3660_read_reg_def ov3660_check_reg_mask_def ov3660_read_reg16_def
  ov3660_write_reg_def ov3660_set_reg_bits_def ov3660_write_reg16_def ov3660_write_addr_reg_def
  ov3660_write_reg_bits_def

lemma keeps_ov3660_access [keeps_rules]:
  "keeps sensor (ov3660_read_reg hw a r)" "keeps sensor (ov3660_check_reg_mask hw a r m)"
  "keeps sensor (ov3660_read_reg16 hw a r)" "keeps sensor (ov3660_write_reg hw a r v)"
  "keeps sensor (ov3660_set_reg_bits hw a r off m v)" "keeps sensor (ov3660_write_reg16 hw a r v16)"
  "keeps sensor (ov3660_write_addr_reg hw a r v16 v16')"
  "keeps sensor (ov3660_write_reg_bits hw a r m e)"
  by (simp_all add: ov3660_access_defs Let_def keeps_rules)

lemma keeps_ov3660_write_regs [keeps_rules]: "keeps sensor (ov3660_write_regs hw a regs)"
  by (induction hw a regs rule: ov3660_write_regs.induct) (simp_all add: keeps_rules)

lemma keeps_ov3660_write_consecutive [keeps_rules]:
  "keeps sensor (ov3660_write_consecutive hw a r vs)"
  by (induction hw a r vs rule: ov3660_write_consecutive.induct) (simp_all add: keeps_rules)

lemma keeps_ov3660_set_image_options [keeps_rules]: "keeps sensor (ov3660_set_image_options hw)"
  by (simp add: ov3660_set_image_options_def Let_def case_prod_beta keeps_rules)

lemma keeps_ov3660_set_pll [keeps_rules]:
  "keeps sensor (ov3660_set_pll hw b mul sd pd rt s5 pm pcd)"
  by (simp add: ov3660_set_pll_def keeps_rules)

subsection \<open>The contract of the setters\<close>

text \<open>
  The abstract specification: how a successful call changes the sensor structure. \<open>None\<close>:
  the operation has no such contract (it is treated on its own below).
\<close>

fun ov3660_spec :: "sensor_op \<Rightarrow> (sensor_t \<Rightarrow> sensor_t) option" where
  "ov3660_spec Reset = Some (on_status (st_ae_level_update (\<lambda>_. 0)))"
| "ov3660_spec (Set_pixformat f) = Some (s_pixformat_update (\<lambda>_. f))"
| "ov3660_spec (Set_contrast l) = Some (on_status (st_contrast_update (\<lambda>_. l)))"
| "ov3660_spec (Set_brightness l) = Some (on_status (st_brightness_update (\<lambda>_. c_int8 l)))"
| "ov3660_spec (Set_saturation l) = Some (on_status (st_saturation_update (\<lambda>_. l)))"
| "ov3660_spec (Set_sharpness l) = Some (on_status (st_sharpness_update (\<lambda>_. l)))"
| "ov3660_spec (Set_denoise l) = Some (on_status (st_denoise_update (\<lambda>_. word_of_int l)))"
| "ov3660_spec (Set_gainceiling l) = Some (on_status (st_gainceiling_update (\<lambda>_. word_of_int l)))"
| "ov3660_spec (Set_quality q) = Some (on_status (st_quality_update (\<lambda>_. word_of_int q)))"
| "ov3660_spec (Set_colorbar e) = Some (on_status (st_colorbar_update (\<lambda>_. word_of_int e)))"
| "ov3660_spec (Set_whitebal e) = Some (on_status (st_awb_update (\<lambda>_. word_of_int e)))"
| "ov3660_spec (Set_gain_ctrl e) = Some (on_status (st_agc_update (\<lambda>_. word_of_int e)))"
| "ov3660_spec (Set_exposure_ctrl e) = Some (on_status (st_aec_update (\<lambda>_. word_of_int e)))"
| "ov3660_spec (Set_aec2 e) = Some (on_status (st_aec2_update (\<lambda>_. word_of_int e)))"
| "ov3660_spec (Set_awb_gain e) = Some (on_status (st_awb_gain_update (\<lambda>_. word_of_int e)))"
| "ov3660_spec (Set_agc_gain g) =
     Some (on_status (st_agc_gain_update (\<lambda>_. word_of_int (max 0 (min 64 g)))))"
| "ov3660_spec (Set_special_effect e) = Some (on_status (st_special_effect_update (\<lambda>_. word_of_int e)))"
| "ov3660_spec (Set_wb_mode m) = Some (on_status (st_wb_mode_update (\<lambda>_. word_of_int m)))"
| "ov3660_spec (Set_ae_level l) = Some (on_status (st_ae_level_update (\<lambda>_. l)))"
| "ov3660_spec (Set_dcw e) = Some (on_status (st_dcw_update (\<lambda>_. word_of_int e)))"
| "ov3660_spec (Set_bpc e) = Some (on_status (st_bpc_update (\<lambda>_. word_of_int e)))"
| "ov3660_spec (Set_wpc e) = Some (on_status (st_wpc_update (\<lambda>_. word_of_int e)))"
| "ov3660_spec (Set_raw_gma e) = Some (on_status (st_raw_gma_update (\<lambda>_. word_of_int e)))"
| "ov3660_spec (Set_lenc e) = Some (on_status (st_lenc_update (\<lambda>_. word_of_int e)))"
| "ov3660_spec (Get_reg r m) = Some (\<lambda>s. s)"
| "ov3660_spec (Set_reg r m v) = Some (\<lambda>s. s)"
| "ov3660_spec (Set_pll b mul sy rt pr s5 pe pc) = Some (\<lambda>s. s)"
| "ov3660_spec _ = None"

lemma commits_ov3660_switches:
  "commits (on_status (st_colorbar_update (\<lambda>_. word_of_int e))) (ov3660_set_colorbar hw e)"
  "commits (on_status (st_awb_update (\<lambda>_. word_of_int e))) (ov3660_set_whitebal hw e)"
  "commits (on_status (st_agc_update (\<lambda>_. word_of_int e))) (ov3660_set_gain_ctrl hw e)"
  "commits (on_status (st_aec_update (\<lambda>_. word_of_int e))) (ov3660_set_exposure_ctrl hw e)"
  "commits (on_status (st_aec2_update (\<lambda>_. word_of_int e))) (ov3660_set_aec2 hw e)"
  "commits (on_status (st_dcw_update (\<lambda>_. word_of_int e))) (ov3660_set_dcw_dsp hw e)"
  "commits (on_status (st_bpc_update (\<lambda>_. word_of_int e))) (ov3660_set_bpc_dsp hw e)"
  "commits (on_status (st_wpc_update (\<lambda>_. word_of_int e))) (ov3660_set_wpc_dsp hw e)"
  "commits (on_status (st_raw_gma_update (\<lambda>_. word_of_int e))) (ov3660_set_raw_gma_dsp hw e)"
  "commits (on_status (st_lenc_update (\<lambda>_. word_of_int e))) (ov3660_set_lenc_dsp hw e)"
  "commits (on_status (st_quality_update (\<lambda>_. word_of_int e))) (ov3660_set_quality hw e)"
  unfolding ov3660_set_colorbar_def ov3660_set_whitebal_def ov3660_set_gain_ctrl_def
    ov3660_set_exposure_ctrl_def ov3660_set_aec2_def ov3660_set_dcw_dsp_def ov3660_set_bpc_dsp_def
    ov3660_set_wpc_dsp_def ov3660_set_raw_gma_dsp_def ov3660_set_lenc_dsp_def ov3660_set_quality_def
  by (intro keeps_rules)+

lemma commits_ov3660_levels:
  "commits (on_status (st_contrast_update (\<lambda>_. l))) (ov3660_set_contrast hw l)"
  "commits (on_status (st_saturation_update (\<lambda>_. l))) (ov3660_set_saturation hw l)"
  "commits (on_status (st_sharpness_update (\<lambda>_. l))) (ov3660_set_sharpness hw l)"
  "commits (on_status (st_ae_level_update (\<lambda>_. l))) (ov3660_set_ae_level hw l)"
proof -
  have out: "commits f (ret (- 1))" for f :: "sensor_t \<Rightarrow> sensor_t"
    by (rule commits_fail) simp
  have c: "c_int8 l = l" if "- 5 \<le> l" "l \<le> 5"
    using that by simp
  show "commits (on_status (st_contrast_update (\<lambda>_. l))) (ov3660_set_contrast hw l)"
    by (cases "l > 3 \<or> l < - 3") (simp_all add: ov3660_set_contrast_def out c keeps_rules)
  show "commits (on_status (st_saturation_update (\<lambda>_. l))) (ov3660_set_saturation hw l)"
    by (cases "l > 4 \<or> l < - 4") (simp_all add: ov3660_set_saturation_def out c keeps_rules)
  show "commits (on_status (st_sharpness_update (\<lambda>_. l))) (ov3660_set_sharpness hw l)"
    by (cases "l > 3 \<or> l < - 3")
      (simp_all add: ov3660_set_sharpness_def out c keeps_rules Let_def)
  show "commits (on_status (st_ae_level_update (\<lambda>_. l))) (ov3660_set_ae_level hw l)"
    by (cases "l < - 5 \<or> l > 5")
      (simp_all add: ov3660_set_ae_level_def out c keeps_rules Let_def)
qed

lemma commits_ov3660_set_wb_mode:
  "commits (on_status (st_wb_mode_update (\<lambda>_. word_of_int m))) (ov3660_set_wb_mode hw m)"
  by (simp add: ov3660_set_wb_mode_def keeps_rules)

lemma commits_ov3660_values:
  "commits (on_status (st_brightness_update (\<lambda>_. c_int8 l))) (ov3660_set_brightness hw l)"
  "commits (on_status (st_gainceiling_update (\<lambda>_. word_of_int l))) (ov3660_set_gainceiling hw l)"
  "commits (on_status (st_agc_gain_update (\<lambda>_. word_of_int (max 0 (min 64 l))))) (ov3660_set_agc_gain hw l)"
  "commits (on_status (st_special_effect_update (\<lambda>_. word_of_int l))) (ov3660_set_special_effect hw l)"
  by (simp_all add: ov3660_set_brightness_def ov3660_set_gainceiling_def
      ov3660_set_agc_gain_def ov3660_set_special_effect_def Let_def case_prod_beta keeps_rules
      max_def min_def)

lemma commits_ov3660_set_denoise:
  "commits (on_status (st_denoise_update (\<lambda>_. word_of_int l))) (ov3660_set_denoise hw l)"
  unfolding ov3660_set_denoise_def
  by (intro keeps_rules, simp, rule commits_bind) (intro keeps_rules)+

lemma commits_ov3660_set_awb_gain_dsp:
  "commits (on_status (st_awb_gain_update (\<lambda>_. word_of_int e))) (ov3660_set_awb_gain_dsp hw e)"
  unfolding commits_def ov3660_set_awb_gain_dsp_def
  by (auto simp: on_status_def Let_def split: prod.splits if_splits
      dest!: commitsD [OF commits_ov3660_set_wb_mode])

lemma commits_ov3660_reset:
  "commits (on_status (st_ae_level_update (\<lambda>_. 0))) (ov3660_reset hw)"
  unfolding commits_def ov3660_reset_def
  by (auto split: prod.splits if_splits
      dest!: commitsD [OF commits_ov3660_levels(4)]
        keepsD [OF keeps_ov3660_access(4)] keepsD [OF keeps_ov3660_write_regs])

lemma commits_ov3660_set_pixformat:
  "commits (s_pixformat_update (\<lambda>_. f)) (ov3660_set_pixformat hw f)"
  by (cases f) (simp_all add: ov3660_set_pixformat_def keeps_rules)

lemma commits_ov3660_raw:
  "commits (\<lambda>s. s) (ov3660_get_reg hw r m)" "commits (\<lambda>s. s) (ov3660_set_reg hw r m v)"
  "commits (\<lambda>s. s) (ov3660_set_pll_api hw b mul sy rt pr s5 pe pc)"
  by (rule commits_keeps; simp add: ov3660_get_reg_def ov3660_set_reg_def ov3660_read_wide_def
      ov3660_set_pll_api_def Let_def keeps_rules)+

lemmas commits_ov3660 = commits_ov3660_switches commits_ov3660_levels commits_ov3660_values
  commits_ov3660_set_wb_mode commits_ov3660_set_awb_gain_dsp commits_ov3660_reset
  commits_ov3660_set_pixformat commits_ov3660_set_denoise commits_ov3660_raw

text \<open>
  C6. The setters of the OV3660 driver are transactional: on any bus, with any pattern of
  failing transfers, an operation with a contract that returns 0 has changed the sensor
  structure exactly as \<open>ov3660_spec\<close> says (one status field, clamped and narrowed the way the
  field stores it), and one that returns an error, out-of-range arguments included, has left
  the structure as it was. \<open>set_awb_gain_dsp\<close>, which sets the white-balance mode and puts it
  back, and \<open>reset\<close>, which runs the whole default table, are included.
\<close>

theorem ov3660_setters_transactional:
  assumes "ov3660_spec op = Some f" and "run_state (ov3660_call hw op) w = (r, w')"
  shows "sensor w' = (if r = 0 then f (sensor w) else sensor w)"
proof -
  have "commits f (ov3660_call hw op)"
    using assms(1) by (cases op) (auto simp: commits_ov3660)
  then show ?thesis using assms(2) by (rule commitsD)
qed

theorem ov3660_setters_transactional_witness:
  "st_wb_mode (s_status (sensor (snd (run_state (ov3660_call flaky_hw (Set_awb_gain 1))
     (world0 [True]))))) = 0 \<and>
   sensor (snd (run_state (ov3660_call flaky_hw (Set_quality 12)) (world0 [False]))) =
     sensor (world0 [])"
proof -
  obtain r w' where "run_state (ov3660_call flaky_hw (Set_awb_gain 1)) (world0 [True]) = (r, w')"
    by fastforce
  moreover obtain q v' where
    q: "run_state (ov3660_call flaky_hw (Set_quality 12)) (world0 [False]) = (q, v')"
    by fastforce
  moreover have "q = - 1"
    using q by (simp add: ov3660_set_quality_def ov3660_write_reg_def SCCB_Write16_def flaky_hw_def
        world0_def)
  ultimately show ?thesis
    using ov3660_setters_transactional [of "Set_awb_gain 1" _ flaky_hw "world0 [True]" r w']
      ov3660_setters_transactional [of "Set_quality 12" _ flaky_hw "world0 [False]" q v']
    by (auto simp: on_status_def world0_def)
qed

subsection \<open>The driver on a register device\<close>

definition ov3660_agc_gain_of :: "(u16 \<Rightarrow> u8) \<Rightarrow> int" where
  "ov3660_agc_gain_of R =
     (let res = drop_bit 4 (uint (R 0x350b) AND 0xF0) OR push_bit 4 (uint (R 0x350a) AND 0x03)
      in if uint (R 0x350b) AND 0x0F \<noteq> 0 then res + 1 else res)"

definition ov3660_aec_value_of :: "(u16 \<Rightarrow> u8) \<Rightarrow> int" where
  "ov3660_aec_value_of R = push_bit 12 (uint (R 0x3500) AND 0x0F)
     OR push_bit 4 (uint (R 0x3501) AND 0xFF) OR drop_bit 4 (uint (R 0x3502) AND 0xF0)"

definition ov3660_denoise_of :: "(u16 \<Rightarrow> u8) \<Rightarrow> int" where
  "ov3660_denoise_of R = (if R 0x5308 AND 0x10 = 0x10 then uint (R 0x5306) div 4 + 1 else 0)"

text \<open>The status that a register file stands for, and the registers it is read from.\<close>

definition ov3660_status_of :: "(u16 \<Rightarrow> u8) \<Rightarrow> camera_status_t \<Rightarrow> camera_status_t" where
  "ov3660_status_of R st = st\<lparr>
     st_brightness := 0, st_contrast := 0, st_saturation := 0,
     st_sharpness := c_int8 (uint (R 0x5303) div 8 - 3),
     st_denoise := word_of_int (ov3660_denoise_of R), st_ae_level := 0,
     st_gainceiling := word_of_int (uint (word_cat (R 0x3A18) (R 0x3A19) :: u16) AND 0x3FF),
     st_awb := of_bool (R 0x5001 AND 0x01 = 0x01),
     st_dcw := of_bool (R 0x5183 AND 0x80 \<noteq> 0x80),
     st_agc := of_bool (R 0x3503 AND 0x02 \<noteq> 0x02),
     st_aec := of_bool (R 0x3503 AND 0x01 \<noteq> 0x01),
     st_hmirror := of_bool (R 0x3821 AND 0x06 = 0x06),
     st_vflip := of_bool (R 0x3820 AND 0x06 = 0x06),
     st_colorbar := of_bool (R 0x503D AND 0xC0 = 0xC0),
     st_bpc := of_bool (R 0x5000 AND 0x04 = 0x04), st_wpc := of_bool (R 0x5000 AND 0x02 = 0x02),
     st_raw_gma := of_bool (R 0x5000 AND 0x20 = 0x20), st_lenc := of_bool (R 0x5000 AND 0x80 = 0x80),
     st_quality := word_of_int (uint (R 0x4407) AND 0x3f),
     st_special_effect := 0, st_wb_mode := 0,
     st_awb_gain := of_bool (R 0x3406 AND 0x01 = 0x01),
     st_agc_gain := word_of_int (ov3660_agc_gain_of R),
     st_aec_value := word_of_int (ov3660_aec_value_of R),
     st_aec2 := of_bool (R 0x3a00 AND 0x04 = 0x04)\<rparr>"

definition ov3660_status_regs :: "u16 list" where
  "ov3660_status_regs = [0x5303, 0x5308, 0x5306, 0x3A18, 0x3A19, 0x5001, 0x5183, 0x3503, 0x3821,
     0x3820, 0x503D, 0x5000, 0x4407, 0x3406, 0x350a, 0x350b, 0x3500, 0x3501, 0x3502, 0x3a00]"

text \<open>
  The settings \<open>init_status\<close> reads back: the status field, the value given to the setter and
  the range of values the register (and the field) can hold.
\<close>

fun ov3660_setting :: "sensor_op \<Rightarrow> ((camera_status_t \<Rightarrow> int) \<times> int \<times> int \<times> int) option" where
  "ov3660_setting (Set_quality q) = Some (\<lambda>st. uint (st_quality st), q, 0, 63)"
| "ov3660_setting (Set_colorbar e) = Some (\<lambda>st. uint (st_colorbar st), e, 0, 1)"
| "ov3660_setting (Set_whitebal e) = Some (\<lambda>st. uint (st_awb st), e, 0, 1)"
| "ov3660_setting (Set_gain_ctrl e) = Some (\<lambda>st. uint (st_agc st), e, 0, 1)"
| "ov3660_setting (Set_exposure_ctrl e) = Some (\<lambda>st. uint (st_aec st), e, 0, 1)"
| "ov3660_setting (Set_hmirror e) = Some (\<lambda>st. uint (st_hmirror st), e, 0, 1)"
| "ov3660_setting (Set_vflip e) = Some (\<lambda>st. uint (st_vflip st), e, 0, 1)"
| "ov3660_setting (Set_aec2 e) = Some (\<lambda>st. uint (st_aec2 st), e, 0, 1)"
| "ov3660_setting (Set_dcw e) = Some (\<lambda>st. uint (st_dcw st), e, 0, 1)"
| "ov3660_setting (Set_bpc e) = Some (\<lambda>st. uint (st_bpc st), e, 0, 1)"
| "ov3660_setting (Set_wpc e) = Some (\<lambda>st. uint (st_wpc st), e, 0, 1)"
| "ov3660_setting (Set_raw_gma e) = Some (\<lambda>st. uint (st_raw_gma st), e, 0, 1)"
| "ov3660_setting (Set_lenc e) = Some (\<lambda>st. uint (st_lenc st), e, 0, 1)"
| "ov3660_setting (Set_sharpness l) = Some (st_sharpness, l, - 3, 3)"
| "ov3660_setting (Set_denoise l) = Some (\<lambda>st. uint (st_denoise st), l, 0, 8)"
| "ov3660_setting (Set_gainceiling l) = Some (\<lambda>st. uint (st_gainceiling st), l, 0, 255)"
| "ov3660_setting (Set_agc_gain g) = Some (\<lambda>st. uint (st_agc_gain st), g, 0, 64)"
| "ov3660_setting _ = None"

definition ov3660_config_regs :: "u16 list" where
  "ov3660_config_regs = ov3660_status_regs @ [0x4514, 0x4520, 0x3814, 0x3815, 0x5300, 0x5301, 0x5302,
     0x5309, 0x530a, 0x530b, 0x530c]"

lemma agc_gain_codec:
  assumes "0 \<le> g" "g \<le> 64" and v: "v = (if push_bit 4 g \<noteq> 0 then push_bit 4 g - 1 else push_bit 4 g)"
    and R: "R 0x350a = word_of_int (drop_bit 8 v)" "R 0x350b = word_of_int (v AND 0xff)"
  shows "ov3660_agc_gain_of R = g"
proof -
  have "list_all (\<lambda>g. let v = (if push_bit 4 g \<noteq> 0 then push_bit 4 g - 1 else push_bit 4 g);
     a = uint (word_of_int (drop_bit 8 v) :: u8); b = uint (word_of_int (v AND 0xff) :: u8);
     res = drop_bit 4 (b AND 0xF0) OR push_bit 4 (a AND 0x03)
     in (if b AND 0x0F \<noteq> 0 then res + 1 else res) = g) [0..64]"
    by code_simp
  from int_range_all [OF this assms(1,2)] show ?thesis
    unfolding ov3660_agc_gain_of_def R v Let_def by simp
qed
lemma aec_value_codec:
  assumes R: "R 0x3500 = word_of_int (drop_bit 12 v AND 0x0F)" "R 0x3501 = word_of_int (drop_bit 4 v AND 0xFF)"
    "R 0x3502 = word_of_int (push_bit 4 v AND 0xF0)"
  shows "ov3660_aec_value_of R = v mod 65536"
proof -
  have m: "(15 :: int) = mask 4" "(255 :: int) = mask 8" "(240 :: int) = push_bit 4 (mask 4)"
    by (simp_all add: mask_eq_exp_minus_1)
  have "ov3660_aec_value_of R = take_bit 16 v"
    unfolding ov3660_aec_value_of_def R m
  proof (rule bit_eqI, goal_cases)
    case (1 n)
    show ?case by (cases "12 \<le> n") (auto simp: bit_simps)
  qed
  then show ?thesis by (simp add: take_bit_eq_mod)
qed

lemma small_codecs:
  "0 \<le> q \<Longrightarrow> q \<le> 63 \<Longrightarrow> uint (word_of_int (uint (word_of_int (q AND 63) :: u8) AND 63) :: u8) = q"
  "- 3 \<le> l \<Longrightarrow> l \<le> 3 \<Longrightarrow> c_int8 (uint (word_of_int ((l + 3) * 8) :: u8) div 8 - 3) = l"
  "0 < n \<Longrightarrow> n \<le> 8 \<Longrightarrow> uint (word_of_int (uint (word_of_int ((n - 1) * 4) :: u8) div 4 + 1) :: u8) = n"
  "0 \<le> c \<Longrightarrow> c \<le> 255 \<Longrightarrow> uint (word_of_int (uint (word_cat (word_of_int (drop_bit 8 c AND 3) :: u8)
     (word_of_int (c AND 0xFF) :: u8) :: u16) AND 0x3FF) :: u8) = c"
proof -
  show "uint (word_of_int (uint (word_of_int (q AND 63) :: u8) AND 63) :: u8) = q" if "0 \<le> q" "q \<le> 63"
  proof -
    have "q AND mask 6 = q"
      using that by (simp flip: take_bit_eq_mask add: take_bit_int_eq_self)
    then have "q AND 63 = q" by (simp add: mask_eq_exp_minus_1)
    then show ?thesis using that by (simp add: uint_word_of_int)
  qed
  show "c_int8 (uint (word_of_int ((l + 3) * 8) :: u8) div 8 - 3) = l" if "- 3 \<le> l" "l \<le> 3"
    using that unfolding uint_word_of_int by simp
  show "uint (word_of_int (uint (word_of_int ((n - 1) * 4) :: u8) div 4 + 1) :: u8) = n" if "0 < n" "n \<le> 8"
    using that unfolding uint_word_of_int by simp
  have "list_all (\<lambda>c. uint (word_of_int (uint (word_cat (word_of_int (drop_bit 8 c AND 3) :: u8)
     (word_of_int (c AND 0xFF) :: u8) :: u16) AND 0x3FF) :: u8) = c) [0..255]"
    by code_simp
  from int_range_all [OF this] show "0 \<le> c \<Longrightarrow> c \<le> 255 \<Longrightarrow> uint (word_of_int (uint (word_cat (word_of_int (drop_bit 8 c AND 3) :: u8)
     (word_of_int (c AND 0xFF) :: u8) :: u16) AND 0x3FF) :: u8) = c" by simp
qed
context reg_dev16
begin

lemma sim_ov3660_write_reg [sim_rules]:
  "plain r \<Longrightarrow> sim (ov3660_write_reg hw slv r v) s R 0 s (R(r := v))"
  unfolding ov3660_write_reg_def by (rule sim_rules)

lemma sim_ov3660_read_reg [sim_rules]:
  "plain r \<Longrightarrow> sim (ov3660_read_reg hw slv r) s R (uint (R r)) s R"
  unfolding ov3660_read_reg_def by (rule sim_rules | assumption)+

lemma sim_ov3660_check_reg_mask [sim_rules]:
  assumes "plain r"
  shows "sim (ov3660_check_reg_mask hw slv r m) s R (c_bool (R r AND m = m)) s R"
  unfolding ov3660_check_reg_mask_def
  by (rule sim_conv, (rule sim_rules assms)+) (simp_all add: word_uint_eq_iff uint_and)

lemma sim_ov3660_read_reg16 [sim_rules]:
  assumes "plain r" "plain (r + 1)"
  shows "sim (ov3660_read_reg16 hw slv r) s R (uint (word_cat (R r) (R (r + 1)) :: u16)) s R"
  unfolding ov3660_read_reg16_def
  by (rule sim_conv, (rule sim_rules assms | rule sim_if_True, (simp; fail))+)
    (simp_all add: u8_and_255 uint_word_cat8 del: push_bit_and)

lemma sim_ov3660_set_reg_bits [sim_rules]:
  assumes "plain r"
  shows "sim (ov3660_set_reg_bits hw slv r off m v) s R 0 s
    (R(r := (R r AND NOT (push_bit off m)) OR push_bit off (v AND m)))"
  unfolding ov3660_set_reg_bits_def Let_def
  by (rule sim_conv, (rule sim_rules assms | rule sim_if_False, (simp; fail))+) simp_all

lemma sim_ov3660_write_reg_bits [sim_rules]:
  assumes "plain r"
  shows "sim (ov3660_write_reg_bits hw slv r m e) s R 0 s
    (R(r := put_bits (R r) m e))"
  unfolding ov3660_write_reg_bits_def
  by (rule sim_conv, rule sim_rules, rule assms) (simp_all add: put_bits_def)

lemma sim_ov3660_write_reg16 [sim_rules]:
  assumes "plain r" "plain (r + 1)"
  shows "sim (ov3660_write_reg16 hw slv r v) s R 0 s (R(r := ucast (drop_bit 8 v), r + 1 := ucast v))"
  unfolding ov3660_write_reg16_def
  by (rule sim_conv, (rule sim_rules assms)+) simp_all

lemma sim_ov3660_write_addr_reg [sim_rules]:
  assumes "plain r" "plain (r + 1)" "plain (r + 2)" "plain (r + 3)"
  shows "sim (ov3660_write_addr_reg hw slv r x y) s R 0 s
    (R(r := ucast (drop_bit 8 x), r + 1 := ucast x, r + 2 := ucast (drop_bit 8 y), r + 3 := ucast y))"
  unfolding ov3660_write_addr_reg_def
  by (rule sim_conv, (rule sim_rules assms | simp add: add.assoc assms)+)

lemma sim_ov3660_get_denoise [sim_rules]:
  assumes "plain 0x5308" "plain 0x5306"
  shows "sim (ov3660_get_denoise hw) s R (ov3660_denoise_of R) s R"
  unfolding ov3660_get_denoise_def
  by (cases "R 0x5308 AND 0x10 = 0x10"; rule sim_conv,
      (rule sim_rules assms | rule sim_if_True, (simp; fail) | rule sim_if_False, (simp; fail))+)
    (simp_all add: ov3660_denoise_of_def)

lemma sim_ov3660_get_agc_gain [sim_rules]:
  assumes "plain 0x350a" "plain 0x350b"
  shows "sim (ov3660_get_agc_gain hw) s R (ov3660_agc_gain_of R) s R"
  unfolding ov3660_get_agc_gain_def Let_def
  by (rule sim_conv, (rule sim_rules assms | rule sim_if_False, (simp; fail))+)
    (simp_all add: ov3660_agc_gain_of_def)

lemma sim_ov3660_get_aec_value [sim_rules]:
  assumes "plain 0x3500" "plain 0x3501" "plain 0x3502"
  shows "sim (ov3660_get_aec_value hw) s R (ov3660_aec_value_of R) s R"
  unfolding ov3660_get_aec_value_def
  by (rule sim_conv, (rule sim_rules assms | rule sim_if_False, (simp; fail))+)
    (simp_all add: ov3660_aec_value_of_def)

lemma sim_ov3660_init_status:
  assumes p: "\<And>r. r \<in> set ov3660_status_regs \<Longrightarrow> plain r"
  shows "sim (ov3660_init_status hw) s R 0 (on_status (ov3660_status_of R) s) R"
proof -
  have pl: "plain 0x5303" "plain 0x5308" "plain 0x5306" "plain 0x3A18" "plain 0x3A19" "plain 0x5001"
    "plain 0x5183" "plain 0x3503" "plain 0x3821" "plain 0x3820" "plain 0x503D" "plain 0x5000"
    "plain 0x4407" "plain 0x3406" "plain 0x350a" "plain 0x350b" "plain 0x3500" "plain 0x3501"
    "plain 0x3502" "plain 0x3a00" "plain (0x3a18 + 1)"
    by (simp_all add: p ov3660_status_regs_def)
  show ?thesis
    unfolding ov3660_init_status_def
    by (rule sim_conv, (rule sim_rules pl)+, simp_all only: on_status_on_status,
        rule arg_cong [where f = "\<lambda>f. on_status f s"], rule ext, simp add: ov3660_status_of_def)
qed


lemma sim_ov3660_set_image_options:
  assumes "plain 0x3820" "plain 0x3821" "plain 0x4514" "plain 0x4520" "plain 0x3814" "plain 0x3815"
    and slv: "s_slv_addr s = slv"
    and regs: "ov3660_image_option_regs (s_pixformat s = PIXFORMAT_JPEG) (st_binning (s_status s))
        (st_vflip (s_status s) \<noteq> 0) (st_hmirror (s_status s) \<noteq> 0) = (reg20, reg21, reg4514)"
  shows "sim (ov3660_set_image_options hw) s R 0 s
    (R(0x3820 := reg20, 0x3821 := reg21, 0x4514 := reg4514,
       0x4520 := (if st_binning (s_status s) then 0x0b else 0xb0),
       0x3814 := (if st_binning (s_status s) then 0x31 else 0x11),
       0x3815 := (if st_binning (s_status s) then 0x31 else 0x11)))"
  unfolding ov3660_set_image_options_def Let_def c_ors_Cons c_ors_Nil
  by (rule sim_bind [OF sim_gets_sensor], unfold regs case_prod_conv slv,
      cases "st_binning (s_status s)")
    (rule sim_conv, (rule sim_rules assms | rule sim_if_True, assumption
       | rule sim_if_False, assumption)+, simp_all)+

lemma sim_ov3660_switch:
  assumes "plain r"
  shows "sim (do { slv \<leftarrow> slv_addr_m; e \<leftarrow> ov3660_write_reg_bits hw slv r m b;
      when_m (e = 0) (upd_status f); ret e }) s R 0 (on_status f s)
      (R(r := put_bits (R r) m b))"
  by (rule sim_rules refl assms)+

lemma ov3660_switch_readback:
  assumes pl: "\<And>r. r \<in> set ov3660_config_regs \<Longrightarrow> plain r" and e: "e = 0 \<or> e = 1"
  shows "\<exists>s' R'. sim (ov3660_set_colorbar hw e) s R 0 s' R' \<and>
      (\<forall>st. uint (st_colorbar (ov3660_status_of R' st)) = e)"
    "\<exists>s' R'. sim (ov3660_set_whitebal hw e) s R 0 s' R' \<and>
      (\<forall>st. uint (st_awb (ov3660_status_of R' st)) = e)"
    "\<exists>s' R'. sim (ov3660_set_gain_ctrl hw e) s R 0 s' R' \<and>
      (\<forall>st. uint (st_agc (ov3660_status_of R' st)) = e)"
    "\<exists>s' R'. sim (ov3660_set_exposure_ctrl hw e) s R 0 s' R' \<and>
      (\<forall>st. uint (st_aec (ov3660_status_of R' st)) = e)"
    "\<exists>s' R'. sim (ov3660_set_aec2 hw e) s R 0 s' R' \<and>
      (\<forall>st. uint (st_aec2 (ov3660_status_of R' st)) = e)"
    "\<exists>s' R'. sim (ov3660_set_dcw_dsp hw e) s R 0 s' R' \<and>
      (\<forall>st. uint (st_dcw (ov3660_status_of R' st)) = e)"
    "\<exists>s' R'. sim (ov3660_set_bpc_dsp hw e) s R 0 s' R' \<and>
      (\<forall>st. uint (st_bpc (ov3660_status_of R' st)) = e)"
    "\<exists>s' R'. sim (ov3660_set_wpc_dsp hw e) s R 0 s' R' \<and>
      (\<forall>st. uint (st_wpc (ov3660_status_of R' st)) = e)"
    "\<exists>s' R'. sim (ov3660_set_raw_gma_dsp hw e) s R 0 s' R' \<and>
      (\<forall>st. uint (st_raw_gma (ov3660_status_of R' st)) = e)"
    "\<exists>s' R'. sim (ov3660_set_lenc_dsp hw e) s R 0 s' R' \<and>
      (\<forall>st. uint (st_lenc (ov3660_status_of R' st)) = e)"
  unfolding ov3660_set_colorbar_def ov3660_set_whitebal_def ov3660_set_gain_ctrl_def
    ov3660_set_exposure_ctrl_def ov3660_set_aec2_def ov3660_set_dcw_dsp_def ov3660_set_bpc_dsp_def
    ov3660_set_wpc_dsp_def ov3660_set_raw_gma_dsp_def ov3660_set_lenc_dsp_def
  by ((rule exI, rule exI, rule conjI, rule sim_ov3660_switch,
      (simp add: pl ov3660_config_regs_def ov3660_status_regs_def)[1],
      (insert e, auto simp: ov3660_status_of_def)[1])+)

lemma ov3660_flip_readback:
  assumes pl: "\<And>r. r \<in> set ov3660_config_regs \<Longrightarrow> plain r" and e: "e = 0 \<or> e = 1"
    and slv: "s_slv_addr s = slv"
  shows "\<exists>s' R'. sim (ov3660_set_hmirror hw e) s R 0 s' R' \<and>
      (\<forall>st. uint (st_hmirror (ov3660_status_of R' st)) = e)"
    "\<exists>s' R'. sim (ov3660_set_vflip hw e) s R 0 s' R' \<and>
      (\<forall>st. uint (st_vflip (ov3660_status_of R' st)) = e)"
  unfolding ov3660_set_hmirror_def ov3660_set_vflip_def
  by ((rule exI, rule exI, rule conjI, rule sim_bind, rule sim_rules,
      rule sim_ov3660_set_image_options, 
      (simp_all add: pl ov3660_config_regs_def ov3660_status_regs_def on_status_def slv
        ov3660_image_option_regs_def Let_def)[8],
      (insert e, auto simp: ov3660_status_of_def on_status_def)[1])+)

lemma ov3660_value_readback:
  assumes pl: "\<And>r. r \<in> set ov3660_config_regs \<Longrightarrow> plain r"
  shows "0 \<le> q \<Longrightarrow> q \<le> 63 \<Longrightarrow> \<exists>s' R'. sim (ov3660_set_quality hw q) s R 0 s' R' \<and>
      (\<forall>st. uint (st_quality (ov3660_status_of R' st)) = q)"
    "- 3 \<le> l \<Longrightarrow> l \<le> 3 \<Longrightarrow> \<exists>s' R'. sim (ov3660_set_sharpness hw l) s R 0 s' R' \<and>
      (\<forall>st. st_sharpness (ov3660_status_of R' st) = l)"
    "0 \<le> n \<Longrightarrow> n \<le> 8 \<Longrightarrow> \<exists>s' R'. sim (ov3660_set_denoise hw n) s R 0 s' R' \<and>
      (\<forall>st. uint (st_denoise (ov3660_status_of R' st)) = n)"
    "0 \<le> c \<Longrightarrow> c \<le> 255 \<Longrightarrow> \<exists>s' R'. sim (ov3660_set_gainceiling hw c) s R 0 s' R' \<and>
      (\<forall>st. uint (st_gainceiling (ov3660_status_of R' st)) = c)"
    "0 \<le> g \<Longrightarrow> g \<le> 64 \<Longrightarrow> \<exists>s' R'. sim (ov3660_set_agc_gain hw g) s R 0 s' R' \<and>
      (\<forall>st. uint (st_agc_gain (ov3660_status_of R' st)) = g)"
proof -
  note pls = pl ov3660_config_regs_def ov3660_status_regs_def
  note run = sim_rules refl
  show "0 \<le> q \<Longrightarrow> q \<le> 63 \<Longrightarrow> \<exists>s' R'. sim (ov3660_set_quality hw q) s R 0 s' R' \<and>
      (\<forall>st. uint (st_quality (ov3660_status_of R' st)) = q)"
    unfolding ov3660_set_quality_def
    by (rule exI, rule exI, rule conjI, (rule run | simp add: pls; fail)+)
      (simp add: ov3660_status_of_def small_codecs)
  show "- 3 \<le> l \<Longrightarrow> l \<le> 3 \<Longrightarrow> \<exists>s' R'. sim (ov3660_set_sharpness hw l) s R 0 s' R' \<and>
      (\<forall>st. st_sharpness (ov3660_status_of R' st) = l)"
    unfolding ov3660_set_sharpness_def Let_def c_ors_Cons c_ors_Nil
    by (rule exI, rule exI, rule conjI, rule sim_if_False, simp, (rule run | simp add: pls; fail)+)
      (simp add: ov3660_status_of_def uint_word_of_int del: of_int_mult of_int_add)
  show "0 \<le> n \<Longrightarrow> n \<le> 8 \<Longrightarrow> \<exists>s' R'. sim (ov3660_set_denoise hw n) s R 0 s' R' \<and>
      (\<forall>st. uint (st_denoise (ov3660_status_of R' st)) = n)"
    unfolding ov3660_set_denoise_def
    by (cases "n = 0"; rule exI, rule exI, rule conjI, rule sim_if_False, simp,
        (rule run | rule sim_if_True, (simp; fail) | rule sim_if_False, (simp; fail) | simp add: pls; fail)+)
      (simp_all add: ov3660_status_of_def ov3660_denoise_of_def uint_word_of_int
        del: of_int_mult of_int_add of_int_diff)
  show "0 \<le> c \<Longrightarrow> c \<le> 255 \<Longrightarrow> \<exists>s' R'. sim (ov3660_set_gainceiling hw c) s R 0 s' R' \<and>
      (\<forall>st. uint (st_gainceiling (ov3660_status_of R' st)) = c)"
    unfolding ov3660_set_gainceiling_def c_ors_Cons c_ors_Nil
    by (rule exI, rule exI, rule conjI, (rule run | simp add: pls; fail)+)
      (simp add: ov3660_status_of_def small_codecs)
  show "0 \<le> g \<Longrightarrow> g \<le> 64 \<Longrightarrow> \<exists>s' R'. sim (ov3660_set_agc_gain hw g) s R 0 s' R' \<and>
      (\<forall>st. uint (st_agc_gain (ov3660_status_of R' st)) = g)"
    unfolding ov3660_set_agc_gain_def Let_def c_ors_Cons c_ors_Nil
    by (rule exI, rule exI, rule conjI, (rule run | simp add: pls; fail)+)
      (simp add: ov3660_status_of_def uint_word_of_int agc_gain_codec [where g = g, OF _ _ refl])
qed

lemma ov3660_setting_readback:
  assumes pl: "\<And>r. r \<in> set ov3660_config_regs \<Longrightarrow> plain r" and slv: "s_slv_addr s = slv"
    and op: "ov3660_setting op = Some (field, x, lo, hi)" and x: "lo \<le> x" "x \<le> hi"
  shows "\<exists>s' R'. sim (ov3660_call hw op) s R 0 s' R' \<and> (\<forall>st. field (ov3660_status_of R' st) = x)"
proof -
  have sw: "hi = 1 \<Longrightarrow> lo = 0 \<Longrightarrow> x = 0 \<or> x = 1"
    using x by linarith
  show ?thesis
    using op x sw
    by (cases op) (auto simp: ov3660_switch_readback [OF pl] ov3660_flip_readback [OF pl _ slv]
        ov3660_value_readback [OF pl])
qed

lemma sim_ov3660_set_aec_value:
  assumes pl: "plain 0x380e" "plain 0x380f" "plain 0x3500" "plain 0x3501" "plain 0x3502"
    and v: "v = min x (uint (word_cat (R 0x380e) (R 0x380f) :: u16))"
  shows "\<exists>R'. sim (ov3660_set_aec_value hw x) s R 0
      (on_status (st_aec_value_update (\<lambda>_. word_of_int v)) s) R' \<and> ov3660_aec_value_of R' = v mod 65536"
proof -
  have pl': "plain (0x380e + 1)" using pl by simp
  have v': "(if uint (word_cat (R 0x380e) (R (0x380e + 1)) :: u16) < x
      then uint (word_cat (R 0x380e) (R (0x380e + 1)) :: u16) else x) = v"
    by (auto simp: v)
  show ?thesis
    unfolding ov3660_set_aec_value_def Let_def c_ors_Cons c_ors_Nil
    by (rule exI, rule conjI, rule sim_bind, rule sim_rules, rule sim_bind, (rule sim_rules pl pl')+,
        rule sim_if_False, simp, unfold v', (rule sim_rules refl pl)+)
      (simp add: aec_value_codec [where v = v])
qed

lemma sim_ov3660_set_pll [sim_rules]:
  assumes pl: "plain 0x303a" "plain 0x303b" "plain 0x303c" "plain 0x303d" "plain 0x3824" "plain 0x460C"
    and ok: "mul \<le> 31" "sd \<le> 15" "pd \<le> 3" "s5 \<le> 3" "pcd \<le> 31"
  shows "sim (ov3660_set_pll hw b mul sd pd rt s5 pm pcd) s R 0 s
    (R(0x303a := (if b then 0x80 else 0), 0x303b := mul AND 0x1f, 0x303c := 0x10 OR (sd AND 0x0f),
       0x303d := push_bit 4 (pd AND 0x3) OR s5 OR (if rt then 0x40 else 0),
       0x3824 := pcd AND 0x1f, 0x460C := (if pm then 0x22 else 0x20)))"
proof -
  have "\<not> (mul > 31 \<or> sd > 15 \<or> pd > 3 \<or> pcd > 31 \<or> s5 > 3)"
    using ok by (simp add: not_less)
  then show ?thesis
    unfolding ov3660_set_pll_def by - (rule sim_if_False, assumption, (rule sim_rules pl)+)
qed

end

definition ov3660_window_regs :: "u16 list" where
  "ov3660_window_regs = [0x3800, 0x3801, 0x3802, 0x3803, 0x3804, 0x3805, 0x3806, 0x3807, 0x3808,
     0x3809, 0x380a, 0x380b, 0x380c, 0x380d, 0x380e, 0x380f, 0x3810, 0x3811, 0x3812, 0x3813, 0x5001,
     0x3820, 0x3821, 0x4514, 0x4520, 0x3814, 0x3815, 0x303a, 0x303b, 0x303c, 0x303d, 0x3824, 0x460C]"

lemma word_cat_bytes [simp]: "word_cat (ucast (drop_bit 8 x) :: u8) (ucast x :: u8) = (x :: u16)"
  by (rule bit_word_eqI) (auto simp: bit_word_cat_iff bit_simps)

text \<open>The four 16-bit registers from \<open>r\<close> on hold the pair \<open>(x, y)\<close>.\<close>

definition holds_pair :: "(u16 \<Rightarrow> u8) \<Rightarrow> u16 \<Rightarrow> u16 \<Rightarrow> u16 \<Rightarrow> bool" where
  "holds_pair R r x y \<longleftrightarrow> word_cat (R r) (R (r + 1)) = x \<and> word_cat (R (r + 2)) (R (r + 3)) = y"

text \<open>
  What a frame size asks of the sensor: binning, which halves both dimensions of the window, exactly when the image fits
  the halved window; scaling exactly when it is not as large as the window read out.
\<close>

definition binned :: "ratio_settings_t \<Rightarrow> resolution_info_t \<Rightarrow> bool" where
  "binned rs i \<longleftrightarrow> 2 * unat (ri_width i) \<le> unat (rs_max_width rs) \<and> 2 * unat (ri_height i) \<le> unat (rs_max_height rs)"

definition scaled :: "ratio_settings_t \<Rightarrow> resolution_info_t \<Rightarrow> bool" where
  "scaled rs i \<longleftrightarrow> (unat (ri_width i), unat (ri_height i)) \<noteq>
     (if binned rs i then (unat (rs_max_width rs) div 2, unat (rs_max_height rs) div 2)
      else (unat (rs_max_width rs), unat (rs_max_height rs)))"

lemma unat_half: "unat (y div 2 :: u16) = unat y div 2"
  by (simp add: unat_div)

lemma binned_iff: "binned rs i \<longleftrightarrow> ri_width i \<le> rs_max_width rs div 2 \<and> ri_height i \<le> rs_max_height rs div 2"
  unfolding binned_def word_le_nat_alt unat_half by linarith

lemma scaled_iff:
  assumes "0 < unat (rs_max_width rs)"
  shows "scaled rs i \<longleftrightarrow> \<not> ((ri_width i = rs_max_width rs \<and> ri_height i = rs_max_height rs)
        \<or> (ri_width i = rs_max_width rs div 2 \<and> ri_height i = rs_max_height rs div 2))"
  using assms unfolding scaled_def binned_def word_unat_eq_iff unat_half by auto

lemma ratio_table_pos: "rs = ov3660_ratio_table ! aspect_ratio_index a \<Longrightarrow> 0 < unat (rs_max_width rs)"
  by (cases a) (simp_all add: ov3660_ratio_table_def)

context reg_dev16
begin
lemma sim_ov3660_framesize_pll:
  assumes pl: "\<And>r. r \<in> set ov3660_window_regs \<Longrightarrow> plain r"
  shows "\<exists>R'. sim (ov3660_framesize_pll hw f) s R 0 s R' \<and>
     (\<forall>r. r \<notin> {0x303a, 0x303b, 0x303c, 0x303d, 0x3824, 0x460C} \<longrightarrow> R' r = R r)"
proof -
  obtain mul sd pd s5 pcd where a: "ov3660_pll_args (s_pixformat s) (s_xclk_freq_hz s) f = (mul, sd, pd, s5, pcd)"
    by (metis surj_pair)
  then have ok: "mul \<le> 31" "sd \<le> 15" "pd \<le> 3" "s5 \<le> 3" "pcd \<le> 31"
    by (auto simp: ov3660_pll_args_def split: if_splits)
  show ?thesis
    unfolding ov3660_framesize_pll_def Let_def
    by (rule exI, rule conjI, rule sim_bind [OF sim_gets_sensor], unfold a case_prod_conv,
        rule sim_rules) (simp_all add: pl ok ov3660_window_regs_def)
qed

lemma sim_ov3660_framesize_window:
  assumes pl: "\<And>r. r \<in> set ov3660_window_regs \<Longrightarrow> plain r" and slv: "s_slv_addr s = slv"
  shows "\<exists>R'. sim (ov3660_framesize_window hw rs w h) s R 0 s R' \<and>
     holds_pair R' 0x3800 (rs_start_x rs) (rs_start_y rs) \<and>
     holds_pair R' 0x3804 (rs_end_x rs) (rs_end_y rs) \<and> holds_pair R' 0x3808 w h \<and>
     holds_pair R' 0x380c (rs_total_x rs) (if st_binning (s_status s) then rs_total_y rs div 2 + 1 else rs_total_y rs) \<and>
     holds_pair R' 0x3810 (if st_binning (s_status s) then 8 else 16) (if st_binning (s_status s) then 2 else 6) \<and>
     (R' 0x5001 AND 0x20 = 0x20 \<longleftrightarrow> st_scale (s_status s)) \<and>
     (R' 0x3820 AND 0x01 = 0x01 \<longleftrightarrow> st_binning (s_status s))"
proof -
  obtain a b c where io: "ov3660_image_option_regs (s_pixformat s = PIXFORMAT_JPEG) (st_binning (s_status s))
        (st_vflip (s_status s) \<noteq> 0) (st_hmirror (s_status s) \<noteq> 0) = (a, b, c)"
    by (metis surj_pair)
  have "fst (ov3660_image_option_regs j n v m) AND 0x01 = 0x01 \<longleftrightarrow> n" for j n v m
    unfolding ov3660_image_option_regs_def Let_def by (cases n; cases v) simp_all
  from this [of "s_pixformat s = PIXFORMAT_JPEG" "st_binning (s_status s)"
      "st_vflip (s_status s) \<noteq> 0" "st_hmirror (s_status s) \<noteq> 0"]
  have a1: "a AND 0x01 = 0x01 \<longleftrightarrow> st_binning (s_status s)"
    unfolding io by simp
  note img = sim_ov3660_set_image_options [OF _ _ _ _ _ _ slv io]
  show ?thesis
    unfolding ov3660_framesize_window_def c_ors_Cons c_ors_Nil
    by (cases "st_binning (s_status s)"; rule exI, rule conjI,
       (rule sim_rules img | rule sim_if_True, assumption | rule sim_if_False, assumption
         | simp add: pl ov3660_window_regs_def; fail)+)
      (simp_all add: holds_pair_def a1)
qed

lemma sim_ov3660_set_framesize:
  assumes pl: "\<And>r. r \<in> set ov3660_window_regs \<Longrightarrow> plain r" and slv: "s_slv_addr s = slv"
    and f': "f' = min f FRAMESIZE_QXGA" and i: "i = resolution_at f'"
    and rs: "rs = ov3660_ratio_table ! aspect_ratio_index (ri_aspect_ratio i)"
  shows "\<exists>s' R'. sim (ov3660_set_framesize hw f) s R 0 s' R' \<and> st_framesize (s_status s') = f' \<and>
     holds_pair R' 0x3800 (rs_start_x rs) (rs_start_y rs) \<and>
     holds_pair R' 0x3804 (rs_end_x rs) (rs_end_y rs) \<and>
     holds_pair R' 0x3808 (ri_width i) (ri_height i) \<and>
     holds_pair R' 0x380c (rs_total_x rs) (if st_binning (s_status s') then rs_total_y rs div 2 + 1 else rs_total_y rs) \<and>
     holds_pair R' 0x3810 (if st_binning (s_status s') then 8 else 16) (if st_binning (s_status s') then 2 else 6) \<and>
     (R' 0x5001 AND 0x20 = 0x20 \<longleftrightarrow> st_scale (s_status s')) \<and>
     (R' 0x3820 AND 0x01 = 0x01 \<longleftrightarrow> st_binning (s_status s')) \<and>
     st_binning (s_status s') = binned rs i \<and> st_scale (s_status s') = scaled rs i"
proof -
  have f: "(if f > FRAMESIZE_QXGA then FRAMESIZE_QXGA else f) = f'"
    by (auto simp: f' min_def)
  define s' where "s' = on_status (\<lambda>st. st\<lparr>st_framesize := f',
     st_binning := ri_width i \<le> rs_max_width rs div 2 \<and> ri_height i \<le> rs_max_height rs div 2,
     st_scale := \<not> ((ri_width i = rs_max_width rs \<and> ri_height i = rs_max_height rs)
        \<or> (ri_width i = rs_max_width rs div 2 \<and> ri_height i = rs_max_height rs div 2))\<rparr>) s"
  have slv': "s_slv_addr s' = slv"
    using slv by (simp add: s'_def on_status_def)
  obtain R1 where R1: "sim (ov3660_framesize_window hw rs (ri_width i) (ri_height i)) s' R 0 s' R1"
     "holds_pair R1 0x3800 (rs_start_x rs) (rs_start_y rs)"
     "holds_pair R1 0x3804 (rs_end_x rs) (rs_end_y rs)" "holds_pair R1 0x3808 (ri_width i) (ri_height i)"
     "holds_pair R1 0x380c (rs_total_x rs) (if st_binning (s_status s') then rs_total_y rs div 2 + 1 else rs_total_y rs)"
     "holds_pair R1 0x3810 (if st_binning (s_status s') then 8 else 16) (if st_binning (s_status s') then 2 else 6)"
     "R1 0x5001 AND 0x20 = 0x20 \<longleftrightarrow> st_scale (s_status s')"
     "R1 0x3820 AND 0x01 = 0x01 \<longleftrightarrow> st_binning (s_status s')"
    using sim_ov3660_framesize_window [OF pl slv'] by blast
  obtain R2 where R2: "sim (ov3660_framesize_pll hw f') s' R1 0 s' R2"
     "\<forall>r. r \<notin> {0x303a, 0x303b, 0x303c, 0x303d, 0x3824, 0x460C} \<longrightarrow> R2 r = R1 r"
    using sim_ov3660_framesize_pll [OF pl] by blast
  have "sim (ov3660_set_framesize hw f) s R 0 s' R2"
    unfolding ov3660_set_framesize_def Let_def f
    unfolding i [symmetric] rs [symmetric]
    by (rule sim_bind, rule sim_rules, rule sim_bind, rule sim_rules, rule sim_bind, rule sim_rules,
        rule sim_bind, rule sim_rules, unfold on_status_on_status s'_def [symmetric],
        rule sim_bind, rule R1(1)) (simp add: R2(1))
  moreover have "st_framesize (s_status s') = f'"
    by (simp add: s'_def on_status_def)
  moreover have "st_binning (s_status s') = binned rs i" "st_scale (s_status s') = scaled rs i"
    using binned_iff [of rs i] scaled_iff [of rs i] ratio_table_pos [OF rs] by (simp_all add: s'_def on_status_def)
  ultimately show ?thesis
    using R1(2-) R2(2) by (intro exI [where x = s'] exI [where x = R2] conjI) (simp_all add: holds_pair_def)
qed

end

text \<open>
  C16. Reading the configuration back: on any sensor whose configuration registers are plain
  registers, a setter of \<open>ov3660_setting\<close> given a value in its range succeeds, and a later \<open>init_status\<close> (which
  rebuilds the status from the registers alone) finds exactly that value: JPEG quality (0 to 63), sharpness (-3
  to 3), denoise (0 to 8), gain ceiling (0 to 255), the 6.4-bit fixed-point analogue gain (0 to 64), and as 0 or 1
  the colour bar, white balance, gain and exposure control, mirror and flip (which go through
  \<open>set_image_options\<close>), night mode, downsizing, pixel correction, gamma and lens correction. Brightness,
  contrast, saturation, exposure level, special effect and white balance mode are not read back:
  \<open>init_status\<close> sets them to 0.
\<close>

theorem ov3660_setting_survives_reload:
  assumes "reg_dev16 hw port slv reg wr sel after_read plain"
    and "\<And>r. r \<in> set ov3660_config_regs \<Longrightarrow> plain r"
    and "sccb_i2c_port w = port" and "s_slv_addr (sensor w) = slv"
    and "ov3660_setting op = Some (field, x, lo, hi)" and "lo \<le> x" and "x \<le> hi"
    and "run_state (ov3660_call hw op) w = (r, w')"
  shows "r = 0 \<and> field (s_status (sensor (snd (run_state (ov3660_init_status hw) w')))) = x \<and>
    (let st = s_status (sensor (snd (run_state (ov3660_init_status hw) w'))) in
       st_brightness st = 0 \<and> st_contrast st = 0 \<and> st_saturation st = 0 \<and> st_ae_level st = 0 \<and>
       st_special_effect st = 0 \<and> st_wb_mode st = 0)"
proof -
  obtain s' R' where s: "reg_view.sim (reg_dev16.stands port slv reg plain) (ov3660_call hw op) (sensor w) (reg (dev w)) 0 s' R'"
    and f: "\<forall>st. field (ov3660_status_of R' st) = x"
    using reg_dev16.ov3660_setting_readback [OF assms(1,2,4-7)] by blast
  show ?thesis
    using reg_view.sim_then [OF reg_dev16.axioms_view [OF assms(1)]
        reg_dev16.standsI [OF assms(1,3,4)] s
        reg_dev16.sim_ov3660_init_status [OF assms(1)] assms(8)] f assms(2)
    by (auto simp: on_status_def ov3660_config_regs_def ov3660_status_of_def Let_def)
qed

theorem ov3660_setting_survives_reload_witness:
  "st_agc_gain (s_status (sensor (snd (run_state (ov3660_init_status (sim_dev16 0x3c))
     (snd (run_state (ov3660_call (sim_dev16 0x3c) (Set_agc_gain 64))
       (world0 \<lparr>rd_sel = 0, rd_regs = (\<lambda>_. 0)\<rparr>))))))) = 64"
proof -
  let ?w = "world0 \<lparr>rd_sel = 0, rd_regs = (\<lambda>_. 0)\<rparr> :: u16 reg_dev world"
  obtain r w' where run: "run_state (ov3660_call (sim_dev16 0x3c) (Set_agc_gain 64)) ?w = (r, w')"
    by fastforce
  have "uint (st_agc_gain (s_status (sensor (snd (run_state (ov3660_init_status (sim_dev16 0x3c)) w'))))) = 64"
    using ov3660_setting_survives_reload [OF sim16r.reg_dev16_axioms [where p = 1] _ _ _ _ _ _ run,
        where lo = 0 and hi = 64 and x = 64 and field = "\<lambda>st. uint (st_agc_gain st)"]
    by (simp add: world0_def)
  then show ?thesis
    unfolding run snd_conv by (simp add: word_uint_eq_iff)
qed

text \<open>
  Manual exposure: \<open>set_aec_value\<close> clamps the exposure to the frame's total line count
  (registers 0x380e/0x380f) and spreads it over three registers; \<open>get_aec_value\<close> puts the same
  value together again. A negative value is not rejected: it wraps to 16 bits.
\<close>

theorem ov3660_aec_value_roundtrip:
  assumes "reg_dev16 hw port slv reg wr sel after_read plain"
    and "plain 0x380e" "plain 0x380f" "plain 0x3500" "plain 0x3501" "plain 0x3502"
    and "sccb_i2c_port w = port" and "s_slv_addr (sensor w) = slv"
    and "run_state (ov3660_set_aec_value hw x) w = (r, w')"
  shows "r = 0 \<and> fst (run_state (ov3660_get_aec_value hw) w') =
    min x (uint (word_cat (reg (dev w) 0x380e) (reg (dev w) 0x380f) :: u16)) mod 65536"
proof -
  obtain s' R' where s: "reg_view.sim (reg_dev16.stands port slv reg plain) (ov3660_set_aec_value hw x) (sensor w) (reg (dev w)) 0 s' R'"
    and v: "ov3660_aec_value_of R' =
      min x (uint (word_cat (reg (dev w) 0x380e) (reg (dev w) 0x380f) :: u16)) mod 65536"
    using reg_dev16.sim_ov3660_set_aec_value [OF assms(1-6) refl] by blast
  show ?thesis
    using reg_view.sim_then [OF reg_dev16.axioms_view [OF assms(1)]
        reg_dev16.standsI [OF assms(1,7,8)] s
        reg_dev16.sim_ov3660_get_aec_value [OF assms(1,4-6)] assms(9)] v by simp
qed

theorem ov3660_aec_value_roundtrip_witness:
  "fst (run_state (ov3660_get_aec_value (sim_dev16 0x3c))
     (snd (run_state (ov3660_set_aec_value (sim_dev16 0x3c) 1000)
       (world0 \<lparr>rd_sel = 0, rd_regs = (\<lambda>_. 0)(0x380e := 0x02)\<rparr>)))) = 512"
proof -
  let ?w = "world0 \<lparr>rd_sel = 0, rd_regs = (\<lambda>_. 0)(0x380e := 0x02)\<rparr> :: u16 reg_dev world"
  obtain r w' where run: "run_state (ov3660_set_aec_value (sim_dev16 0x3c) 1000) ?w = (r, w')"
    by fastforce
  show ?thesis
    using ov3660_aec_value_roundtrip [OF sim16r.reg_dev16_axioms [where p = 1] _ _ _ _ _ _ _ run] run
    by (simp add: world0_def word_cat_eq)
qed

lemma keeps_ov3660_framesize_window: "keeps sensor (ov3660_framesize_window hw rs x y)"
  by (simp add: ov3660_framesize_window_def keeps_rules)

lemma keeps_ov3660_framesize_pll: "keeps sensor (ov3660_framesize_pll hw f)"
  by (simp add: ov3660_framesize_pll_def Let_def case_prod_beta keeps_rules)

text \<open>
  C22. Choosing a frame size programs the sensor for it: on a register device
  \<open>set_framesize\<close> succeeds, clamps the size to QXGA and records it, and afterwards the
  16-bit register pairs hold the window of the size's aspect ratio, the output size of the
  resolution table and the line timing. Binning is on, in the status and in the register, exactly when the
  image fits half the window in both dimensions, with half the lines and the smaller offsets; scaling
  exactly when the output is not as large as the window that is read out.
\<close>

theorem ov3660_set_framesize_programs:
  assumes "reg_dev16 hw port slv reg wr sel after_read plain"
    and "\<And>r. r \<in> set ov3660_window_regs \<Longrightarrow> plain r"
    and "sccb_i2c_port w = port" and "s_slv_addr (sensor w) = slv"
    and "run_state (ov3660_set_framesize hw f) w = (r, w')"
    and "i = resolution_at (min f FRAMESIZE_QXGA)"
    and "rs = ov3660_ratio_table ! aspect_ratio_index (ri_aspect_ratio i)"
  shows "r = 0 \<and> st_framesize (s_status (sensor w')) = min f FRAMESIZE_QXGA \<and>
     holds_pair (reg (dev w')) 0x3800 (rs_start_x rs) (rs_start_y rs) \<and>
     holds_pair (reg (dev w')) 0x3804 (rs_end_x rs) (rs_end_y rs) \<and>
     holds_pair (reg (dev w')) 0x3808 (ri_width i) (ri_height i) \<and>
     holds_pair (reg (dev w')) 0x380c (rs_total_x rs) (if binned rs i then rs_total_y rs div 2 + 1 else rs_total_y rs) \<and>
     holds_pair (reg (dev w')) 0x3810 (if binned rs i then 8 else 16) (if binned rs i then 2 else 6) \<and>
     st_binning (s_status (sensor w')) = binned rs i \<and> st_scale (s_status (sensor w')) = scaled rs i \<and>
     (reg (dev w') 0x5001 AND 0x20 = 0x20 \<longleftrightarrow> scaled rs i) \<and> (reg (dev w') 0x3820 AND 0x01 = 0x01 \<longleftrightarrow> binned rs i)"
proof -
  obtain s' R' where s: "reg_view.sim (reg_dev16.stands port slv reg plain) (ov3660_set_framesize hw f) (sensor w) (reg (dev w)) 0 s' R'"
    and f: "st_framesize (s_status s') = min f FRAMESIZE_QXGA"
     "holds_pair R' 0x3800 (rs_start_x rs) (rs_start_y rs)"
     "holds_pair R' 0x3804 (rs_end_x rs) (rs_end_y rs)" "holds_pair R' 0x3808 (ri_width i) (ri_height i)"
     "holds_pair R' 0x380c (rs_total_x rs) (if st_binning (s_status s') then rs_total_y rs div 2 + 1 else rs_total_y rs)"
     "holds_pair R' 0x3810 (if st_binning (s_status s') then 8 else 16) (if st_binning (s_status s') then 2 else 6)"
     "R' 0x5001 AND 0x20 = 0x20 \<longleftrightarrow> st_scale (s_status s')"
     "R' 0x3820 AND 0x01 = 0x01 \<longleftrightarrow> st_binning (s_status s')"
     "st_binning (s_status s') = binned rs i" "st_scale (s_status s') = scaled rs i"
    using reg_dev16.sim_ov3660_set_framesize [OF assms(1,2,4) refl assms(6,7)] by blast
  note view = reg_dev16.axioms_view [OF assms(1)]
  have run: "r = 0" "reg_dev16.stands port slv reg plain w' s' R'"
    using reg_view.simD [OF view s, OF reg_dev16.standsI [OF assms(1,3,4)] assms(5)] by simp_all
  have s': "sensor w' = s'"
    by (rule reg_view.ok_sensor [OF view, OF run(2)])
  have "reg (dev w') q = R' q" if "q \<in> set ov3660_window_regs" for q
    using reg_dev16.stands_reg [OF assms(1) run(2)] assms(2) [OF that] .
  then have R: "reg (dev w') q = R' q"
    if "q \<in> {0x3800, 0x3801, 0x3802, 0x3803, 0x3804, 0x3805, 0x3806, 0x3807, 0x3808,
     0x3809, 0x380a, 0x380b, 0x380c, 0x380d, 0x380e, 0x380f, 0x3810, 0x3811, 0x3812, 0x3813, 0x5001, 0x3820}" for q
    using that by (auto simp: ov3660_window_regs_def)
  show ?thesis
    using f by (simp add: run(1) s' holds_pair_def R)
qed

theorem ov3660_set_framesize_programs_witness:
  "let R = rd_regs (dev (snd (run_state (ov3660_set_framesize (sim_dev16 0x3c) FRAMESIZE_VGA)
     (world0 \<lparr>rd_sel = 0, rd_regs = (\<lambda>_. 0)\<rparr>))))
   in holds_pair R 0x3808 640 480 \<and> R 0x3820 AND 0x01 = 0x01 \<and> R 0x5001 AND 0x20 = 0x20"
proof -
  let ?w = "world0 \<lparr>rd_sel = 0, rd_regs = (\<lambda>_. 0)\<rparr> :: u16 reg_dev world"
  obtain r w' where run: "run_state (ov3660_set_framesize (sim_dev16 0x3c) FRAMESIZE_VGA) ?w = (r, w')"
    by fastforce
  have m: "min FRAMESIZE_VGA FRAMESIZE_QXGA = FRAMESIZE_VGA"
    by (simp add: min_def framesize_order)
  have i: "ri_width (resolution_at FRAMESIZE_VGA) = 640" "ri_height (resolution_at FRAMESIZE_VGA) = 480"
    "ri_aspect_ratio (resolution_at FRAMESIZE_VGA) = ASPECT_RATIO_4X3" by simp_all
  have "binned (ov3660_ratio_table ! 0) (resolution_at FRAMESIZE_VGA)" "scaled (ov3660_ratio_table ! 0) (resolution_at FRAMESIZE_VGA)"
    unfolding binned_def scaled_def i by (simp_all add: ov3660_ratio_table_def)
  then show ?thesis
    using ov3660_set_framesize_programs [OF sim16r.reg_dev16_axioms [where p = 1] _ _ _ run refl refl] run m i
    by (simp add: world0_def)
qed

text \<open>
  The ratio table is consistent with the resolution table: each row's window is exactly its
  largest output size plus the two offset borders, and every frame size the driver accepts
  fits the window of its aspect ratio.
\<close>

theorem ov3660_ratio_table_windows:
  "list_all (\<lambda>rs. rs_end_x rs - rs_start_x rs + 1 = rs_max_width rs + 2 * rs_offset_x rs \<and>
      rs_end_y rs - rs_start_y rs + 1 = rs_max_height rs + 2 * rs_offset_y rs \<and>
      rs_start_x rs \<le> rs_end_x rs \<and> rs_start_y rs \<le> rs_end_y rs) ov3660_ratio_table \<and>
   (let i = resolution_at (min f FRAMESIZE_QXGA);
        rs = ov3660_ratio_table ! aspect_ratio_index (ri_aspect_ratio i)
    in ri_width i \<le> rs_max_width rs \<and> ri_height i \<le> rs_max_height rs)"
proof
  show "list_all (\<lambda>rs. rs_end_x rs - rs_start_x rs + 1 = rs_max_width rs + 2 * rs_offset_x rs \<and>
      rs_end_y rs - rs_start_y rs + 1 = rs_max_height rs + 2 * rs_offset_y rs \<and>
      rs_start_x rs \<le> rs_end_x rs \<and> rs_start_y rs \<le> rs_end_y rs) ov3660_ratio_table"
    by (simp add: ov3660_ratio_table_def)
  show "let i = resolution_at (min f FRAMESIZE_QXGA);
        rs = ov3660_ratio_table ! aspect_ratio_index (ri_aspect_ratio i)
    in ri_width i \<le> rs_max_width rs \<and> ri_height i \<le> rs_max_height rs"
    by (cases f) (simp_all add: min_def framesize_order ov3660_ratio_table_def Let_def)
qed




text \<open>
  \<open>set_image_options\<close> (and with it \<open>set_hmirror\<close>, \<open>set_vflip\<close> and \<open>set_framesize\<close>) can
  report success although the sensor refused the flip and mirror registers: the second
  assignment to \<open>ret\<close> discards the result of the first three writes. Whatever the first of
  the two groups returns, the result is that of the second group alone; here a bus refuses the
  first write only and \<open>set_vflip\<close> returns 0 with the status updated.
\<close>

theorem ov3660_image_options_masks_failure:
  "fst (run_state (ov3660_set_vflip flaky_hw 1) (world0 [False])) = 0 \<and>
   st_vflip (s_status (sensor (snd (run_state (ov3660_set_vflip flaky_hw 1) (world0 [False]))))) = 1 \<and>
   fst (run_state (ov3660_write_reg flaky_hw 0x3c 0x3820 0x46) (world0 [False])) = - 1"
  by (simp add: ov3660_set_vflip_def ov3660_set_image_options_def ov3660_image_option_regs_def Let_def
      ov3660_write_reg_def SCCB_Write16_def flaky_hw_def world0_def)

text \<open>
  What a failing \<open>set_framesize\<close> leaves behind: on any bus only the frame size, binning and
  scaling fields of the sensor structure can change; on success the frame size is the
  requested one clamped to QXGA; after an error it is either that or the old one (a failure of
  \<open>set_pll\<close>, after the window has been programmed, does not restore it), and binning and
  scaling always describe the new size.
\<close>

theorem ov3660_set_framesize_status:
  assumes "run_state (ov3660_set_framesize hw f) w = (r, w')"
  shows "let i = resolution_at (min f FRAMESIZE_QXGA);
      rs = ov3660_ratio_table ! aspect_ratio_index (ri_aspect_ratio i);
      new = on_status (\<lambda>st. st\<lparr>st_framesize := min f FRAMESIZE_QXGA,
        st_binning := ri_width i \<le> rs_max_width rs div 2 \<and> ri_height i \<le> rs_max_height rs div 2,
        st_scale := \<not> ((ri_width i = rs_max_width rs \<and> ri_height i = rs_max_height rs)
          \<or> (ri_width i = rs_max_width rs div 2 \<and> ri_height i = rs_max_height rs div 2))\<rparr>) (sensor w);
      old = on_status (st_framesize_update (\<lambda>_. st_framesize (s_status (sensor w)))) new
    in sensor w' = new \<or> r \<noteq> 0 \<and> sensor w' = old"
proof -
  have f: "(if f > FRAMESIZE_QXGA then FRAMESIZE_QXGA else f) = min f FRAMESIZE_QXGA"
    by (auto simp: min_def)
  show ?thesis
    using assms unfolding ov3660_set_framesize_def Let_def f
    by (auto simp: on_status_def split: prod.splits if_splits
        dest!: keepsD [OF keeps_ov3660_framesize_window] keepsD [OF keeps_ov3660_framesize_pll])
qed

theorem ov3660_set_framesize_status_witness:
  "sensor (snd (run_state (ov3660_set_framesize flaky_hw FRAMESIZE_VGA) (world0 [False]))) \<noteq>
     sensor (world0 [False])"
proof -
  obtain r w' where run: "run_state (ov3660_set_framesize flaky_hw FRAMESIZE_VGA) (world0 [False]) = (r, w')"
    by fastforce
  from ov3660_set_framesize_status [OF this] show ?thesis
    unfolding run by (auto simp: Let_def min_def framesize_order on_status_def world0_def ov3660_ratio_table_def)
qed

end
