(* ===== verification/Ov2640.thy ===== *)
theory Ov2640
  imports Sccb
begin

text \<open>
  The OV2640 sensor driver, \<open>sensors/ov2640.c\<close> with the tables of \<open>ov2640_settings.h\<close>, in the
  order of the source. The sensor has two banks of 8-bit registers behind one bank-select
  register; the driver caches the selected bank in the static variable \<open>reg_bank\<close> (\<open>BANK_DSP\<close>
  is 0, \<open>BANK_SENSOR\<close> 1, the initial \<open>BANK_MAX\<close> 2). The target is not the plain ESP32, so
  \<open>clk_2x\<close> is 1 outside JPEG mode.

  \<open>banked_dev8\<close> is the interface of such a sensor; inside it every access is reduced to a
  function of the two register banks.
\<close>

subsection \<open>Tables of \<open>ov2640_settings.h\<close>\<close>

record ov2640_ratio_settings_t =
  or_offset_x :: u16
  or_offset_y :: u16
  or_max_x :: u16
  or_max_y :: u16


definition ov2640_ratio_table :: "ov2640_ratio_settings_t list" where
  "ov2640_ratio_table = [
     \<lparr>or_offset_x = 0, or_offset_y = 0, or_max_x = 1600, or_max_y = 1200\<rparr>,
     \<lparr>or_offset_x = 8, or_offset_y = 72, or_max_x = 1584, or_max_y = 1056\<rparr>,
     \<lparr>or_offset_x = 0, or_offset_y = 100, or_max_x = 1600, or_max_y = 1000\<rparr>,
     \<lparr>or_offset_x = 0, or_offset_y = 120, or_max_x = 1600, or_max_y = 960\<rparr>,
     \<lparr>or_offset_x = 0, or_offset_y = 150, or_max_x = 1600, or_max_y = 900\<rparr>,
     \<lparr>or_offset_x = 2, or_offset_y = 258, or_max_x = 1596, or_max_y = 684\<rparr>,
     \<lparr>or_offset_x = 50, or_offset_y = 0, or_max_x = 1500, or_max_y = 1200\<rparr>,
     \<lparr>or_offset_x = 200, or_offset_y = 0, or_max_x = 1200, or_max_y = 1200\<rparr>,
     \<lparr>or_offset_x = 462, or_offset_y = 0, or_max_x = 676, or_max_y = 1200\<rparr>]"

definition ov2640_settings_cif :: "(u8 \<times> u8) list" where
  "ov2640_settings_cif = [
     (0xff, 0x00), (0x2c, 0xff), (0x2e, 0xdf), (0xff, 0x01), (0x3c, 0x32), (0x11, 0x01), (0x09, 0x02),
     (0x04, 0x28), (0x13, 0xe5), (0x14, 0x48), (0x2c, 0x0c), (0x33, 0x78), (0x3a, 0x33), (0x3b, 0xfb),
     (0x3e, 0x00), (0x43, 0x11), (0x16, 0x10), (0x39, 0x92), (0x35, 0xda), (0x22, 0x1a), (0x37, 0xc3),
     (0x23, 0x00), (0x34, 0xc0), (0x06, 0x88), (0x07, 0xc0), (0x0d, 0x87), (0x0e, 0x41), (0x4c, 0x00),
     (0x4a, 0x81), (0x21, 0x99), (0x24, 0x40), (0x25, 0x38), (0x26, 0x82), (0x5c, 0x00), (0x63, 0x00),
     (0x61, 0x70), (0x62, 0x80), (0x7c, 0x05), (0x20, 0x80), (0x28, 0x30), (0x6c, 0x00), (0x6d, 0x80),
     (0x6e, 0x00), (0x70, 0x02), (0x71, 0x94), (0x73, 0xc1), (0x3d, 0x34), (0x5a, 0x57), (0x4f, 0xbb),
     (0x50, 0x9c), (0x12, 0x20), (0x17, 0x11), (0x18, 0x43), (0x19, 0x00), (0x1a, 0x25), (0x32, 0x89),
     (0x37, 0xc0), (0x4f, 0xca), (0x50, 0xa8), (0x6d, 0x00), (0x3d, 0x38), (0xff, 0x00), (0xe5, 0x7f),
     (0xf9, 0xc0), (0x41, 0x24), (0xe0, 0x14), (0x76, 0xff), (0x33, 0xa0), (0x42, 0x20), (0x43, 0x18),
     (0x4c, 0x00), (0x87, 0x50), (0x88, 0x3f), (0xd7, 0x03), (0xd9, 0x10), (0xd3, 0x82), (0xc8, 0x08),
     (0xc9, 0x80), (0x7c, 0x00), (0x7d, 0x00), (0x7c, 0x03), (0x7d, 0x48), (0x7d, 0x48), (0x7c, 0x08),
     (0x7d, 0x20), (0x7d, 0x10), (0x7d, 0x0e), (0x90, 0x00), (0x91, 0x0e), (0x91, 0x1a), (0x91, 0x31),
     (0x91, 0x5a), (0x91, 0x69), (0x91, 0x75), (0x91, 0x7e), (0x91, 0x88), (0x91, 0x8f), (0x91, 0x96),
     (0x91, 0xa3), (0x91, 0xaf), (0x91, 0xc4), (0x91, 0xd7), (0x91, 0xe8), (0x91, 0x20), (0x92, 0x00),
     (0x93, 0x06), (0x93, 0xe3), (0x93, 0x05), (0x93, 0x05), (0x93, 0x00), (0x93, 0x04), (0x93, 0x00),
     (0x93, 0x00), (0x93, 0x00), (0x93, 0x00), (0x93, 0x00), (0x93, 0x00), (0x93, 0x00), (0x96, 0x00),
     (0x97, 0x08), (0x97, 0x19), (0x97, 0x02), (0x97, 0x0c), (0x97, 0x24), (0x97, 0x30), (0x97, 0x28),
     (0x97, 0x26), (0x97, 0x02), (0x97, 0x98), (0x97, 0x80), (0x97, 0x00), (0x97, 0x00), (0xa4, 0x00),
     (0xa8, 0x00), (0xc5, 0x11), (0xc6, 0x51), (0xbf, 0x80), (0xc7, 0x10), (0xb6, 0x66), (0xb8, 0xa5),
     (0xb7, 0x64), (0xb9, 0x7c), (0xb3, 0xaf), (0xb4, 0x97), (0xb5, 0xff), (0xb0, 0xc5), (0xb1, 0x94),
     (0xb2, 0x0f), (0xc4, 0x5c), (0xc3, 0xfd), (0x7f, 0x00), (0xe5, 0x1f), (0xe1, 0x67), (0xdd, 0x7f),
     (0xda, 0x00), (0xe0, 0x00), (0x05, 0x00), (0x00, 0x00)]"

definition ov2640_settings_to_cif :: "(u8 \<times> u8) list" where
  "ov2640_settings_to_cif = [
     (0xff, 0x01), (0x12, 0x20), (0x03, 0x0a), (0x32, 0x89), (0x17, 0x11), (0x18, 0x43), (0x19, 0x00),
     (0x1a, 0x25), (0x4f, 0xca), (0x50, 0xa8), (0x5a, 0x23), (0x6d, 0x00), (0x3d, 0x38), (0x39, 0x92),
     (0x35, 0xda), (0x22, 0x1a), (0x37, 0xc3), (0x23, 0x00), (0x34, 0xc0), (0x06, 0x88), (0x07, 0xc0),
     (0x0d, 0x87), (0x0e, 0x41), (0x4c, 0x00), (0xff, 0x00), (0xe0, 0x04), (0xc0, 0x32), (0xc1, 0x25),
     (0x8c, 0x00), (0x51, 0x64), (0x52, 0x4a), (0x53, 0x00), (0x54, 0x00), (0x55, 0x00), (0x57, 0x00),
     (0x86, 0x3d), (0x50, 0x80), (0x00, 0x00)]"

definition ov2640_settings_to_svga :: "(u8 \<times> u8) list" where
  "ov2640_settings_to_svga = [
     (0xff, 0x01), (0x12, 0x40), (0x03, 0x0a), (0x32, 0x09), (0x17, 0x11), (0x18, 0x43), (0x19, 0x00),
     (0x1a, 0x4b), (0x37, 0xc0), (0x4f, 0xca), (0x50, 0xa8), (0x5a, 0x23), (0x6d, 0x00), (0x3d, 0x38),
     (0x39, 0x92), (0x35, 0xda), (0x22, 0x1a), (0x37, 0xc3), (0x23, 0x00), (0x34, 0xc0), (0x06, 0x88),
     (0x07, 0xc0), (0x0d, 0x87), (0x0e, 0x41), (0x42, 0x03), (0x4c, 0x00), (0xff, 0x00), (0xe0, 0x04),
     (0xc0, 0x64), (0xc1, 0x4b), (0x8c, 0x00), (0x51, 0xc8), (0x52, 0x96), (0x53, 0x00), (0x54, 0x00),
     (0x55, 0x00), (0x57, 0x00), (0x86, 0x3d), (0x50, 0x80), (0x00, 0x00)]"

definition ov2640_settings_to_uxga :: "(u8 \<times> u8) list" where
  "ov2640_settings_to_uxga = [
     (0xff, 0x01), (0x12, 0x00), (0x03, 0x0f), (0x32, 0x36), (0x17, 0x11), (0x18, 0x75), (0x19, 0x01),
     (0x1a, 0x97), (0x3d, 0x34), (0x4f, 0xbb), (0x50, 0x9c), (0x5a, 0x57), (0x6d, 0x80), (0x39, 0x82),
     (0x23, 0x00), (0x07, 0xc0), (0x4c, 0x00), (0x35, 0x88), (0x22, 0x0a), (0x37, 0x40), (0x34, 0xa0),
     (0x06, 0x02), (0x0d, 0xb7), (0x0e, 0x01), (0x42, 0x83), (0xff, 0x00), (0xe0, 0x04), (0xc0, 0xc8),
     (0xc1, 0x96), (0x8c, 0x00), (0x51, 0x90), (0x52, 0x2c), (0x53, 0x00), (0x54, 0x00), (0x55, 0x88),
     (0x57, 0x00), (0x86, 0x3d), (0x50, 0x00), (0x00, 0x00)]"

definition ov2640_settings_jpeg3 :: "(u8 \<times> u8) list" where
  "ov2640_settings_jpeg3 = [
     (0xff, 0x00), (0xe0, 0x14), (0xda, 0x12), (0xd7, 0x03), (0xe1, 0x77), (0xe5, 0x1f), (0xd9, 0x10),
     (0xdf, 0x80), (0x33, 0x80), (0x3c, 0x10), (0xeb, 0x30), (0xdd, 0x7f), (0xe0, 0x00), (0x00, 0x00)]"

definition ov2640_settings_yuv422 :: "(u8 \<times> u8) list" where
  "ov2640_settings_yuv422 = [
     (0xff, 0x00), (0xe0, 0x04), (0xda, 0x00), (0xd7, 0x01), (0xe1, 0x67), (0xe0, 0x00), (0x00, 0x00)]"

definition ov2640_settings_rgb565 :: "(u8 \<times> u8) list" where
  "ov2640_settings_rgb565 = [
     (0xff, 0x00), (0xe0, 0x04), (0xda, 0x08), (0xd7, 0x03), (0xe1, 0x77), (0xe0, 0x00), (0x00, 0x00)]"

definition ov2640_brightness_regs :: "u8 list list" where
  "ov2640_brightness_regs = [
     [0x7c, 0x7d, 0x7c, 0x7d, 0x7d],
     [0x00, 0x04, 0x09, 0x00, 0x00],
     [0x00, 0x04, 0x09, 0x10, 0x00],
     [0x00, 0x04, 0x09, 0x20, 0x00],
     [0x00, 0x04, 0x09, 0x30, 0x00],
     [0x00, 0x04, 0x09, 0x40, 0x00]]"

definition ov2640_contrast_regs :: "u8 list list" where
  "ov2640_contrast_regs = [
     [0x7c, 0x7d, 0x7c, 0x7d, 0x7d, 0x7d, 0x7d],
     [0x00, 0x04, 0x07, 0x20, 0x18, 0x34, 0x06],
     [0x00, 0x04, 0x07, 0x20, 0x1c, 0x2a, 0x06],
     [0x00, 0x04, 0x07, 0x20, 0x20, 0x20, 0x06],
     [0x00, 0x04, 0x07, 0x20, 0x24, 0x16, 0x06],
     [0x00, 0x04, 0x07, 0x20, 0x28, 0x0c, 0x06]]"

definition ov2640_saturation_regs :: "u8 list list" where
  "ov2640_saturation_regs = [
     [0x7c, 0x7d, 0x7c, 0x7d, 0x7d],
     [0x00, 0x02, 0x03, 0x28, 0x28],
     [0x00, 0x02, 0x03, 0x38, 0x38],
     [0x00, 0x02, 0x03, 0x48, 0x48],
     [0x00, 0x02, 0x03, 0x58, 0x58],
     [0x00, 0x02, 0x03, 0x68, 0x68]]"

definition ov2640_special_effects_regs :: "u8 list list" where
  "ov2640_special_effects_regs = [
     [0x7c, 0x7d, 0x7c, 0x7d, 0x7d],
     [0x00, 0x00, 0x05, 0x80, 0x80],
     [0x00, 0x40, 0x05, 0x80, 0x80],
     [0x00, 0x18, 0x05, 0x80, 0x80],
     [0x00, 0x18, 0x05, 0x40, 0xc0],
     [0x00, 0x18, 0x05, 0x40, 0x40],
     [0x00, 0x18, 0x05, 0xa0, 0x40],
     [0x00, 0x18, 0x05, 0x40, 0xa6]]"

definition ov2640_wb_modes_regs :: "u8 list list" where
  "ov2640_wb_modes_regs = [
     [0xcc, 0xcd, 0xce],
     [0x5e, 0x41, 0x54],
     [0x65, 0x41, 0x4f],
     [0x52, 0x41, 0x66],
     [0x42, 0x3f, 0x71]]"

definition ov2640_ae_levels_regs :: "u8 list list" where
  "ov2640_ae_levels_regs = [
     [0x24, 0x25, 0x26],
     [0x20, 0x18, 0x60],
     [0x34, 0x1c, 0x00],
     [0x3e, 0x38, 0x81],
     [0x48, 0x40, 0x81],
     [0x58, 0x50, 0x92]]"

definition ov2640_agc_gain_tbl :: "u8 list" where
  "ov2640_agc_gain_tbl = [
     0x00, 0x10, 0x18, 0x30, 0x34, 0x38, 0x3c, 0x70, 0x72, 0x74, 0x76, 0x78,
     0x7a, 0x7c, 0x7e, 0xf0, 0xf1, 0xf2, 0xf3, 0xf4, 0xf5, 0xf6, 0xf7, 0xf8,
     0xf9, 0xfa, 0xfb, 0xfc, 0xfd, 0xfe, 0xff]"

subsection \<open>Register numbers of \<open>ov2640_regs.h\<close>\<close>

abbreviation (input) BANK_SEL :: u8 where "BANK_SEL \<equiv> 0xff"
abbreviation (input) COM7 :: u8 where "COM7 \<equiv> 0x12"
abbreviation (input) COM7_SRST :: u8 where "COM7_SRST \<equiv> 0x80"
abbreviation (input) COM7_COLOR_BAR :: u8 where "COM7_COLOR_BAR \<equiv> 0x02"
abbreviation (input) HSIZE :: u8 where "HSIZE \<equiv> 0x51"
abbreviation (input) VSIZE :: u8 where "VSIZE \<equiv> 0x52"
abbreviation (input) XOFFL :: u8 where "XOFFL \<equiv> 0x53"
abbreviation (input) YOFFL :: u8 where "YOFFL \<equiv> 0x54"
abbreviation (input) VHYX :: u8 where "VHYX \<equiv> 0x55"
abbreviation (input) TEST :: u8 where "TEST \<equiv> 0x57"
abbreviation (input) ZMOW :: u8 where "ZMOW \<equiv> 0x5a"
abbreviation (input) ZMOH :: u8 where "ZMOH \<equiv> 0x5b"
abbreviation (input) ZMHH :: u8 where "ZMHH \<equiv> 0x5c"
abbreviation (input) R_BYPASS :: u8 where "R_BYPASS \<equiv> 0x05"
abbreviation (input) R_BYPASS_DSP_BYPAS :: u8 where "R_BYPASS_DSP_BYPAS \<equiv> 0x01"
abbreviation (input) R_BYPASS_DSP_EN :: u8 where "R_BYPASS_DSP_EN \<equiv> 0x00"
abbreviation (input) CLKRC :: u8 where "CLKRC \<equiv> 0x11"
abbreviation (input) R_DVP_SP :: u8 where "R_DVP_SP \<equiv> 0xd3"
abbreviation (input) QS :: u8 where "QS \<equiv> 0x44"
abbreviation (input) GAIN :: u8 where "GAIN \<equiv> 0x00"
abbreviation (input) COM9 :: u8 where "COM9 \<equiv> 0x14"
abbreviation (input) REG04 :: u8 where "REG04 \<equiv> 0x04"
abbreviation (input) AEC :: u8 where "AEC \<equiv> 0x10"
abbreviation (input) REG45 :: u8 where "REG45 \<equiv> 0x45"
abbreviation (input) CTRL0 :: u8 where "CTRL0 \<equiv> 0xc2"
abbreviation (input) CTRL1 :: u8 where "CTRL1 \<equiv> 0xc3"
abbreviation (input) CTRL2 :: u8 where "CTRL2 \<equiv> 0x86"
abbreviation (input) CTRL3 :: u8 where "CTRL3 \<equiv> 0x87"
abbreviation (input) COM8 :: u8 where "COM8 \<equiv> 0x13"
abbreviation (input) COM8_AGC_EN :: u8 where "COM8_AGC_EN \<equiv> 0x04"
abbreviation (input) COM8_AEC_EN :: u8 where "COM8_AEC_EN \<equiv> 0x01"
abbreviation (input) REG04_HFLIP_IMG :: u8 where "REG04_HFLIP_IMG \<equiv> 0x80"
abbreviation (input) REG04_VREF_EN :: u8 where "REG04_VREF_EN \<equiv> 0x10"
abbreviation (input) REG04_VFLIP_IMG :: u8 where "REG04_VFLIP_IMG \<equiv> 0x40"
abbreviation (input) REG_VER :: u8 where "REG_VER \<equiv> 0x0b"
abbreviation (input) REG_MIDL :: u8 where "REG_MIDL \<equiv> 0x1d"
abbreviation (input) REG_MIDH :: u8 where "REG_MIDH \<equiv> 0x1c"
abbreviation (input) BANK_DSP :: u8 where "BANK_DSP \<equiv> 0x00"
abbreviation (input) BANK_SENSOR :: u8 where "BANK_SENSOR \<equiv> 0x01"

subsection \<open>Register access\<close>

definition ov2640_set_bank :: "'d hw \<Rightarrow> u8 \<Rightarrow> ('d world, int) state" where
  "ov2640_set_bank hw bank = do {
     b \<leftarrow> gets reg_bank;
     if bank \<noteq> b then do {
       modify (\<lambda>w. w\<lparr>reg_bank := bank\<rparr>);
       slv \<leftarrow> slv_addr_m;
       SCCB_Write hw slv BANK_SEL bank }
     else ret 0 }"

fun ov2640_write_regs :: "'d hw \<Rightarrow> (u8 \<times> u8) list \<Rightarrow> ('d world, int) state" where
  "ov2640_write_regs hw [] = ret 0"
| "ov2640_write_regs hw ((r, v) # regs) =
     (if r = 0 then ret 0
      else or_return
        (if r = BANK_SEL then ov2640_set_bank hw v
         else do { slv \<leftarrow> slv_addr_m; SCCB_Write hw slv r v })
        (ov2640_write_regs hw regs))"

definition ov2640_write_reg :: "'d hw \<Rightarrow> u8 \<Rightarrow> u8 \<Rightarrow> u8 \<Rightarrow> ('d world, int) state" where
  "ov2640_write_reg hw bank reg v =
     or_return (ov2640_set_bank hw bank) (do { slv \<leftarrow> slv_addr_m; SCCB_Write hw slv reg v })"

definition ov2640_set_reg_bits :: "'d hw \<Rightarrow> u8 \<Rightarrow> u8 \<Rightarrow> nat \<Rightarrow> u8 \<Rightarrow> u8 \<Rightarrow> ('d world, int) state" where
  "ov2640_set_reg_bits hw bank reg offset msk v =
     or_return (ov2640_set_bank hw bank) (do {
       slv \<leftarrow> slv_addr_m;
       c_value \<leftarrow> SCCB_Read hw slv reg;
       SCCB_Write hw slv reg
         ((c_value AND NOT (push_bit offset msk)) OR push_bit offset (v AND msk)) })"

definition ov2640_read_reg :: "'d hw \<Rightarrow> u8 \<Rightarrow> u8 \<Rightarrow> ('d world, int) state" where
  "ov2640_read_reg hw bank reg = do {
     e \<leftarrow> ov2640_set_bank hw bank;
     if e \<noteq> 0 then ret 0
     else do { slv \<leftarrow> slv_addr_m; b \<leftarrow> SCCB_Read hw slv reg; ret (uint b) } }"

definition ov2640_get_reg_bits :: "'d hw \<Rightarrow> u8 \<Rightarrow> u8 \<Rightarrow> nat \<Rightarrow> u8 \<Rightarrow> ('d world, u8) state" where
  "ov2640_get_reg_bits hw bank reg offset msk = do {
     v \<leftarrow> ov2640_read_reg hw bank reg;
     ret (word_of_int (drop_bit offset v AND uint msk)) }"

definition ov2640_write_reg_bits :: "'d hw \<Rightarrow> u8 \<Rightarrow> u8 \<Rightarrow> u8 \<Rightarrow> int \<Rightarrow> ('d world, int) state" where
  "ov2640_write_reg_bits hw bank reg msk enable =
     ov2640_set_reg_bits hw bank reg 0 msk (if enable \<noteq> 0 then msk else 0)"

text \<open>The loops of the level setters: register and value rows written side by side.\<close>

fun ov2640_write_row :: "'d hw \<Rightarrow> u8 \<Rightarrow> u8 list \<Rightarrow> u8 list \<Rightarrow> ('d world, int) state" where
  "ov2640_write_row hw bank (r # rs) (v # vs) =
     or_return (ov2640_write_reg hw bank r v) (ov2640_write_row hw bank rs vs)"
| "ov2640_write_row hw bank _ _ = ret 0"

subsection \<open>Reset, pixel format, window\<close>

definition ov2640_reset :: "'d hw \<Rightarrow> ('d world, int) state" where
  "ov2640_reset hw =
     or_return (ov2640_write_reg hw BANK_SENSOR COM7 COM7_SRST) (do {
       delay_ms hw 10;
       ov2640_write_regs hw ov2640_settings_cif })"

definition ov2640_set_pixformat :: "'d hw \<Rightarrow> pixformat_t \<Rightarrow> ('d world, int) state" where
  "ov2640_set_pixformat hw pixformat = do {
     upd_sensor (s_pixformat_update (\<lambda>_. pixformat));
     r \<leftarrow> (case pixformat of
         PIXFORMAT_RGB565 \<Rightarrow> ov2640_write_regs hw ov2640_settings_rgb565
       | PIXFORMAT_RGB888 \<Rightarrow> ov2640_write_regs hw ov2640_settings_rgb565
       | PIXFORMAT_YUV422 \<Rightarrow> ov2640_write_regs hw ov2640_settings_yuv422
       | PIXFORMAT_GRAYSCALE \<Rightarrow> ov2640_write_regs hw ov2640_settings_yuv422
       | PIXFORMAT_JPEG \<Rightarrow> ov2640_write_regs hw ov2640_settings_jpeg3
       | _ \<Rightarrow> ret (- 1));
     when_m (r = 0) (delay_ms hw 10);
     ret r }"

text \<open>
  \<open>ov2640_sensor_mode_t\<close>; \<open>set_res_raw\<close> casts an arbitrary \<open>int\<close> to it, so a mode is an
  \<open>int\<close>.
\<close>

abbreviation (input) OV2640_MODE_UXGA :: int where "OV2640_MODE_UXGA \<equiv> 0"
abbreviation (input) OV2640_MODE_SVGA :: int where "OV2640_MODE_SVGA \<equiv> 1"
abbreviation (input) OV2640_MODE_CIF :: int where "OV2640_MODE_CIF \<equiv> 2"

definition ov2640_win_regs ::
  "int \<Rightarrow> int \<Rightarrow> int \<Rightarrow> int \<Rightarrow> int \<Rightarrow> int \<Rightarrow> (u8 \<times> u8) list" where
  "ov2640_win_regs offset_x offset_y max_x max_y w h = [
     (BANK_SEL, BANK_DSP),
     (HSIZE, word_of_int (max_x AND 0xFF)),
     (VSIZE, word_of_int (max_y AND 0xFF)),
     (XOFFL, word_of_int (offset_x AND 0xFF)),
     (YOFFL, word_of_int (offset_y AND 0xFF)),
     (VHYX, word_of_int ((drop_bit 1 max_y AND 0x80) OR (drop_bit 4 offset_y AND 0x70)
              OR (drop_bit 5 max_x AND 0x08) OR (drop_bit 8 offset_x AND 0x07))),
     (TEST, word_of_int (drop_bit 2 max_x AND 0x80)),
     (ZMOW, word_of_int (w AND 0xFF)),
     (ZMOH, word_of_int (h AND 0xFF)),
     (ZMHH, word_of_int ((drop_bit 6 h AND 0x04) OR (drop_bit 8 w AND 0x03))),
     (0, 0)]"

text \<open>
  The clock bytes: \<open>clk\<close> packs \<open>clk_div\<close> (6 bits), a reserved bit and \<open>clk_2x\<close>, \<open>pclk\<close> packs
  \<open>pclk_div\<close> (7 bits) and \<open>pclk_auto\<close>.
\<close>

definition ov2640_clk :: "pixformat_t \<Rightarrow> int \<Rightarrow> u8 \<times> u8" where
  "ov2640_clk pixformat mode =
   (let (clk_2x, clk_div, pclk_auto, pclk_div) =
      (if pixformat = PIXFORMAT_JPEG
       then (0, 0, 0, if mode = OV2640_MODE_UXGA then 12 else 8)
       else (0, if mode = OV2640_MODE_CIF then 3 else 7, 1,
             if mode \<noteq> OV2640_MODE_CIF \<and> mode = OV2640_MODE_UXGA then 12 else 8)) :: u8 \<times> u8 \<times> u8 \<times> u8
    in (clk_div OR push_bit 7 clk_2x, pclk_div OR push_bit 7 pclk_auto))"

definition ov2640_set_window ::
  "'d hw \<Rightarrow> int \<Rightarrow> int \<Rightarrow> int \<Rightarrow> int \<Rightarrow> int \<Rightarrow> int \<Rightarrow> int \<Rightarrow> ('d world, int) state" where
  "ov2640_set_window hw mode offset_x offset_y max_x max_y w h = do {
     let win_regs = ov2640_win_regs offset_x offset_y (max_x sdiv 4) (max_y sdiv 4)
                      (w sdiv 4) (h sdiv 4);
     s \<leftarrow> gets sensor;
     let (clk, pclk) = ov2640_clk (s_pixformat s) mode;
     let regs = (if mode = OV2640_MODE_CIF then ov2640_settings_to_cif
                 else if mode = OV2640_MODE_SVGA then ov2640_settings_to_svga
                 else ov2640_settings_to_uxga);
     or_return (ov2640_write_reg hw BANK_DSP R_BYPASS R_BYPASS_DSP_BYPAS)
    (or_return (ov2640_write_regs hw regs)
    (or_return (ov2640_write_regs hw win_regs)
    (or_return (ov2640_write_reg hw BANK_SENSOR CLKRC clk)
    (or_return (ov2640_write_reg hw BANK_DSP R_DVP_SP pclk)
    (or_return (ov2640_write_reg hw BANK_DSP R_BYPASS R_BYPASS_DSP_EN) (do {
       delay_ms hw 10;
       _ \<leftarrow> ov2640_set_pixformat hw (s_pixformat s);
       ret 0 })))))) }"

text \<open>The mode, offsets and window \<open>set_framesize\<close> passes to \<open>set_window\<close>.\<close>

definition ov2640_framesize_args :: "framesize_t \<Rightarrow> int \<times> u16 \<times> u16 \<times> u16 \<times> u16" where
  "ov2640_framesize_args framesize =
   (let rt = ov2640_ratio_table ! aspect_ratio_index (ri_aspect_ratio (resolution_at framesize));
        max_x = or_max_x rt; max_y = or_max_y rt;
        offset_x = or_offset_x rt; offset_y = or_offset_y rt
    in if framesize \<le> FRAMESIZE_CIF then
         (OV2640_MODE_CIF, offset_x div 4, offset_y div 4, max_x div 4,
          if max_y div 4 > 296 then 296 else max_y div 4)
       else if framesize \<le> FRAMESIZE_SVGA then
         (OV2640_MODE_SVGA, offset_x div 2, offset_y div 2, max_x div 2, max_y div 2)
       else (OV2640_MODE_UXGA, offset_x, offset_y, max_x, max_y))"

definition ov2640_set_framesize :: "'d hw \<Rightarrow> framesize_t \<Rightarrow> ('d world, int) state" where
  "ov2640_set_framesize hw framesize = do {
     upd_status (st_framesize_update (\<lambda>_. framesize));
     let (mode, offset_x, offset_y, max_x, max_y) = ov2640_framesize_args framesize;
     ov2640_set_window hw mode (uint offset_x) (uint offset_y) (uint max_x) (uint max_y)
       (uint (ri_width (resolution_at framesize))) (uint (ri_height (resolution_at framesize))) }"

subsection \<open>Image controls\<close>

definition ov2640_set_contrast :: "'d hw \<Rightarrow> int \<Rightarrow> ('d world, int) state" where
  "ov2640_set_contrast hw level0 = (let level = level0 + 3 in
     if level \<le> 0 \<or> level > 5 then ret (- 1)
     else do {
       upd_status (st_contrast_update (\<lambda>_. c_int8 (level - 3)));
       ov2640_write_row hw BANK_DSP (take 7 (ov2640_contrast_regs ! 0))
         (take 7 (ov2640_contrast_regs ! nat level)) })"

definition ov2640_set_brightness :: "'d hw \<Rightarrow> int \<Rightarrow> ('d world, int) state" where
  "ov2640_set_brightness hw level0 = (let level = level0 + 3 in
     if level \<le> 0 \<or> level > 5 then ret (- 1)
     else do {
       upd_status (st_brightness_update (\<lambda>_. c_int8 (level - 3)));
       ov2640_write_row hw BANK_DSP (take 5 (ov2640_brightness_regs ! 0))
         (take 5 (ov2640_brightness_regs ! nat level)) })"

definition ov2640_set_saturation :: "'d hw \<Rightarrow> int \<Rightarrow> ('d world, int) state" where
  "ov2640_set_saturation hw level0 = (let level = level0 + 3 in
     if level \<le> 0 \<or> level > 5 then ret (- 1)
     else do {
       upd_status (st_saturation_update (\<lambda>_. c_int8 (level - 3)));
       ov2640_write_row hw BANK_DSP (take 5 (ov2640_saturation_regs ! 0))
         (take 5 (ov2640_saturation_regs ! nat level)) })"

definition ov2640_set_special_effect :: "'d hw \<Rightarrow> int \<Rightarrow> ('d world, int) state" where
  "ov2640_set_special_effect hw effect0 = (let effect = effect0 + 1 in
     if effect \<le> 0 \<or> effect > 7 then ret (- 1)
     else do {
       upd_status (st_special_effect_update (\<lambda>_. word_of_int (effect - 1)));
       ov2640_write_row hw BANK_DSP (take 5 (ov2640_special_effects_regs ! 0))
         (take 5 (ov2640_special_effects_regs ! nat effect)) })"

definition ov2640_set_wb_mode :: "'d hw \<Rightarrow> int \<Rightarrow> ('d world, int) state" where
  "ov2640_set_wb_mode hw mode =
    (if mode < 0 \<or> mode > 4 then ret (- 1)
     else do {
       upd_status (st_wb_mode_update (\<lambda>_. word_of_int mode));
       or_return (ov2640_set_reg_bits hw BANK_DSP 0xC7 6 1 (if mode \<noteq> 0 then 1 else 0))
         (if mode \<noteq> 0
          then ov2640_write_row hw BANK_DSP (take 3 (ov2640_wb_modes_regs ! 0))
                 (take 3 (ov2640_wb_modes_regs ! nat mode))
          else ret 0) })"

definition ov2640_set_ae_level :: "'d hw \<Rightarrow> int \<Rightarrow> ('d world, int) state" where
  "ov2640_set_ae_level hw level0 = (let level = level0 + 3 in
     if level \<le> 0 \<or> level > 5 then ret (- 1)
     else do {
       upd_status (st_ae_level_update (\<lambda>_. c_int8 (level - 3)));
       ov2640_write_row hw BANK_SENSOR (take 3 (ov2640_ae_levels_regs ! 0))
         (take 3 (ov2640_ae_levels_regs ! nat level)) })"

definition ov2640_set_quality :: "'d hw \<Rightarrow> int \<Rightarrow> ('d world, int) state" where
  "ov2640_set_quality hw quality0 =
    (let quality = (if quality0 < 0 then 0 else if quality0 > 63 then 63 else quality0) in do {
       upd_status (st_quality_update (\<lambda>_. word_of_int quality));
       ov2640_write_reg hw BANK_DSP QS (word_of_int quality) })"

definition ov2640_set_agc_gain :: "'d hw \<Rightarrow> int \<Rightarrow> ('d world, int) state" where
  "ov2640_set_agc_gain hw gain0 =
    (let gain = (if gain0 < 0 then 0 else if gain0 > 30 then 30 else gain0) in do {
       upd_status (st_agc_gain_update (\<lambda>_. word_of_int gain));
       ov2640_write_reg hw BANK_SENSOR GAIN (ov2640_agc_gain_tbl ! nat gain) })"

definition ov2640_set_gainceiling_sensor :: "'d hw \<Rightarrow> int \<Rightarrow> ('d world, int) state" where
  "ov2640_set_gainceiling_sensor hw gainceiling = do {
     upd_status (st_gainceiling_update (\<lambda>_. word_of_int gainceiling));
     ov2640_set_reg_bits hw BANK_SENSOR COM9 5 7 (word_of_int gainceiling) }"

definition ov2640_set_aec_value :: "'d hw \<Rightarrow> int \<Rightarrow> ('d world, int) state" where
  "ov2640_set_aec_value hw value0 =
    (let v = (if value0 < 0 then 0 else if value0 > 1200 then 1200 else value0) in do {
       upd_status (st_aec_value_update (\<lambda>_. word_of_int v));
       c_ors [ov2640_set_reg_bits hw BANK_SENSOR REG04 0 3 (word_of_int (v AND 0x3)),
              ov2640_write_reg hw BANK_SENSOR AEC (word_of_int (drop_bit 2 v AND 0xFF)),
              ov2640_set_reg_bits hw BANK_SENSOR REG45 0 0x3F (word_of_int (drop_bit 10 v))] })"

definition ov2640_set_aec2 :: "'d hw \<Rightarrow> int \<Rightarrow> ('d world, int) state" where
  "ov2640_set_aec2 hw enable = do {
     upd_status (st_aec2_update (\<lambda>_. word_of_int enable));
     ov2640_set_reg_bits hw BANK_DSP CTRL0 6 1 (if enable \<noteq> 0 then 0 else 1) }"

definition ov2640_set_colorbar :: "'d hw \<Rightarrow> int \<Rightarrow> ('d world, int) state" where
  "ov2640_set_colorbar hw enable = do {
     upd_status (st_colorbar_update (\<lambda>_. word_of_int enable));
     ov2640_write_reg_bits hw BANK_SENSOR COM7 COM7_COLOR_BAR (if enable \<noteq> 0 then 1 else 0) }"

definition ov2640_set_agc_sensor :: "'d hw \<Rightarrow> int \<Rightarrow> ('d world, int) state" where
  "ov2640_set_agc_sensor hw enable = do {
     upd_status (st_agc_update (\<lambda>_. word_of_int enable));
     ov2640_write_reg_bits hw BANK_SENSOR COM8 COM8_AGC_EN (if enable \<noteq> 0 then 1 else 0) }"

definition ov2640_set_aec_sensor :: "'d hw \<Rightarrow> int \<Rightarrow> ('d world, int) state" where
  "ov2640_set_aec_sensor hw enable = do {
     upd_status (st_aec_update (\<lambda>_. word_of_int enable));
     ov2640_write_reg_bits hw BANK_SENSOR COM8 COM8_AEC_EN (if enable \<noteq> 0 then 1 else 0) }"

definition ov2640_set_hmirror_sensor :: "'d hw \<Rightarrow> int \<Rightarrow> ('d world, int) state" where
  "ov2640_set_hmirror_sensor hw enable = do {
     upd_status (st_hmirror_update (\<lambda>_. word_of_int enable));
     ov2640_write_reg_bits hw BANK_SENSOR REG04 REG04_HFLIP_IMG (if enable \<noteq> 0 then 1 else 0) }"

text \<open>The two results are combined with the bitwise \<open>&\<close>.\<close>

definition ov2640_set_vflip_sensor :: "'d hw \<Rightarrow> int \<Rightarrow> ('d world, int) state" where
  "ov2640_set_vflip_sensor hw enable = do {
     upd_status (st_vflip_update (\<lambda>_. word_of_int enable));
     r \<leftarrow> ov2640_write_reg_bits hw BANK_SENSOR REG04 REG04_VREF_EN (if enable \<noteq> 0 then 1 else 0);
     q \<leftarrow> ov2640_write_reg_bits hw BANK_SENSOR REG04 REG04_VFLIP_IMG (if enable \<noteq> 0 then 1 else 0);
     ret (r AND q) }"

definition ov2640_set_raw_gma_dsp :: "'d hw \<Rightarrow> int \<Rightarrow> ('d world, int) state" where
  "ov2640_set_raw_gma_dsp hw enable = do {
     upd_status (st_raw_gma_update (\<lambda>_. word_of_int enable));
     ov2640_set_reg_bits hw BANK_DSP CTRL1 5 1 (if enable \<noteq> 0 then 1 else 0) }"

definition ov2640_set_awb_dsp :: "'d hw \<Rightarrow> int \<Rightarrow> ('d world, int) state" where
  "ov2640_set_awb_dsp hw enable = do {
     upd_status (st_awb_update (\<lambda>_. word_of_int enable));
     ov2640_set_reg_bits hw BANK_DSP CTRL1 3 1 (if enable \<noteq> 0 then 1 else 0) }"

definition ov2640_set_awb_gain_dsp :: "'d hw \<Rightarrow> int \<Rightarrow> ('d world, int) state" where
  "ov2640_set_awb_gain_dsp hw enable = do {
     upd_status (st_awb_gain_update (\<lambda>_. word_of_int enable));
     ov2640_set_reg_bits hw BANK_DSP CTRL1 2 1 (if enable \<noteq> 0 then 1 else 0) }"

definition ov2640_set_lenc_dsp :: "'d hw \<Rightarrow> int \<Rightarrow> ('d world, int) state" where
  "ov2640_set_lenc_dsp hw enable = do {
     upd_status (st_lenc_update (\<lambda>_. word_of_int enable));
     ov2640_set_reg_bits hw BANK_DSP CTRL1 1 1 (if enable \<noteq> 0 then 1 else 0) }"

definition ov2640_set_dcw_dsp :: "'d hw \<Rightarrow> int \<Rightarrow> ('d world, int) state" where
  "ov2640_set_dcw_dsp hw enable = do {
     upd_status (st_dcw_update (\<lambda>_. word_of_int enable));
     ov2640_set_reg_bits hw BANK_DSP CTRL2 5 1 (if enable \<noteq> 0 then 1 else 0) }"

definition ov2640_set_bpc_dsp :: "'d hw \<Rightarrow> int \<Rightarrow> ('d world, int) state" where
  "ov2640_set_bpc_dsp hw enable = do {
     upd_status (st_bpc_update (\<lambda>_. word_of_int enable));
     ov2640_set_reg_bits hw BANK_DSP CTRL3 7 1 (if enable \<noteq> 0 then 1 else 0) }"

definition ov2640_set_wpc_dsp :: "'d hw \<Rightarrow> int \<Rightarrow> ('d world, int) state" where
  "ov2640_set_wpc_dsp hw enable = do {
     upd_status (st_wpc_update (\<lambda>_. word_of_int enable));
     ov2640_set_reg_bits hw BANK_DSP CTRL3 6 1 (if enable \<noteq> 0 then 1 else 0) }"

definition ov2640_set_sharpness :: "'d hw \<Rightarrow> int \<Rightarrow> ('d world, int) state" where
  "ov2640_set_sharpness hw level = ret (- 1)"

definition ov2640_set_denoise :: "'d hw \<Rightarrow> int \<Rightarrow> ('d world, int) state" where
  "ov2640_set_denoise hw level = ret (- 1)"

subsection \<open>Raw register access, clock, status read-back\<close>

definition ov2640_get_reg :: "'d hw \<Rightarrow> int \<Rightarrow> int \<Rightarrow> ('d world, int) state" where
  "ov2640_get_reg hw reg msk = do {
     r \<leftarrow> ov2640_read_reg hw (word_of_int (drop_bit 8 reg AND 0x01)) (word_of_int (reg AND 0xFF));
     ret (if r > 0 then r AND msk else r) }"

definition ov2640_set_reg :: "'d hw \<Rightarrow> int \<Rightarrow> int \<Rightarrow> int \<Rightarrow> ('d world, int) state" where
  "ov2640_set_reg hw reg msk v0 = do {
     r \<leftarrow> ov2640_read_reg hw (word_of_int (drop_bit 8 reg AND 0x01)) (word_of_int (reg AND 0xFF));
     if r < 0 then ret r
     else ov2640_write_reg hw (word_of_int (drop_bit 8 reg AND 0x01)) (word_of_int (reg AND 0xFF))
            (word_of_int ((r AND NOT msk) OR (v0 AND msk))) }"

definition ov2640_set_res_raw ::
  "'d hw \<Rightarrow> int \<Rightarrow> int \<Rightarrow> int \<Rightarrow> int \<Rightarrow> int \<Rightarrow> int \<Rightarrow> int \<Rightarrow> int \<Rightarrow> int \<Rightarrow> int \<Rightarrow> bool \<Rightarrow> bool \<Rightarrow>
   ('d world, int) state" where
  "ov2640_set_res_raw hw startX startY endX endY offsetX offsetY totalX totalY outputX outputY
     scale binning = ov2640_set_window hw startX offsetX offsetY totalX totalY outputX outputY"

definition ov2640_set_pll_api ::
  "'d hw \<Rightarrow> int \<Rightarrow> int \<Rightarrow> int \<Rightarrow> int \<Rightarrow> int \<Rightarrow> int \<Rightarrow> int \<Rightarrow> int \<Rightarrow> ('d world, int) state" where
  "ov2640_set_pll_api hw bypass multiplier sys_div root_2x pre_div seld5 pclk_manual pclk_div =
     ret (- 1)"

definition ov2640_set_xclk :: "'d hw \<Rightarrow> int \<Rightarrow> int \<Rightarrow> ('d world, int) state" where
  "ov2640_set_xclk hw timer xclk = do {
     upd_sensor (s_xclk_freq_hz_update (\<lambda>_. sint (word_of_int (xclk * 1000000) :: u32)));
     State (\<lambda>w. case xclk_timer_conf hw timer (s_xclk_freq_hz (sensor w)) (dev w) of
        (e, d) \<Rightarrow> (e, w\<lparr>dev := d\<rparr>)) }"

text \<open>The loop over \<open>agc_gain_tbl\<close>: the first interval the register value falls in, else 30.\<close>

fun ov2640_agc_scan :: "int \<Rightarrow> nat \<Rightarrow> u8 list \<Rightarrow> nat" where
  "ov2640_agc_scan g i (a # b # tbl) =
     (if g \<ge> uint a \<and> g < uint b then i else ov2640_agc_scan g (i + 1) (b # tbl))"
| "ov2640_agc_scan g i _ = 30"

text \<open>
  The operands of the \<open>|\<close> in the \<open>aec_value\<close> line are evaluated from left to right here; C
  leaves their order open.
\<close>

definition ov2640_init_status :: "'d hw \<Rightarrow> ('d world, int) state" where
  "ov2640_init_status hw = do {
     upd_status (st_brightness_update (\<lambda>_. 0));
     upd_status (st_contrast_update (\<lambda>_. 0));
     upd_status (st_saturation_update (\<lambda>_. 0));
     upd_status (st_ae_level_update (\<lambda>_. 0));
     upd_status (st_special_effect_update (\<lambda>_. 0));
     upd_status (st_wb_mode_update (\<lambda>_. 0));
     agc_gain \<leftarrow> ov2640_read_reg hw BANK_SENSOR GAIN;
     upd_status (st_agc_gain_update (\<lambda>_. of_nat (ov2640_agc_scan agc_gain 0 ov2640_agc_gain_tbl)));
     hi \<leftarrow> ov2640_get_reg_bits hw BANK_SENSOR REG45 0 0x3F;
     mid \<leftarrow> ov2640_read_reg hw BANK_SENSOR AEC;
     lo \<leftarrow> ov2640_get_reg_bits hw BANK_SENSOR REG04 0 3;
     upd_status (st_aec_value_update (\<lambda>_. push_bit 10 (ucast hi) OR push_bit 2 (word_of_int mid) OR ucast lo));
     r \<leftarrow> ov2640_read_reg hw BANK_DSP QS;
     upd_status (st_quality_update (\<lambda>_. word_of_int r));
     v \<leftarrow> ov2640_get_reg_bits hw BANK_SENSOR COM9 5 7;
     upd_status (st_gainceiling_update (\<lambda>_. v));
     v \<leftarrow> ov2640_get_reg_bits hw BANK_DSP CTRL1 3 1;
     upd_status (st_awb_update (\<lambda>_. v));
     v \<leftarrow> ov2640_get_reg_bits hw BANK_DSP CTRL1 2 1;
     upd_status (st_awb_gain_update (\<lambda>_. v));
     v \<leftarrow> ov2640_get_reg_bits hw BANK_SENSOR COM8 0 1;
     upd_status (st_aec_update (\<lambda>_. v));
     v \<leftarrow> ov2640_get_reg_bits hw BANK_DSP CTRL0 6 1;
     upd_status (st_aec2_update (\<lambda>_. v));
     v \<leftarrow> ov2640_get_reg_bits hw BANK_SENSOR COM8 2 1;
     upd_status (st_agc_update (\<lambda>_. v));
     v \<leftarrow> ov2640_get_reg_bits hw BANK_DSP CTRL3 7 1;
     upd_status (st_bpc_update (\<lambda>_. v));
     v \<leftarrow> ov2640_get_reg_bits hw BANK_DSP CTRL3 6 1;
     upd_status (st_wpc_update (\<lambda>_. v));
     v \<leftarrow> ov2640_get_reg_bits hw BANK_DSP CTRL1 5 1;
     upd_status (st_raw_gma_update (\<lambda>_. v));
     v \<leftarrow> ov2640_get_reg_bits hw BANK_DSP CTRL1 1 1;
     upd_status (st_lenc_update (\<lambda>_. v));
     v \<leftarrow> ov2640_get_reg_bits hw BANK_SENSOR REG04 7 1;
     upd_status (st_hmirror_update (\<lambda>_. v));
     v \<leftarrow> ov2640_get_reg_bits hw BANK_SENSOR REG04 6 1;
     upd_status (st_vflip_update (\<lambda>_. v));
     v \<leftarrow> ov2640_get_reg_bits hw BANK_DSP CTRL2 5 1;
     upd_status (st_dcw_update (\<lambda>_. v));
     v \<leftarrow> ov2640_get_reg_bits hw BANK_SENSOR COM7 1 1;
     upd_status (st_colorbar_update (\<lambda>_. v));
     upd_status (st_sharpness_update (\<lambda>_. 0));
     upd_status (st_denoise_update (\<lambda>_. 0));
     ret 0 }"

definition ov2640_detect :: "'d hw \<Rightarrow> u8 \<Rightarrow> ('d world, int) state" where
  "ov2640_detect hw slv_addr =
   (if slv_addr = 0x30 then do {
      _ \<leftarrow> SCCB_Write hw slv_addr 0xFF 0x01;
      b \<leftarrow> SCCB_Read hw slv_addr 0x0A;
      let PID = (ucast b :: u16);
      if PID = 0x26 then do {
        upd_sensor (\<lambda>s. s\<lparr>s_id := (s_id s)\<lparr>id_PID := PID\<rparr>\<rparr>);
        v \<leftarrow> SCCB_Read hw slv_addr REG_VER;
        upd_sensor (\<lambda>s. s\<lparr>s_id := (s_id s)\<lparr>id_VER := v\<rparr>\<rparr>);
        l \<leftarrow> SCCB_Read hw slv_addr REG_MIDL;
        upd_sensor (\<lambda>s. s\<lparr>s_id := (s_id s)\<lparr>id_MIDL := l\<rparr>\<rparr>);
        h \<leftarrow> SCCB_Read hw slv_addr REG_MIDH;
        upd_sensor (\<lambda>s. s\<lparr>s_id := (s_id s)\<lparr>id_MIDH := h\<rparr>\<rparr>);
        ret (uint PID) }
      else ret 0 }
    else ret 0)"

definition ov2640_init :: "('d world, int) state" where
  "ov2640_init = do { upd_sensor (s_driver_update (\<lambda>_. Driver CAMERA_OV2640)); ret 0 }"

text \<open>The function table \<open>ov2640_init\<close> installs.\<close>

fun ov2640_call :: "'d hw \<Rightarrow> sensor_op \<Rightarrow> ('d world, int) state" where
  "ov2640_call hw Reset = ov2640_reset hw"
| "ov2640_call hw Init_status = ov2640_init_status hw"
| "ov2640_call hw (Set_pixformat f) = ov2640_set_pixformat hw f"
| "ov2640_call hw (Set_framesize f) = ov2640_set_framesize hw f"
| "ov2640_call hw (Set_contrast l) = ov2640_set_contrast hw l"
| "ov2640_call hw (Set_brightness l) = ov2640_set_brightness hw l"
| "ov2640_call hw (Set_saturation l) = ov2640_set_saturation hw l"
| "ov2640_call hw (Set_quality q) = ov2640_set_quality hw q"
| "ov2640_call hw (Set_colorbar e) = ov2640_set_colorbar hw e"
| "ov2640_call hw (Set_gainceiling l) = ov2640_set_gainceiling_sensor hw l"
| "ov2640_call hw (Set_gain_ctrl e) = ov2640_set_agc_sensor hw e"
| "ov2640_call hw (Set_exposure_ctrl e) = ov2640_set_aec_sensor hw e"
| "ov2640_call hw (Set_hmirror e) = ov2640_set_hmirror_sensor hw e"
| "ov2640_call hw (Set_vflip e) = ov2640_set_vflip_sensor hw e"
| "ov2640_call hw (Set_whitebal e) = ov2640_set_awb_dsp hw e"
| "ov2640_call hw (Set_aec2 e) = ov2640_set_aec2 hw e"
| "ov2640_call hw (Set_aec_value v) = ov2640_set_aec_value hw v"
| "ov2640_call hw (Set_special_effect e) = ov2640_set_special_effect hw e"
| "ov2640_call hw (Set_wb_mode m) = ov2640_set_wb_mode hw m"
| "ov2640_call hw (Set_ae_level l) = ov2640_set_ae_level hw l"
| "ov2640_call hw (Set_dcw e) = ov2640_set_dcw_dsp hw e"
| "ov2640_call hw (Set_bpc e) = ov2640_set_bpc_dsp hw e"
| "ov2640_call hw (Set_wpc e) = ov2640_set_wpc_dsp hw e"
| "ov2640_call hw (Set_awb_gain e) = ov2640_set_awb_gain_dsp hw e"
| "ov2640_call hw (Set_agc_gain g) = ov2640_set_agc_gain hw g"
| "ov2640_call hw (Set_raw_gma e) = ov2640_set_raw_gma_dsp hw e"
| "ov2640_call hw (Set_lenc e) = ov2640_set_lenc_dsp hw e"
| "ov2640_call hw (Set_sharpness l) = ov2640_set_sharpness hw l"
| "ov2640_call hw (Set_denoise l) = ov2640_set_denoise hw l"
| "ov2640_call hw (Get_reg r m) = ov2640_get_reg hw r m"
| "ov2640_call hw (Set_reg r m v) = ov2640_set_reg hw r m v"
| "ov2640_call hw (Set_res_raw sx sy ex ey fx fy tx ty ox oy sc b) =
     ov2640_set_res_raw hw sx sy ex ey fx fy tx ty ox oy sc b"
| "ov2640_call hw (Set_pll b mul sy rt pr s5 pe pc) = ov2640_set_pll_api hw b mul sy rt pr s5 pe pc"
| "ov2640_call hw (Set_xclk t x) = ov2640_set_xclk hw t x"

subsection \<open>What the driver does to the sensor structure, whatever the bus does\<close>

lemmas ov2640_access_defs = ov2640_set_bank_def ov2640_write_reg_def ov2640_set_reg_bits_def
  ov2640_read_reg_def ov2640_get_reg_bits_def ov2640_write_reg_bits_def

lemma keeps_ov2640_access [keeps_rules]:
  "keeps sensor (ov2640_set_bank hw b)" "keeps sensor (ov2640_write_reg hw b r v)"
  "keeps sensor (ov2640_set_reg_bits hw b r off m v)" "keeps sensor (ov2640_read_reg hw b r)"
  "keeps sensor (ov2640_get_reg_bits hw b r off m)" "keeps sensor (ov2640_write_reg_bits hw b r m e)"
  by (simp_all add: ov2640_access_defs keeps_rules)

lemma keeps_ov2640_write_regs [keeps_rules]: "keeps sensor (ov2640_write_regs hw regs)"
  by (induction hw regs rule: ov2640_write_regs.induct) (simp_all add: keeps_rules)

lemma keeps_ov2640_write_row [keeps_rules]: "keeps sensor (ov2640_write_row hw b rs vs)"
  by (induction hw b rs vs rule: ov2640_write_row.induct) (simp_all add: keeps_rules)

text \<open>\<open>assigns f m\<close>: \<open>m\<close> updates the sensor structure by \<open>f\<close>, whatever it returns.\<close>

definition assigns :: "(sensor_t \<Rightarrow> sensor_t) \<Rightarrow> ('d world, 'a) state \<Rightarrow> bool" where
  "assigns f m \<longleftrightarrow> (\<forall>w. sensor (snd (run_state m w)) = f (sensor w))"

lemma assigns_keeps: "keeps sensor m \<Longrightarrow> assigns (\<lambda>s. s) m"
  by (simp add: assigns_def keeps_def)

lemma assigns_status: "keeps sensor m \<Longrightarrow> assigns (on_status f) (do { upd_status f; m })"
  by (simp add: assigns_def keeps_def on_status_def)

lemma assigns_sensor: "keeps sensor m \<Longrightarrow> assigns f (do { upd_sensor f; m })"
  by (simp add: assigns_def keeps_def)

text \<open>
  The abstract specification: the sensor structure after a call, a function of the arguments
  alone. \<open>None\<close> for \<open>init_status\<close>, which reads the sensor, and \<open>set_xclk\<close>.
\<close>

fun ov2640_spec :: "sensor_op \<Rightarrow> (sensor_t \<Rightarrow> sensor_t) option" where
  "ov2640_spec (Set_pixformat f) = Some (s_pixformat_update (\<lambda>_. f))"
| "ov2640_spec (Set_framesize f) = Some (on_status (st_framesize_update (\<lambda>_. f)))"
| "ov2640_spec (Set_contrast l) =
     Some (if \<bar>l\<bar> \<le> 2 then on_status (st_contrast_update (\<lambda>_. l)) else (\<lambda>s. s))"
| "ov2640_spec (Set_brightness l) =
     Some (if \<bar>l\<bar> \<le> 2 then on_status (st_brightness_update (\<lambda>_. l)) else (\<lambda>s. s))"
| "ov2640_spec (Set_saturation l) =
     Some (if \<bar>l\<bar> \<le> 2 then on_status (st_saturation_update (\<lambda>_. l)) else (\<lambda>s. s))"
| "ov2640_spec (Set_ae_level l) =
     Some (if \<bar>l\<bar> \<le> 2 then on_status (st_ae_level_update (\<lambda>_. l)) else (\<lambda>s. s))"
| "ov2640_spec (Set_special_effect e) =
     Some (if 0 \<le> e \<and> e \<le> 6 then on_status (st_special_effect_update (\<lambda>_. word_of_int e)) else (\<lambda>s. s))"
| "ov2640_spec (Set_wb_mode m) =
     Some (if 0 \<le> m \<and> m \<le> 4 then on_status (st_wb_mode_update (\<lambda>_. word_of_int m)) else (\<lambda>s. s))"
| "ov2640_spec (Set_quality q) =
     Some (on_status (st_quality_update (\<lambda>_. word_of_int (max 0 (min 63 q)))))"
| "ov2640_spec (Set_agc_gain g) =
     Some (on_status (st_agc_gain_update (\<lambda>_. word_of_int (max 0 (min 30 g)))))"
| "ov2640_spec (Set_aec_value v) =
     Some (on_status (st_aec_value_update (\<lambda>_. word_of_int (max 0 (min 1200 v)))))"
| "ov2640_spec (Set_gainceiling l) = Some (on_status (st_gainceiling_update (\<lambda>_. word_of_int l)))"
| "ov2640_spec (Set_aec2 e) = Some (on_status (st_aec2_update (\<lambda>_. word_of_int e)))"
| "ov2640_spec (Set_colorbar e) = Some (on_status (st_colorbar_update (\<lambda>_. word_of_int e)))"
| "ov2640_spec (Set_gain_ctrl e) = Some (on_status (st_agc_update (\<lambda>_. word_of_int e)))"
| "ov2640_spec (Set_exposure_ctrl e) = Some (on_status (st_aec_update (\<lambda>_. word_of_int e)))"
| "ov2640_spec (Set_hmirror e) = Some (on_status (st_hmirror_update (\<lambda>_. word_of_int e)))"
| "ov2640_spec (Set_vflip e) = Some (on_status (st_vflip_update (\<lambda>_. word_of_int e)))"
| "ov2640_spec (Set_raw_gma e) = Some (on_status (st_raw_gma_update (\<lambda>_. word_of_int e)))"
| "ov2640_spec (Set_whitebal e) = Some (on_status (st_awb_update (\<lambda>_. word_of_int e)))"
| "ov2640_spec (Set_awb_gain e) = Some (on_status (st_awb_gain_update (\<lambda>_. word_of_int e)))"
| "ov2640_spec (Set_lenc e) = Some (on_status (st_lenc_update (\<lambda>_. word_of_int e)))"
| "ov2640_spec (Set_dcw e) = Some (on_status (st_dcw_update (\<lambda>_. word_of_int e)))"
| "ov2640_spec (Set_bpc e) = Some (on_status (st_bpc_update (\<lambda>_. word_of_int e)))"
| "ov2640_spec (Set_wpc e) = Some (on_status (st_wpc_update (\<lambda>_. word_of_int e)))"
| "ov2640_spec Init_status = None"
| "ov2640_spec (Set_xclk t x) = None"
| "ov2640_spec _ = Some (\<lambda>s. s)"

lemma assigns_ov2640_set_pixformat: "assigns (s_pixformat_update (\<lambda>_. f)) (ov2640_set_pixformat hw f)"
  unfolding ov2640_set_pixformat_def
  by (rule assigns_sensor) (cases f; simp add: keeps_rules)

lemma wp_keeps_or_return:
  assumes "keeps sensor m" "\<And>v'. sensor v' = sensor v \<Longrightarrow> wp k (\<lambda>_ u. sensor u = sensor v') v'"
  shows "wp (or_return m k) (\<lambda>_ u. sensor u = sensor v) v"
  unfolding wp_or_return
  by (rule wp_keeps [where f = sensor, OF assms(1)]) (use assms(2) in auto)

lemma keeps_ov2640_set_window: "keeps sensor (ov2640_set_window hw mode ox oy mx my w h)"
proof (rule keeps_wpI)
  fix v :: "'a world"
  have pf: "wp (do { delay_ms hw 10; _ \<leftarrow> ov2640_set_pixformat hw (s_pixformat (sensor v)); ret 0 })
      (\<lambda>_ u'. sensor u' = sensor u) u" if "sensor u = sensor v" for u
    using assigns_ov2640_set_pixformat [of "s_pixformat (sensor v)" hw] that
    by (simp add: assigns_def wp_def split_beta)
  show "wp (ov2640_set_window hw mode ox oy mx my w h) (\<lambda>_ v'. sensor v' = sensor v) v"
    unfolding ov2640_set_window_def Let_def case_prod_beta wp_bind wp_gets
    by (rule wp_keeps_or_return, rule keeps_rules)+ (rule pf, simp)
qed

lemma assigns_ov2640:
  "ov2640_spec op = Some f \<Longrightarrow> assigns f (ov2640_call hw op)"
proof (cases op)
  case (Set_framesize fs)
  assume "ov2640_spec op = Some f"
  then show ?thesis
    by (auto simp: Set_framesize ov2640_set_framesize_def Let_def case_prod_beta
        intro!: assigns_status keeps_ov2640_set_window)
qed (auto simp: ov2640_set_contrast_def ov2640_set_brightness_def
    ov2640_set_saturation_def ov2640_set_special_effect_def ov2640_set_wb_mode_def
    ov2640_set_ae_level_def ov2640_set_quality_def ov2640_set_agc_gain_def
    ov2640_set_gainceiling_sensor_def ov2640_set_aec_value_def ov2640_set_aec2_def
    ov2640_set_colorbar_def ov2640_set_agc_sensor_def ov2640_set_aec_sensor_def
    ov2640_set_hmirror_sensor_def ov2640_set_vflip_sensor_def ov2640_set_raw_gma_dsp_def
    ov2640_set_awb_dsp_def ov2640_set_awb_gain_dsp_def ov2640_set_lenc_dsp_def
    ov2640_set_dcw_dsp_def ov2640_set_bpc_dsp_def ov2640_set_wpc_dsp_def ov2640_set_sharpness_def
    ov2640_set_denoise_def ov2640_get_reg_def ov2640_set_reg_def ov2640_set_res_raw_def
    ov2640_set_pll_api_def ov2640_reset_def Let_def max_def min_def split: if_splits
    intro!: assigns_ov2640_set_pixformat assigns_status assigns_keeps keeps_rules
      keeps_ov2640_set_window)

subsection \<open>The driver on a banked register device\<close>

text \<open>
  A sensor with two banks of registers behind the bank-select register 0xFF. \<open>plain b r\<close>:
  register \<open>r\<close> of bank \<open>b\<close> keeps what is written to it. A world stands for the banks \<open>B\<close> only if
  the driver's bank cache is coherent: it is still \<open>BANK_MAX\<close>, or it is the bank the sensor
  has selected.
\<close>

locale banked_dev8 = sccb_dev8 hw port slv reg wr sel after_read
  for hw :: "'d hw" and port slv reg wr sel after_read +
  fixes bank :: "'d \<Rightarrow> u8" and breg :: "'d \<Rightarrow> u8 \<Rightarrow> u8 \<Rightarrow> u8" and plain :: "u8 \<Rightarrow> u8 \<Rightarrow> bool"
  assumes reg_breg: "plain (bank d) r \<Longrightarrow> reg d r = breg d (bank d) r"
    and select_bank: "b \<le> 1 \<Longrightarrow> bank (wr 0xFF b d) = b"
    and select_breg: "b \<le> 1 \<Longrightarrow> plain c q \<Longrightarrow> breg (wr 0xFF b d) c q = breg d c q"
    and wr_bank: "plain (bank d) r \<Longrightarrow> bank (wr r v d) = bank d"
    and wr_breg: "plain (bank d) r \<Longrightarrow> plain c q \<Longrightarrow>
      breg (wr r v d) c q = (if c = bank d \<and> q = r then v else breg d c q)"
    and read_bank: "plain (bank d) r \<Longrightarrow> bank (after_read r d) = bank d"
    and read_breg: "plain (bank d) r \<Longrightarrow> plain c q \<Longrightarrow> breg (after_read r d) c q = breg d c q"
    and delay_bank: "bank (vTaskDelay_ms hw ms d) = bank d"
    and delay_breg: "plain c q \<Longrightarrow> breg (vTaskDelay_ms hw ms d) c q = breg d c q"
begin

definition stands :: "'d world \<Rightarrow> sensor_t \<Rightarrow> (u8 \<Rightarrow> u8 \<Rightarrow> u8) \<Rightarrow> bool" where
  "stands v s B \<longleftrightarrow> sccb_i2c_port v = port \<and> sensor v = s \<and> s_slv_addr s = slv \<and>
     (reg_bank v = 2 \<or> reg_bank v \<le> 1 \<and> bank (dev v) = reg_bank v) \<and>
     (\<forall>b r. plain b r \<longrightarrow> breg (dev v) b r = B b r)"

lemma standsI:
  "sccb_i2c_port v = port \<Longrightarrow> s_slv_addr (sensor v) = slv \<Longrightarrow>
   reg_bank v = 2 \<or> reg_bank v \<le> 1 \<and> bank (dev v) = reg_bank v \<Longrightarrow> stands v (sensor v) (breg (dev v))"
  by (simp add: stands_def)

lemma stands_reg: "stands v s B \<Longrightarrow> plain b r \<Longrightarrow> breg (dev v) b r = B b r"
  by (simp add: stands_def)

lemma stands_coherent: "stands v s B \<Longrightarrow> reg_bank v = 2 \<or> reg_bank v \<le> 1 \<and> bank (dev v) = reg_bank v"
  by (simp add: stands_def)

end

sublocale banked_dev8 < reg_view slv stands
  by unfold_locales (auto simp: stands_def)

text \<open>Writing one register of one bank.\<close>

definition bput :: "(u8 \<Rightarrow> u8 \<Rightarrow> u8) \<Rightarrow> u8 \<Rightarrow> u8 \<Rightarrow> u8 \<Rightarrow> u8 \<Rightarrow> u8 \<Rightarrow> u8" where
  "bput B b r v = B(b := (B b)(r := v))"

lemma bput_apply [simp]: "bput B b r v c q = (if c = b \<and> q = r then v else B c q)"
  by (simp add: bput_def)

context banked_dev8
begin

lemmas axioms_view = reg_view_axioms

text \<open>After selecting a bank the world still stands for the same registers, with that bank cached.\<close>

lemma run_set_bank:
  assumes "stands v s B" "b \<le> 1"
  obtains v' where "run_state (ov2640_set_bank hw b) v = (0, v')" "stands v' s B" "reg_bank v' = b"
    "bank (dev v') = b"
  using assms that
  by (cases "reg_bank v = b")
    (auto simp: ov2640_set_bank_def stands_def run_SCCB_Write select_bank select_breg word_le_nat_alt)

lemma sim_set_bank [sim_rules]: "b \<le> 1 \<Longrightarrow> sim (ov2640_set_bank hw b) s B 0 s B"
  by (rule simI) (metis run_set_bank)

lemma sim_ov2640_write_reg [sim_rules]:
  assumes "b \<le> 1" "plain b r"
  shows "sim (ov2640_write_reg hw b r v) s B 0 s (bput B b r v)"
proof (rule simI)
  fix u assume "stands u s B"
  from this assms(1) obtain u' where "run_state (ov2640_set_bank hw b) u = (0, u')" "stands u' s B"
    "reg_bank u' = b" "bank (dev u') = b"
    by (rule run_set_bank)
  then show "\<exists>u'. run_state (ov2640_write_reg hw b r v) u = (0, u') \<and> stands u' s (bput B b r v)"
    using assms
    by (auto simp: ov2640_write_reg_def stands_def run_SCCB_Write wr_bank wr_breg)
qed

lemma sim_ov2640_set_reg_bits [sim_rules]:
  assumes "b \<le> 1" "plain b r"
  shows "sim (ov2640_set_reg_bits hw b r off m v) s B 0 s
    (bput B b r ((B b r AND NOT (push_bit off m)) OR push_bit off (v AND m)))"
proof (rule simI)
  fix u assume "stands u s B"
  from this assms(1) obtain u' where "run_state (ov2640_set_bank hw b) u = (0, u')" "stands u' s B"
    "reg_bank u' = b" "bank (dev u') = b"
    by (rule run_set_bank)
  then show "\<exists>u'. run_state (ov2640_set_reg_bits hw b r off m v) u = (0, u') \<and>
      stands u' s (bput B b r ((B b r AND NOT (push_bit off m)) OR push_bit off (v AND m)))"
    using assms
    by (auto simp: ov2640_set_reg_bits_def stands_def run_SCCB_Write run_SCCB_Read wr_bank wr_breg
        read_bank read_breg reg_breg)
qed

lemma sim_ov2640_read_reg [sim_rules]:
  assumes "b \<le> 1" "plain b r"
  shows "sim (ov2640_read_reg hw b r) s B (uint (B b r)) s B"
proof (rule simI)
  fix u assume "stands u s B"
  from this assms(1) obtain u' where "run_state (ov2640_set_bank hw b) u = (0, u')" "stands u' s B"
    "reg_bank u' = b" "bank (dev u') = b"
    by (rule run_set_bank)
  then show "\<exists>u'. run_state (ov2640_read_reg hw b r) u = (uint (B b r), u') \<and> stands u' s B"
    using assms
    by (auto simp: ov2640_read_reg_def stands_def run_SCCB_Read read_bank read_breg reg_breg)
qed

lemma sim_ov2640_get_reg_bits [sim_rules]:
  assumes "b \<le> 1" "plain b r"
  shows "sim (ov2640_get_reg_bits hw b r off m) s B (drop_bit off (B b r) AND m) s B"
proof -
  have "drop_bit off (uint (B b r)) AND uint m = uint (drop_bit off (B b r) AND m)"
    by (rule bit_eqI) (auto simp: bit_simps bit_uint_iff dest: bit_imp_le_length)
  then show ?thesis
    unfolding ov2640_get_reg_bits_def by - (rule sim_conv, (rule sim_rules assms)+, simp_all)
qed

lemma sim_ov2640_write_reg_bits [sim_rules]:
  assumes "b \<le> 1" "plain b r"
  shows "sim (ov2640_write_reg_bits hw b r m e) s B 0 s (bput B b r (put_bits (B b r) m (e \<noteq> 0)))"
  unfolding ov2640_write_reg_bits_def
  by (rule sim_conv, (rule sim_rules assms)+) (simp_all add: put_bits_def)

lemma sim_delay [sim_rules]: "sim (delay_ms hw ms) s B () s B"
  by (rule simI) (auto simp: stands_def delay_bank delay_breg)

end

text \<open>Loading a table: the bank selected and the registers afterwards, and what it writes.\<close>

fun bload :: "(u8 \<times> u8) list \<Rightarrow> u8 \<Rightarrow> (u8 \<Rightarrow> u8 \<Rightarrow> u8) \<Rightarrow> u8 \<times> (u8 \<Rightarrow> u8 \<Rightarrow> u8)" where
  "bload [] b B = (b, B)"
| "bload ((r, v) # t) b B =
     (if r = 0 then (b, B) else if r = 0xFF then bload t v B else bload t b (bput B b r v))"

fun btouched :: "(u8 \<times> u8) list \<Rightarrow> u8 \<Rightarrow> (u8 \<times> u8) list" where
  "btouched [] b = []"
| "btouched ((r, v) # t) b =
     (if r = 0 then [] else if r = 0xFF then btouched t v else (b, r) # btouched t b)"

fun banks_ok :: "(u8 \<times> u8) list \<Rightarrow> bool" where
  "banks_ok [] = True"
| "banks_ok ((r, v) # t) = (r = 0 \<or> (r = 0xFF \<longrightarrow> v \<le> 1) \<and> banks_ok t)"

lemma bload_untouched: "(c, q) \<notin> set (btouched t b) \<Longrightarrow> snd (bload t b B) c q = B c q"
  by (induction t b B rule: bload.induct) auto

definition ov2640_window_regs :: "u8 list" where
  "ov2640_window_regs = [0x51, 0x52, 0x53, 0x54, 0x55, 0x57, 0x5a, 0x5b, 0x5c]"

definition pixformat_table_ok :: "(u8 \<times> u8) list \<Rightarrow> bool" where
  "pixformat_table_ok t \<longleftrightarrow> t \<noteq> [] \<and> hd t = (0xFF, 0) \<and> banks_ok (tl t) \<and>
     list_all (\<lambda>p. snd p \<notin> set ov2640_window_regs) (btouched (tl t) 0)"

lemma pixformat_tables:
  "pixformat_table_ok ov2640_settings_rgb565" "pixformat_table_ok ov2640_settings_yuv422"
  "pixformat_table_ok ov2640_settings_jpeg3"
  by (simp_all add: pixformat_table_ok_def ov2640_settings_rgb565_def ov2640_settings_yuv422_def
      ov2640_settings_jpeg3_def ov2640_window_regs_def)

definition mode_table_ok :: "(u8 \<times> u8) list \<Rightarrow> bool" where
  "mode_table_ok t \<longleftrightarrow> t \<noteq> [] \<and> fst (hd t) = 0xFF \<and> snd (hd t) \<le> 1 \<and> banks_ok (tl t)"

lemma mode_tables:
  "mode_table_ok ov2640_settings_to_cif" "mode_table_ok ov2640_settings_to_svga"
  "mode_table_ok ov2640_settings_to_uxga"
  by (simp_all add: mode_table_ok_def ov2640_settings_to_cif_def ov2640_settings_to_svga_def
      ov2640_settings_to_uxga_def)

context banked_dev8
begin

lemma run_write_regs:
  assumes "stands v s B" "reg_bank v = b" "b \<le> 1" "banks_ok t"
    and "\<And>c q. c \<le> 1 \<Longrightarrow> q \<noteq> 0xFF \<Longrightarrow> plain c q"
  shows "\<exists>v'. run_state (ov2640_write_regs hw t) v = (0, v') \<and> stands v' s (snd (bload t b B)) \<and>
    reg_bank v' = fst (bload t b B) \<and> fst (bload t b B) \<le> 1"
  using assms(1-4)
proof (induction t b B arbitrary: v rule: bload.induct)
  case IH: (2 r x t b B)
  note plain = assms(5)
  consider "r = 0" | "r \<noteq> 0" "r = 0xFF" | "r \<noteq> 0" "r \<noteq> 0xFF" by blast
  then show ?case
  proof cases
    case 1
    then show ?thesis using IH.prems by simp
  next
    case 2
    then have "x \<le> 1" "banks_ok t" using IH.prems(4) by simp_all
    moreover obtain u where "run_state (ov2640_set_bank hw x) v = (0, u)" "stands u s B" "reg_bank u = x"
      using run_set_bank [OF IH.prems(1) \<open>x \<le> 1\<close>] by metis
    ultimately show ?thesis
      using IH.IH(1) [of u] 2 by simp
  next
    case 3
    have bank: "bank (dev v) = b"
      using IH.prems(1-3) by (auto simp: stands_def word_le_nat_alt)
    have pl: "plain (bank (dev v)) r"
      using plain [of b r] IH.prems(3) 3 by (simp add: bank)
    have "stands (v\<lparr>dev := wr r x (dev v)\<rparr>) s (bput B b r x)"
      using IH.prems(1,2) pl wr_bank [OF pl, of x] wr_breg [OF pl, where v = x]
      by (auto simp: stands_def bank)
    moreover have "sccb_i2c_port v = port" "s_slv_addr (sensor v) = slv"
      using IH.prems(1) by (auto simp: stands_def)
    ultimately show ?thesis
      using IH.IH(2) [of "v\<lparr>dev := wr r x (dev v)\<rparr>"] 3 IH.prems
      by (simp add: run_SCCB_Write del: bput_apply)
  qed
qed auto

text \<open>A table that starts with a bank selection does not depend on the bank before it.\<close>

lemma sim_write_regs:
  assumes "b \<le> 1" "banks_ok t" "\<And>c q. c \<le> 1 \<Longrightarrow> q \<noteq> 0xFF \<Longrightarrow> plain c q"
  shows "sim (ov2640_write_regs hw ((0xFF, b) # t)) s B 0 s (snd (bload t b B))"
proof (rule simI)
  fix v assume "stands v s B"
  then obtain u where u: "run_state (ov2640_set_bank hw b) v = (0, u)" "stands u s B" "reg_bank u = b"
    using run_set_bank [OF _ assms(1)] by metis
  show "\<exists>v'. run_state (ov2640_write_regs hw ((0xFF, b) # t)) v = (0, v') \<and>
      stands v' s (snd (bload t b B))"
    using run_write_regs [OF u(2,3) assms] u(1) by auto
qed

lemma sim_ov2640_set_pixformat:
  assumes "\<And>c q. c \<le> 1 \<Longrightarrow> q \<noteq> 0xFF \<Longrightarrow> plain c q"
    and "f \<in> {PIXFORMAT_RGB565, PIXFORMAT_RGB888, PIXFORMAT_YUV422, PIXFORMAT_GRAYSCALE, PIXFORMAT_JPEG}"
  shows "\<exists>B'. sim (ov2640_set_pixformat hw f) s B 0 (s\<lparr>s_pixformat := f\<rparr>) B' \<and>
    (\<forall>c q. q \<in> set ov2640_window_regs \<longrightarrow> B' c q = B c q)"
proof -
  have tab: "\<exists>B'. sim (ov2640_write_regs hw t) (s\<lparr>s_pixformat := f\<rparr>) B 0 (s\<lparr>s_pixformat := f\<rparr>) B' \<and>
    (\<forall>c q. q \<in> set ov2640_window_regs \<longrightarrow> B' c q = B c q)"
    if t: "t = ov2640_settings_rgb565 \<or> t = ov2640_settings_yuv422 \<or> t = ov2640_settings_jpeg3" for t
  proof -
    have ok: "pixformat_table_ok t" using t pixformat_tables by blast
    then obtain t' where t': "t = (0xFF, 0) # t'" "banks_ok t'" by (cases t) (auto simp: pixformat_table_ok_def)
    have "(c, q) \<notin> set (btouched t' 0)" if "q \<in> set ov2640_window_regs" for c q
      using ok that by (auto simp: pixformat_table_ok_def t'(1) list_all_iff)
    then show ?thesis
      using sim_write_regs [OF _ t'(2) assms(1), of 0]
      by (intro exI [where x = "snd (bload t' 0 B)"] conjI) (auto simp: t'(1) bload_untouched)
  qed
  define tb where "tb = (if f = PIXFORMAT_JPEG then ov2640_settings_jpeg3
         else if f = PIXFORMAT_RGB565 \<or> f = PIXFORMAT_RGB888 then ov2640_settings_rgb565
         else ov2640_settings_yuv422)"
  have tb: "tb = ov2640_settings_rgb565 \<or> tb = ov2640_settings_yuv422 \<or> tb = ov2640_settings_jpeg3"
    by (simp add: tb_def)
  have split: "(case f of PIXFORMAT_RGB565 \<Rightarrow> ov2640_write_regs hw ov2640_settings_rgb565
       | PIXFORMAT_RGB888 \<Rightarrow> ov2640_write_regs hw ov2640_settings_rgb565
       | PIXFORMAT_YUV422 \<Rightarrow> ov2640_write_regs hw ov2640_settings_yuv422
       | PIXFORMAT_GRAYSCALE \<Rightarrow> ov2640_write_regs hw ov2640_settings_yuv422
       | PIXFORMAT_JPEG \<Rightarrow> ov2640_write_regs hw ov2640_settings_jpeg3
       | _ \<Rightarrow> ret (- 1)) = ov2640_write_regs hw tb"
    using assms(2) by (auto simp: tb_def)
  obtain B' where B': "sim (ov2640_write_regs hw tb) (s\<lparr>s_pixformat := f\<rparr>) B 0 (s\<lparr>s_pixformat := f\<rparr>) B'"
    "\<forall>c q. q \<in> set ov2640_window_regs \<longrightarrow> B' c q = B c q"
    using tab [OF tb] by blast
  have "sim (ov2640_set_pixformat hw f) s B 0 (s\<lparr>s_pixformat := f\<rparr>) B'"
    unfolding ov2640_set_pixformat_def split
    by (rule sim_bind, rule sim_upd_sensor, simp, rule sim_bind, rule B'(1), (rule sim_rules refl)+)
  with B'(2) show ?thesis by blast
qed

lemma sim_ov2640_set_window:
  assumes pl: "\<And>c q. c \<le> 1 \<Longrightarrow> q \<noteq> 0xFF \<Longrightarrow> plain c q"
    and pf: "s_pixformat s \<in> {PIXFORMAT_RGB565, PIXFORMAT_RGB888, PIXFORMAT_YUV422,
      PIXFORMAT_GRAYSCALE, PIXFORMAT_JPEG}"
  shows "\<exists>B'. sim (ov2640_set_window hw mode ox oy mx my w h) s B 0 s B' \<and>
    (\<forall>q \<in> set ov2640_window_regs. Some (B' 0 q) =
       map_of (ov2640_win_regs ox oy (mx sdiv 4) (my sdiv 4) (w sdiv 4) (h sdiv 4)) q)"
proof -
  define wr_tab where "wr_tab = ov2640_win_regs ox oy (mx sdiv 4) (my sdiv 4) (w sdiv 4) (h sdiv 4)"
  define tb where "tb = (if mode = OV2640_MODE_CIF then ov2640_settings_to_cif
     else if mode = OV2640_MODE_SVGA then ov2640_settings_to_svga else ov2640_settings_to_uxga)"
  obtain clk pclk where clk: "ov2640_clk (s_pixformat s) mode = (clk, pclk)" by fastforce
  have "mode_table_ok tb" using mode_tables by (simp add: tb_def)
  then obtain b where b: "tb = (0xFF, b) # tl tb" "b \<le> 1" "banks_ok (tl tb)"
    by (cases tb) (auto simp: mode_table_ok_def)
  have win: "wr_tab = (0xFF, 0) # tl wr_tab" "banks_ok (tl wr_tab)"
    by (simp_all add: wr_tab_def ov2640_win_regs_def)
  define B1 where "B1 = snd (bload (tl tb) b (bput B 0 5 1))"
  define B2 where "B2 = snd (bload (tl wr_tab) 0 B1)"
  define B3 where "B3 = bput (bput (bput B2 1 0x11 clk) 0 0xd3 pclk) 0 5 0"
  obtain B4 where B4: "sim (ov2640_set_pixformat hw (s_pixformat s)) s B3 0 (s\<lparr>s_pixformat := s_pixformat s\<rparr>) B4"
    "\<forall>c q. q \<in> set ov2640_window_regs \<longrightarrow> B4 c q = B3 c q"
    using sim_ov2640_set_pixformat [OF pl pf] by blast
  have t1: "sim (ov2640_write_regs hw tb) s (bput B 0 5 1) 0 s B1"
    using sim_write_regs [OF b(2,3) pl] b(1) unfolding B1_def by simp
  have t2: "sim (ov2640_write_regs hw wr_tab) s B1 0 s B2"
    using sim_write_regs [OF _ win(2) pl, of 0] win(1) unfolding B2_def by simp
  have wr: "c \<le> 1 \<Longrightarrow> q \<noteq> 0xFF \<Longrightarrow> sim (ov2640_write_reg hw c q v) s A 0 s (bput A c q v)" for c q v A
    by (rule sim_ov2640_write_reg) (simp_all add: pl)
  have last: "sim (do { delay_ms hw 10; _ \<leftarrow> ov2640_set_pixformat hw (s_pixformat s); ret 0 }) s B3 0 s B4"
    by (rule sim_bind, rule sim_delay, rule sim_bind, rule sim_conv [OF B4(1)]) (simp_all, rule sim_return)
  have "sim (ov2640_set_window hw mode ox oy mx my w h) s B 0 s B4"
    unfolding ov2640_set_window_def Let_def
    by (rule sim_bind [OF sim_gets_sensor],
        unfold clk case_prod_conv wr_tab_def [symmetric] tb_def [symmetric],
        rule sim_or_return [OF wr sim_or_return [OF t1 sim_or_return [OF t2 sim_or_return
          [OF wr sim_or_return [OF wr sim_or_return [OF wr last [unfolded B3_def]]]]]]])
      simp_all
  moreover have "Some (B4 0 q) = map_of wr_tab q" if q: "q \<in> set ov2640_window_regs" for q
  proof -
    obtain v1 v2 v3 v4 v5 v6 v7 v8 v9 where t: "wr_tab = [(0xFF, 0), (0x51, v1), (0x52, v2), (0x53, v3),
        (0x54, v4), (0x55, v5), (0x57, v6), (0x5a, v7), (0x5b, v8), (0x5c, v9), (0, 0)]"
      by (simp only: wr_tab_def ov2640_win_regs_def)
    have "list_all (\<lambda>q. Some (B3 0 q) = map_of wr_tab q) ov2640_window_regs"
      by (simp add: ov2640_window_regs_def B3_def B2_def t)
    then show ?thesis using q B4(2) by (simp add: list_all_iff)
  qed
  ultimately show ?thesis
    unfolding wr_tab_def by blast
qed

end

text \<open>
  The window geometry a register bank encodes, in units of four pixels for the sizes: the sensor
  keeps bits 8 and 9 of the horizontal size in VHYX and TEST, bit 8 of the vertical size and the
  high bits of the offsets in VHYX, and the high bits of the output size in ZMHH.
\<close>

definition ov2640_window_of :: "(u8 \<Rightarrow> u8) \<Rightarrow> int \<times> int \<times> int \<times> int \<times> int \<times> int" where
  "ov2640_window_of D =
    (uint (D 0x53) OR push_bit 8 (uint (D 0x55) AND 0x07),
     uint (D 0x54) OR push_bit 8 (drop_bit 4 (uint (D 0x55)) AND 0x07),
     uint (D 0x51) OR push_bit 8 (drop_bit 3 (uint (D 0x55)) AND 0x01)
       OR push_bit 9 (drop_bit 7 (uint (D 0x57)) AND 0x01),
     uint (D 0x52) OR push_bit 8 (drop_bit 7 (uint (D 0x55)) AND 0x01),
     uint (D 0x5a) OR push_bit 8 (uint (D 0x5c) AND 0x03),
     uint (D 0x5b) OR push_bit 8 (drop_bit 2 (uint (D 0x5c)) AND 0x01))"

lemma small_masks:
  "(1 :: int) = mask 1" "(3 :: int) = mask 2" "(7 :: int) = mask 3" "(255 :: int) = mask 8"
  "(8 :: int) = push_bit 3 (mask 1)" "(4 :: int) = push_bit 2 (mask 1)"
  "(128 :: int) = push_bit 7 (mask 1)" "(112 :: int) = push_bit 4 (mask 3)"
  by (simp_all add: mask_eq_exp_minus_1)

lemma power_bits:
  "bit (256 :: int) n \<longleftrightarrow> n = 8" "bit (512 :: int) n \<longleftrightarrow> n = 9" "bit (128 :: int) n \<longleftrightarrow> n = 7"
  "bit (8 :: int) n \<longleftrightarrow> n = 3" "bit (4 :: int) n \<longleftrightarrow> n = 2"
  using bit_exp_iff [of 8 n, where 'a = int] bit_exp_iff [of 9 n, where 'a = int]
    bit_exp_iff [of 7 n, where 'a = int] bit_exp_iff [of 3 n, where 'a = int]
    bit_exp_iff [of 2 n, where 'a = int]
  by auto

lemma ov2640_window_codec:
  assumes D: "\<forall>q \<in> set ov2640_window_regs. Some (D q) = map_of (ov2640_win_regs ox oy mx my w h) q"
  shows "ov2640_window_of D = (take_bit 11 ox, take_bit 11 oy, take_bit 10 mx, take_bit 9 my,
     take_bit 10 w, take_bit 9 h)"
proof -
  have regs: "D 0x51 = word_of_int (mx AND 0xFF)" "D 0x52 = word_of_int (my AND 0xFF)"
    "D 0x53 = word_of_int (ox AND 0xFF)" "D 0x54 = word_of_int (oy AND 0xFF)"
    "D 0x55 = word_of_int ((drop_bit 1 my AND 0x80) OR (drop_bit 4 oy AND 0x70)
              OR (drop_bit 5 mx AND 0x08) OR (drop_bit 8 ox AND 0x07))"
    "D 0x57 = word_of_int (drop_bit 2 mx AND 0x80)" "D 0x5a = word_of_int (w AND 0xFF)"
    "D 0x5b = word_of_int (h AND 0xFF)"
    "D 0x5c = word_of_int ((drop_bit 6 h AND 0x04) OR (drop_bit 8 w AND 0x03))"
    using D by (simp_all only: ov2640_window_regs_def ov2640_win_regs_def) simp_all
  show ?thesis
    unfolding ov2640_window_of_def regs prod.inject small_masks
  proof ((intro conjI; rule bit_eqI), goal_cases)
    case (1 n)
    consider "n < 8" | "n = 8" | "n = 9" | "n = 10" | "n > 10" by linarith
    then show ?case by cases (auto simp: bit_simps power_bits)
  next
    case (2 n)
    consider "n < 8" | "n = 8" | "n = 9" | "n = 10" | "n > 10" by linarith
    then show ?case by cases (auto simp: bit_simps power_bits)
  next
    case (3 n) then show ?case by (cases "n = 9"; cases "n = 8"; cases "n < 8") (auto simp: bit_simps power_bits)
  next
    case (4 n) then show ?case by (cases "n = 8"; cases "n < 8") (auto simp: bit_simps power_bits)
  next
    case (5 n) then show ?case by (cases "8 \<le> n") (auto simp: bit_simps power_bits)
  next
    case (6 n) then show ?case by (cases "n = 8"; cases "n < 8") (auto simp: bit_simps power_bits)
  qed
qed

text \<open>The status that the register banks stand for (\<open>init_status\<close> as a pure function).\<close>

definition ov2640_status_of :: "(u8 \<Rightarrow> u8 \<Rightarrow> u8) \<Rightarrow> camera_status_t \<Rightarrow> camera_status_t" where
  "ov2640_status_of B st = st\<lparr>
     st_brightness := 0, st_contrast := 0, st_saturation := 0, st_ae_level := 0,
     st_special_effect := 0, st_wb_mode := 0,
     st_agc_gain := of_nat (ov2640_agc_scan (uint (B 1 0x00)) 0 ov2640_agc_gain_tbl),
     st_aec_value := push_bit 10 (ucast (B 1 0x45 AND 0x3F)) OR push_bit 2 (ucast (B 1 0x10))
       OR ucast (B 1 0x04 AND 3),
     st_quality := B 0 0x44,
     st_gainceiling := drop_bit 5 (B 1 0x14) AND 7,
     st_awb := drop_bit 3 (B 0 0xc3) AND 1, st_awb_gain := drop_bit 2 (B 0 0xc3) AND 1,
     st_aec := B 1 0x13 AND 1, st_aec2 := drop_bit 6 (B 0 0xc2) AND 1,
     st_agc := drop_bit 2 (B 1 0x13) AND 1,
     st_bpc := drop_bit 7 (B 0 0x87) AND 1, st_wpc := drop_bit 6 (B 0 0x87) AND 1,
     st_raw_gma := drop_bit 5 (B 0 0xc3) AND 1, st_lenc := drop_bit 1 (B 0 0xc3) AND 1,
     st_hmirror := drop_bit 7 (B 1 0x04) AND 1, st_vflip := drop_bit 6 (B 1 0x04) AND 1,
     st_dcw := drop_bit 5 (B 0 0x86) AND 1, st_colorbar := drop_bit 1 (B 1 0x12) AND 1,
     st_sharpness := 0, st_denoise := 0\<rparr>"

definition ov2640_config_regs :: "(u8 \<times> u8) list" where
  "ov2640_config_regs = [(1, 0x00), (1, 0x45), (1, 0x10), (1, 0x04), (0, 0x44), (1, 0x14), (0, 0xc3),
     (1, 0x13), (0, 0xc2), (0, 0x87), (0, 0x86), (1, 0x12)]"

context banked_dev8
begin

lemma sim_ov2640_init_status:
  assumes p: "\<And>b r. (b, r) \<in> set ov2640_config_regs \<Longrightarrow> plain b r"
  shows "sim (ov2640_init_status hw) s B 0 (on_status (ov2640_status_of B) s) B"
proof -
  have pl: "plain 1 0" "plain 1 0x45" "plain 1 0x10" "plain 1 4" "plain 0 0x44" "plain 1 0x14"
    "plain 0 0xc3" "plain 1 0x13" "plain 0 0xc2" "plain 0 0x87" "plain 0 0x86" "plain 1 0x12"
    by (simp_all add: p ov2640_config_regs_def)
  have b: "(0 :: u8) \<le> 1" "(1 :: u8) \<le> 1" by simp_all
  show ?thesis
    unfolding ov2640_init_status_def
    by (rule sim_conv, (rule sim_rules pl b)+, simp_all only: on_status_on_status,
        rule arg_cong [where f = "\<lambda>f. on_status f s"], rule ext, simp add: ov2640_status_of_def)
qed

end

text \<open>
  The settings \<open>init_status\<close> reads back: the status field, the value given to the setter and the
  range of values the register can hold.
\<close>

fun ov2640_setting :: "sensor_op \<Rightarrow> ((camera_status_t \<Rightarrow> int) \<times> int \<times> int \<times> int) option" where
  "ov2640_setting (Set_quality q) = Some (\<lambda>st. uint (st_quality st), q, 0, 63)"
| "ov2640_setting (Set_agc_gain g) = Some (\<lambda>st. uint (st_agc_gain st), g, 0, 30)"
| "ov2640_setting (Set_aec_value v) = Some (\<lambda>st. uint (st_aec_value st), v, 0, 1200)"
| "ov2640_setting (Set_gainceiling l) = Some (\<lambda>st. uint (st_gainceiling st), l, 0, 7)"
| "ov2640_setting (Set_colorbar e) = Some (\<lambda>st. uint (st_colorbar st), e, 0, 1)"
| "ov2640_setting (Set_whitebal e) = Some (\<lambda>st. uint (st_awb st), e, 0, 1)"
| "ov2640_setting (Set_awb_gain e) = Some (\<lambda>st. uint (st_awb_gain st), e, 0, 1)"
| "ov2640_setting (Set_gain_ctrl e) = Some (\<lambda>st. uint (st_agc st), e, 0, 1)"
| "ov2640_setting (Set_exposure_ctrl e) = Some (\<lambda>st. uint (st_aec st), e, 0, 1)"
| "ov2640_setting (Set_hmirror e) = Some (\<lambda>st. uint (st_hmirror st), e, 0, 1)"
| "ov2640_setting (Set_vflip e) = Some (\<lambda>st. uint (st_vflip st), e, 0, 1)"
| "ov2640_setting (Set_dcw e) = Some (\<lambda>st. uint (st_dcw st), e, 0, 1)"
| "ov2640_setting (Set_bpc e) = Some (\<lambda>st. uint (st_bpc st), e, 0, 1)"
| "ov2640_setting (Set_wpc e) = Some (\<lambda>st. uint (st_wpc st), e, 0, 1)"
| "ov2640_setting (Set_raw_gma e) = Some (\<lambda>st. uint (st_raw_gma st), e, 0, 1)"
| "ov2640_setting (Set_lenc e) = Some (\<lambda>st. uint (st_lenc st), e, 0, 1)"
| "ov2640_setting _ = None"

lemma field_readback:
  fixes x m v :: u8
  assumes m: "drop_bit off (push_bit off m) = m"
  shows "drop_bit off ((x AND NOT (push_bit off m)) OR push_bit off (v AND m)) AND m = v AND m"
proof (rule bit_word_eqI)
  fix n assume "n < LENGTH(8)"
  have "bit m n \<Longrightarrow> off + n < 8"
    using arg_cong [OF m, of "\<lambda>y. bit y n"] by (auto simp: bit_simps)
  then show "bit (drop_bit off ((x AND NOT (push_bit off m)) OR push_bit off (v AND m)) AND m) n =
     bit (v AND m) n"
    by (auto simp: bit_simps)
qed

lemma bit_readback:
  "off < 8 \<Longrightarrow> drop_bit off ((x AND NOT (push_bit off 1)) OR push_bit off (v AND 1)) AND 1 = v AND (1 :: u8)"
  by (rule field_readback) (auto intro!: bit_word_eqI simp: bit_simps)

lemma flag_readback:
  "drop_bit k (put_bits x (push_bit k 1) e) AND 1 = (of_bool e :: u8)" if "k < 8"
  unfolding put_bits_def using that by (intro bit_word_eqI) (auto simp: bit_simps)

lemma gainceiling_readback:
  assumes "0 \<le> c" "c \<le> 7"
  shows "uint (drop_bit 5 ((x AND NOT (push_bit 5 7)) OR push_bit 5 (word_of_int c AND 7)) AND 7 :: u8) = c"
proof -
  have "list_all (\<lambda>c. uint (word_of_int c AND 7 :: u8) = c) [0..7]"
    by code_simp
  from int_range_all [OF this assms] show ?thesis
    by (subst field_readback) simp_all
qed

lemma take_bit_quarter:
  "0 \<le> x \<Longrightarrow> x < 4096 \<Longrightarrow> take_bit 10 (x div 4) = (x div 4 :: int)"
  "0 \<le> x \<Longrightarrow> x < 2048 \<Longrightarrow> take_bit 9 (x div 4) = (x div 4 :: int)"
  by (rule take_bit_int_eq_self; simp)+

lemma agc_gain_scan:
  assumes "0 \<le> g" "g \<le> 30"
  shows "ov2640_agc_scan (uint (ov2640_agc_gain_tbl ! nat g)) 0 ov2640_agc_gain_tbl = nat g"
proof -
  have "list_all (\<lambda>g. ov2640_agc_scan (uint (ov2640_agc_gain_tbl ! nat g)) 0 ov2640_agc_gain_tbl = nat g) [0..30]"
    by code_simp
  from int_range_all [OF this assms] show ?thesis .
qed

lemma aec_codec:
  fixes x y :: u8
  assumes "0 \<le> v" "v < 65536"
  shows "uint (push_bit 10 (ucast (((y AND NOT 0x3F) OR (word_of_int (drop_bit 10 v) AND 0x3F)) AND 0x3F))
     OR push_bit 2 (ucast (word_of_int (drop_bit 2 v AND 0xFF) :: u8))
     OR ucast (((x AND NOT 3) OR (word_of_int (v AND 0x3) AND 3)) AND 3) :: u16) = v"
proof -
  have m: "(63 :: u8) = mask 6" "(3 :: u8) = mask 2" "(3 :: int) = mask 2" "(255 :: int) = mask 8"
    by (simp_all add: mask_eq_exp_minus_1)
  have "(push_bit 10 (ucast (((y AND NOT 0x3F) OR (word_of_int (drop_bit 10 v) AND 0x3F)) AND 0x3F))
     OR push_bit 2 (ucast (word_of_int (drop_bit 2 v AND 0xFF) :: u8))
     OR ucast (((x AND NOT 3) OR (word_of_int (v AND 0x3) AND 3)) AND 3) :: u16) = word_of_int v"
    unfolding m
  proof (rule bit_word_eqI, goal_cases)
    case (1 n)
    have "\<not> n < 2 \<Longrightarrow> Suc (Suc (n - 2)) = n" by simp
    with 1 show ?case by (cases "n < 2"; cases "n < 10") (auto simp: bit_simps)
  qed
  then show ?thesis using assms by (simp add: uint_word_of_int)
qed

context banked_dev8
begin

lemma sim_ov2640_bit:
  assumes "plain 0 r"
  shows "sim (do { upd_status f; ov2640_set_reg_bits hw 0 r off 1 v }) s B 0 (on_status f s)
      (bput B 0 r ((B 0 r AND NOT (push_bit off 1)) OR push_bit off (v AND 1)))"
proof -
  have b: "(0 :: u8) \<le> 1" by simp
  show ?thesis by (rule sim_rules b assms)+
qed

lemma ov2640_bits_readback:
  assumes p: "\<And>b r. (b, r) \<in> set ov2640_config_regs \<Longrightarrow> plain b r" and e: "e = 0 \<or> e = 1"
  shows "\<exists>s' B'. sim (ov2640_set_raw_gma_dsp hw e) s B 0 s' B' \<and>
      (\<forall>st. uint (st_raw_gma (ov2640_status_of B' st)) = e)"
    "\<exists>s' B'. sim (ov2640_set_awb_dsp hw e) s B 0 s' B' \<and>
      (\<forall>st. uint (st_awb (ov2640_status_of B' st)) = e)"
    "\<exists>s' B'. sim (ov2640_set_awb_gain_dsp hw e) s B 0 s' B' \<and>
      (\<forall>st. uint (st_awb_gain (ov2640_status_of B' st)) = e)"
    "\<exists>s' B'. sim (ov2640_set_lenc_dsp hw e) s B 0 s' B' \<and>
      (\<forall>st. uint (st_lenc (ov2640_status_of B' st)) = e)"
    "\<exists>s' B'. sim (ov2640_set_dcw_dsp hw e) s B 0 s' B' \<and>
      (\<forall>st. uint (st_dcw (ov2640_status_of B' st)) = e)"
    "\<exists>s' B'. sim (ov2640_set_bpc_dsp hw e) s B 0 s' B' \<and>
      (\<forall>st. uint (st_bpc (ov2640_status_of B' st)) = e)"
    "\<exists>s' B'. sim (ov2640_set_wpc_dsp hw e) s B 0 s' B' \<and>
      (\<forall>st. uint (st_wpc (ov2640_status_of B' st)) = e)"
    "\<exists>s' B'. sim (ov2640_set_aec2 hw e) s B 0 s' B' \<and>
      (\<forall>st. uint (st_aec2 (ov2640_status_of B' st)) = 1 - e)"
  unfolding ov2640_set_raw_gma_dsp_def ov2640_set_awb_dsp_def ov2640_set_awb_gain_dsp_def
    ov2640_set_lenc_dsp_def ov2640_set_dcw_dsp_def ov2640_set_bpc_dsp_def ov2640_set_wpc_dsp_def
    ov2640_set_aec2_def
  by ((rule exI, rule exI, rule conjI, rule sim_ov2640_bit, (simp add: p ov2640_config_regs_def)[1],
      (insert e, auto simp only: ov2640_status_of_def camera_status_t.select_convs
        camera_status_t.update_convs bput_apply bit_readback simp_thms if_True if_False; simp; fail)[1])+)

lemma ov2640_flags_readback:
  assumes p: "\<And>b r. (b, r) \<in> set ov2640_config_regs \<Longrightarrow> plain b r" and e: "e = 0 \<or> e = 1"
  shows "\<exists>s' B'. sim (ov2640_set_colorbar hw e) s B 0 s' B' \<and>
      (\<forall>st. uint (st_colorbar (ov2640_status_of B' st)) = e)"
    "\<exists>s' B'. sim (ov2640_set_agc_sensor hw e) s B 0 s' B' \<and>
      (\<forall>st. uint (st_agc (ov2640_status_of B' st)) = e)"
    "\<exists>s' B'. sim (ov2640_set_aec_sensor hw e) s B 0 s' B' \<and>
      (\<forall>st. uint (st_aec (ov2640_status_of B' st)) = e)"
    "\<exists>s' B'. sim (ov2640_set_hmirror_sensor hw e) s B 0 s' B' \<and>
      (\<forall>st. uint (st_hmirror (ov2640_status_of B' st)) = e)"
    "\<exists>s' B'. sim (ov2640_set_vflip_sensor hw e) s B 0 s' B' \<and>
      (\<forall>st. uint (st_vflip (ov2640_status_of B' st)) = e)"
proof -
  have pl: "plain 1 4" "plain 1 0x13" "plain 1 0x12"
    by (simp_all add: p ov2640_config_regs_def)
  have b: "(1 :: u8) \<le> 1" by simp
  note fl = flag_readback [of 1] flag_readback [of 2] flag_readback [of 0] flag_readback [of 7]
    flag_readback [of 6]
  note unf = ov2640_set_colorbar_def ov2640_set_agc_sensor_def ov2640_set_aec_sensor_def
    ov2640_set_hmirror_sensor_def
  show "\<exists>s' B'. sim (ov2640_set_colorbar hw e) s B 0 s' B' \<and>
      (\<forall>st. uint (st_colorbar (ov2640_status_of B' st)) = e)"
    "\<exists>s' B'. sim (ov2640_set_agc_sensor hw e) s B 0 s' B' \<and>
      (\<forall>st. uint (st_agc (ov2640_status_of B' st)) = e)"
    "\<exists>s' B'. sim (ov2640_set_aec_sensor hw e) s B 0 s' B' \<and>
      (\<forall>st. uint (st_aec (ov2640_status_of B' st)) = e)"
    "\<exists>s' B'. sim (ov2640_set_hmirror_sensor hw e) s B 0 s' B' \<and>
      (\<forall>st. uint (st_hmirror (ov2640_status_of B' st)) = e)"
    unfolding unf
    by ((rule exI, rule exI, rule conjI, (rule sim_rules pl b)+,
      (insert e fl, auto simp: ov2640_status_of_def)[1])+)
  show "\<exists>s' B'. sim (ov2640_set_vflip_sensor hw e) s B 0 s' B' \<and>
      (\<forall>st. uint (st_vflip (ov2640_status_of B' st)) = e)"
    unfolding ov2640_set_vflip_sensor_def
    by (rule exI, rule exI, rule conjI, rule sim_conv, (rule sim_rules pl b)+)
      (insert e fl, auto simp: ov2640_status_of_def)
qed

lemma ov2640_value_readback:
  assumes p: "\<And>b r. (b, r) \<in> set ov2640_config_regs \<Longrightarrow> plain b r"
  shows "0 \<le> q \<Longrightarrow> q \<le> 63 \<Longrightarrow> \<exists>s' B'. sim (ov2640_set_quality hw q) s B 0 s' B' \<and>
      (\<forall>st. uint (st_quality (ov2640_status_of B' st)) = q)"
    "0 \<le> g \<Longrightarrow> g \<le> 30 \<Longrightarrow> \<exists>s' B'. sim (ov2640_set_agc_gain hw g) s B 0 s' B' \<and>
      (\<forall>st. uint (st_agc_gain (ov2640_status_of B' st)) = g)"
    "0 \<le> v \<Longrightarrow> v \<le> 1200 \<Longrightarrow> \<exists>s' B'. sim (ov2640_set_aec_value hw v) s B 0 s' B' \<and>
      (\<forall>st. uint (st_aec_value (ov2640_status_of B' st)) = v)"
    "0 \<le> c \<Longrightarrow> c \<le> 7 \<Longrightarrow> \<exists>s' B'. sim (ov2640_set_gainceiling_sensor hw c) s B 0 s' B' \<and>
      (\<forall>st. uint (st_gainceiling (ov2640_status_of B' st)) = c)"
proof -
  have pl: "plain 1 0" "plain 1 0x45" "plain 1 0x10" "plain 1 4" "plain 0 0x44" "plain 1 0x14"
    by (simp_all add: p ov2640_config_regs_def)
  have b: "(0 :: u8) \<le> 1" "(1 :: u8) \<le> 1" by simp_all
  have gc: "st_gainceiling (ov2640_status_of A st) = drop_bit 5 (A 1 0x14) AND 7" for A st
    by (simp add: ov2640_status_of_def)
  show "\<exists>s' B'. sim (ov2640_set_quality hw q) s B 0 s' B' \<and>
      (\<forall>st. uint (st_quality (ov2640_status_of B' st)) = q)" if "0 \<le> q" "q \<le> 63"
    unfolding ov2640_set_quality_def Let_def
    by (rule exI, rule exI, rule conjI, (rule sim_rules pl b)+)
      (use that in \<open>simp add: ov2640_status_of_def uint_word_of_int\<close>)
  show "\<exists>s' B'. sim (ov2640_set_agc_gain hw g) s B 0 s' B' \<and>
      (\<forall>st. uint (st_agc_gain (ov2640_status_of B' st)) = g)" if "0 \<le> g" "g \<le> 30"
    unfolding ov2640_set_agc_gain_def Let_def
    by (rule exI, rule exI, rule conjI, (rule sim_rules pl b)+)
      (use that in \<open>simp add: ov2640_status_of_def uint_word_of_int agc_gain_scan\<close>)
  show "\<exists>s' B'. sim (ov2640_set_aec_value hw v) s B 0 s' B' \<and>
      (\<forall>st. uint (st_aec_value (ov2640_status_of B' st)) = v)" if "0 \<le> v" "v \<le> 1200"
    unfolding ov2640_set_aec_value_def Let_def c_ors_Cons c_ors_Nil
    by (rule exI, rule exI, rule conjI, (rule sim_rules pl b)+)
      (use that aec_codec [of v "B 1 0x45" "B 1 4"] in \<open>simp add: ov2640_status_of_def\<close>)
  show "\<exists>s' B'. sim (ov2640_set_gainceiling_sensor hw c) s B 0 s' B' \<and>
      (\<forall>st. uint (st_gainceiling (ov2640_status_of B' st)) = c)" if "0 \<le> c" "c \<le> 7"
    unfolding ov2640_set_gainceiling_sensor_def
    by (rule exI, rule exI, rule conjI, (rule sim_rules pl b)+)
      (simp only: gc bput_apply gainceiling_readback [OF that] simp_thms if_True)
qed
lemma ov2640_setting_readback:
  assumes pl: "\<And>b r. (b, r) \<in> set ov2640_config_regs \<Longrightarrow> plain b r"
    and op: "ov2640_setting op = Some (field, x, lo, hi)" and x: "lo \<le> x" "x \<le> hi"
  shows "\<exists>s' B'. sim (ov2640_call hw op) s B 0 s' B' \<and> (\<forall>st. field (ov2640_status_of B' st) = x)"
proof -
  have sw: "hi = 1 \<Longrightarrow> lo = 0 \<Longrightarrow> x = 0 \<or> x = 1"
    using x by linarith
  show ?thesis
    using op x sw
    by (cases op) (auto simp: ov2640_bits_readback [OF pl] ov2640_flags_readback [OF pl]
        ov2640_value_readback [OF pl])
qed

lemma sim_ov2640_set_framesize:
  assumes pl: "\<And>c q. c \<le> 1 \<Longrightarrow> q \<noteq> 0xFF \<Longrightarrow> plain c q"
    and pf: "s_pixformat s \<in> {PIXFORMAT_RGB565, PIXFORMAT_RGB888, PIXFORMAT_YUV422,
      PIXFORMAT_GRAYSCALE, PIXFORMAT_JPEG}"
    and a: "ov2640_framesize_args f = (mode, ox, oy, mx, my)"
    and fit: "ox < 2048" "oy < 2048" "mx < 4096" "my < 2048"
      "ri_width (resolution_at f) < 4096" "ri_height (resolution_at f) < 2048"
  shows "\<exists>B'. sim (ov2640_set_framesize hw f) s B 0 (on_status (st_framesize_update (\<lambda>_. f)) s) B' \<and>
    ov2640_window_of (B' 0) = (uint ox, uint oy, uint mx div 4, uint my div 4,
      uint (ri_width (resolution_at f)) div 4, uint (ri_height (resolution_at f)) div 4)"
proof -
  let ?s = "on_status (st_framesize_update (\<lambda>_. f)) s"
  have pf': "s_pixformat ?s \<in> {PIXFORMAT_RGB565, PIXFORMAT_RGB888, PIXFORMAT_YUV422,
      PIXFORMAT_GRAYSCALE, PIXFORMAT_JPEG}"
    using pf by (simp add: on_status_def)
  obtain B' where B': "sim (ov2640_set_window hw mode (uint ox) (uint oy) (uint mx) (uint my)
       (uint (ri_width (resolution_at f))) (uint (ri_height (resolution_at f)))) ?s B 0 ?s B'"
    "\<forall>q \<in> set ov2640_window_regs. Some (B' 0 q) = map_of (ov2640_win_regs (uint ox) (uint oy)
       (uint mx sdiv 4) (uint my sdiv 4) (uint (ri_width (resolution_at f)) sdiv 4)
       (uint (ri_height (resolution_at f)) sdiv 4)) q"
    using sim_ov2640_set_window [OF pl pf'] by blast
  have "sim (ov2640_set_framesize hw f) s B 0 ?s B'"
    unfolding ov2640_set_framesize_def Let_def a case_prod_conv
    by (rule sim_bind, rule sim_rules, rule B'(1))
  moreover have "ov2640_window_of (B' 0) = (uint ox, uint oy, uint mx div 4, uint my div 4,
      uint (ri_width (resolution_at f)) div 4, uint (ri_height (resolution_at f)) div 4)"
    using ov2640_window_codec [OF B'(2)] fit
    by (simp add: sdiv_pos take_bit_int_eq_self word_less_def take_bit_quarter)
  ultimately show ?thesis by blast
qed

end

subsection \<open>A concrete banked device\<close>

record bank_dev =
  bd_sel :: u8
  bd_bank :: u8
  bd_regs :: "u8 \<Rightarrow> u8 \<Rightarrow> u8"

definition bank_respond :: "u8 \<Rightarrow> u8 list \<Rightarrow> nat \<Rightarrow> bank_dev \<Rightarrow> esp_err_t \<times> u8 list \<times> bank_dev" where
  "bank_respond slv bs n d =
    (if n = 1 \<and> bs = [addr_read slv] then (ESP_OK, [bd_regs d (bd_bank d) (bd_sel d)], d)
     else case bs of
       [a, r, v] \<Rightarrow> (ESP_OK, [], if r = 0xFF then d\<lparr>bd_bank := v\<rparr>
          else d\<lparr>bd_regs := bput (bd_regs d) (bd_bank d) r v\<rparr>)
     | [a, r] \<Rightarrow> (ESP_OK, [], d\<lparr>bd_sel := r\<rparr>)
     | _ \<Rightarrow> (ESP_OK, [], d))"

definition bank_hw :: "u8 \<Rightarrow> bank_dev hw" where
  "bank_hw slv = sim_hw (bank_respond slv)"

text \<open>The same device on a bus that refuses transactions as a script says.\<close>

definition flaky_bank_hw :: "u8 \<Rightarrow> (bool list \<times> bank_dev) hw" where
  "flaky_bank_hw slv = sim_hw (\<lambda>bs n (sc, d). case sc of
       [] \<Rightarrow> (case bank_respond slv bs n d of (e, x, d') \<Rightarrow> (e, x, [], d'))
     | ok # sc' \<Rightarrow> (if ok then (case bank_respond slv bs n d of (e, x, d') \<Rightarrow> (e, x, sc', d'))
                    else (ESP_FAIL, [], sc', d)))"

interpretation simb: banked_dev8 "bank_hw slv" p slv "\<lambda>d. bd_regs d (bd_bank d)"
  "\<lambda>r v d. if r = 0xFF then d\<lparr>bd_bank := v\<rparr> else d\<lparr>bd_regs := bput (bd_regs d) (bd_bank d) r v\<rparr>"
  "\<lambda>r d. d\<lparr>bd_sel := r\<rparr>" "\<lambda>r d. d\<lparr>bd_sel := r\<rparr>" bd_bank bd_regs "\<lambda>b r. b \<le> 1 \<and> r \<noteq> 0xFF"
  for slv p
  by unfold_locales (auto simp: bank_hw_def bank_respond_def)

definition bank_dev0 :: bank_dev where
  "bank_dev0 = \<lparr>bd_sel = 0, bd_bank = 0, bd_regs = (\<lambda>_ _. 0)\<rparr>"

subsection \<open>Coherence of the bank cache\<close>

text \<open>The cached bank is the bank the sensor has selected, or nothing is cached yet.\<close>

definition bank_coherent :: "('d \<Rightarrow> u8) \<Rightarrow> 'd world \<Rightarrow> bool" where
  "bank_coherent bank w \<longleftrightarrow> reg_bank w = 2 \<or> reg_bank w \<le> 1 \<and> bank (dev w) = reg_bank w"

text \<open>The operations that leave the bank-select register to the driver.\<close>

fun ov2640_banked_op :: "sensor_op \<Rightarrow> bool" where
  "ov2640_banked_op (Set_xclk t x) = False"
| "ov2640_banked_op (Get_reg r m) = (r AND 0xFF \<noteq> 0xFF)"
| "ov2640_banked_op (Set_reg r m v) = (r AND 0xFF \<noteq> 0xFF)"
| "ov2640_banked_op _ = True"

lemma row_regs_not_select:
  "0xFF \<notin> set (ov2640_contrast_regs ! 0)" "0xFF \<notin> set (ov2640_brightness_regs ! 0)"
  "0xFF \<notin> set (ov2640_saturation_regs ! 0)" "0xFF \<notin> set (ov2640_special_effects_regs ! 0)"
  "0xFF \<notin> set (ov2640_wb_modes_regs ! 0)" "0xFF \<notin> set (ov2640_ae_levels_regs ! 0)"
  by (simp_all add: ov2640_contrast_regs_def ov2640_brightness_regs_def ov2640_saturation_regs_def
      ov2640_special_effects_regs_def ov2640_wb_modes_regs_def ov2640_ae_levels_regs_def)

lemma bank_of_reg: "word_of_int (drop_bit 8 reg AND 1) \<le> (1 :: u8)"
proof -
  have "drop_bit 8 reg AND 1 = 0 \<or> drop_bit 8 reg AND 1 = (1 :: int)"
    by (simp add: and_one_eq) presburger
  then show ?thesis by auto
qed

lemma reg_not_select: "r AND 0xFF \<noteq> 0xFF \<Longrightarrow> word_of_int (r AND 0xFF) \<noteq> (0xFF :: u8)"
proof
  assume "r AND 0xFF \<noteq> 0xFF" and w: "word_of_int (r AND 0xFF) = (0xFF :: u8)"
  have "r AND 0xFF = take_bit 8 r" by (simp add: take_bit_eq_mask mask_eq_exp_minus_1)
  then have "uint (word_of_int (r AND 0xFF) :: u8) = r AND 0xFF"
    by (simp add: uint_word_of_int_eq)
  with w \<open>r AND 0xFF \<noteq> 0xFF\<close> show False by simp
qed

lemma cif_table: "mode_table_ok ov2640_settings_cif"
  by (simp add: mode_table_ok_def ov2640_settings_cif_def)

lemma pixformat_mode_tables: "pixformat_table_ok t \<Longrightarrow> mode_table_ok t"
  by (simp add: pixformat_table_ok_def mode_table_ok_def)

context banked_dev8
begin

definition coherent :: "'d world \<Rightarrow> bool" where
  "coherent w \<longleftrightarrow> sccb_i2c_port w = port \<and> s_slv_addr (sensor w) = slv \<and> bank_coherent bank w"

lemma preserves_sim:
  assumes "\<And>s B. \<exists>x s' B'. sim m s B x s' B'"
  shows "preserves coherent m"
proof (rule preservesI)
  fix w r w' assume w: "coherent w" and run: "run_state m w = (r, w')"
  then have st: "stands w (sensor w) (breg (dev w))"
    by (auto simp: coherent_def bank_coherent_def stands_def)
  obtain x s' B' where "sim m (sensor w) (breg (dev w)) x s' B'"
    using assms by blast
  from simD [OF this st run] have "stands w' s' B'" ..
  then show "coherent w'"
    by (auto simp: coherent_def bank_coherent_def stands_def)
qed

lemma preserves_upd [preserves_rules]:
  "preserves coherent (upd_status f)" "preserves coherent (upd_sensor (s_pixformat_update g))"
  by (rule preservesI; auto simp: coherent_def bank_coherent_def)+

lemma preserves_delay [preserves_rules]: "preserves coherent (delay_ms hw ms)"
  by (rule preserves_sim) (blast intro: sim_delay)

lemma preserves_access:
  assumes "c \<le> 1" "plain c q"
  shows "preserves coherent (ov2640_write_reg hw c q v)"
    "preserves coherent (ov2640_set_reg_bits hw c q off m v)"
    "preserves coherent (ov2640_read_reg hw c q)"
    "preserves coherent (ov2640_get_reg_bits hw c q off m)"
    "preserves coherent (ov2640_write_reg_bits hw c q m e)"
  using assms
  by (auto intro!: preserves_sim intro: sim_ov2640_write_reg sim_ov2640_set_reg_bits
      sim_ov2640_read_reg sim_ov2640_get_reg_bits sim_ov2640_write_reg_bits)

lemma preserves_write_row:
  assumes "\<And>q. q \<noteq> 0xFF \<Longrightarrow> plain c q" "c \<le> 1" "0xFF \<notin> set rs"
  shows "preserves coherent (ov2640_write_row hw c rs vs)"
  using assms(3)
  by (induction hw\<equiv>hw c\<equiv>c rs vs rule: ov2640_write_row.induct)
    (auto intro!: preserves_rules preserves_access assms(1,2))

lemma preserves_table:
  assumes "\<And>c q. c \<le> 1 \<Longrightarrow> q \<noteq> 0xFF \<Longrightarrow> plain c q" "mode_table_ok t"
  shows "preserves coherent (ov2640_write_regs hw t)"
proof -
  obtain b t' where t: "t = (0xFF, b) # t'" "b \<le> 1" "banks_ok t'"
    using assms(2) by (cases t) (auto simp: mode_table_ok_def)
  show ?thesis
    unfolding t(1) by (rule preserves_sim) (blast intro: sim_write_regs [OF t(2,3) assms(1)])
qed

lemma preserves_set_pixformat:
  assumes "\<And>c q. c \<le> 1 \<Longrightarrow> q \<noteq> 0xFF \<Longrightarrow> plain c q"
  shows "preserves coherent (ov2640_set_pixformat hw f)"
  unfolding ov2640_set_pixformat_def
  by (cases f; simp only: pixformat_t.case;
      intro preserves_rules preserves_table assms pixformat_mode_tables pixformat_tables)

lemma preserves_set_window:
  assumes "\<And>c q. c \<le> 1 \<Longrightarrow> q \<noteq> 0xFF \<Longrightarrow> plain c q"
  shows "preserves coherent (ov2640_set_window hw mode ox oy mx my w h)"
proof -
  have t: "mode_table_ok (ov2640_win_regs a b c d e f)" for a b c d e f
    by (simp add: mode_table_ok_def ov2640_win_regs_def)
  have "mode_table_ok (if mode = 2 then ov2640_settings_to_cif
      else if mode = 1 then ov2640_settings_to_svga else ov2640_settings_to_uxga)"
    using mode_tables by simp
  then show ?thesis
    unfolding ov2640_set_window_def Let_def case_prod_beta
    by (intro preserves_rules preserves_table preserves_set_pixformat preserves_access assms t)
      simp_all
qed

lemma preserves_levels:
  assumes pl: "\<And>c q. c \<le> 1 \<Longrightarrow> q \<noteq> 0xFF \<Longrightarrow> plain c q"
  shows "preserves coherent (ov2640_set_contrast hw l)" "preserves coherent (ov2640_set_brightness hw l)"
    "preserves coherent (ov2640_set_saturation hw l)" "preserves coherent (ov2640_set_special_effect hw l)"
    "preserves coherent (ov2640_set_wb_mode hw l)" "preserves coherent (ov2640_set_ae_level hw l)"
proof -
  have sub: "0xFF \<notin> set rs \<Longrightarrow> 0xFF \<notin> set (take n rs)" for n and rs :: "u8 list"
    by (meson in_set_takeD)
  have c: "(0 :: u8) \<le> 1" "(1 :: u8) \<le> 1" "(0xC7 :: u8) \<noteq> 0xFF" by simp_all
  note rules = preserves_rules preserves_write_row preserves_access pl c sub row_regs_not_select
  show "preserves coherent (ov2640_set_contrast hw l)" "preserves coherent (ov2640_set_brightness hw l)"
    "preserves coherent (ov2640_set_saturation hw l)" "preserves coherent (ov2640_set_special_effect hw l)"
    "preserves coherent (ov2640_set_wb_mode hw l)" "preserves coherent (ov2640_set_ae_level hw l)"
    unfolding ov2640_set_contrast_def ov2640_set_brightness_def ov2640_set_saturation_def
      ov2640_set_special_effect_def ov2640_set_wb_mode_def ov2640_set_ae_level_def Let_def
    by (intro rules; assumption)+
qed

lemma preserves_controls:
  assumes pl: "\<And>c q. c \<le> 1 \<Longrightarrow> q \<noteq> 0xFF \<Longrightarrow> plain c q"
  shows "preserves coherent (ov2640_set_quality hw x)" "preserves coherent (ov2640_set_agc_gain hw x)"
    "preserves coherent (ov2640_set_gainceiling_sensor hw x)"
    "preserves coherent (ov2640_set_aec_value hw x)" "preserves coherent (ov2640_set_aec2 hw x)"
    "preserves coherent (ov2640_set_colorbar hw x)" "preserves coherent (ov2640_set_agc_sensor hw x)"
    "preserves coherent (ov2640_set_aec_sensor hw x)"
    "preserves coherent (ov2640_set_hmirror_sensor hw x)"
    "preserves coherent (ov2640_set_vflip_sensor hw x)"
    "preserves coherent (ov2640_set_raw_gma_dsp hw x)" "preserves coherent (ov2640_set_awb_dsp hw x)"
    "preserves coherent (ov2640_set_awb_gain_dsp hw x)" "preserves coherent (ov2640_set_lenc_dsp hw x)"
    "preserves coherent (ov2640_set_dcw_dsp hw x)" "preserves coherent (ov2640_set_bpc_dsp hw x)"
    "preserves coherent (ov2640_set_wpc_dsp hw x)" "preserves coherent (ov2640_init_status hw)"
  unfolding ov2640_set_quality_def ov2640_set_agc_gain_def ov2640_set_gainceiling_sensor_def
    ov2640_set_aec_value_def ov2640_set_aec2_def ov2640_set_colorbar_def ov2640_set_agc_sensor_def
    ov2640_set_aec_sensor_def ov2640_set_hmirror_sensor_def ov2640_set_vflip_sensor_def
    ov2640_set_raw_gma_dsp_def ov2640_set_awb_dsp_def ov2640_set_awb_gain_dsp_def
    ov2640_set_lenc_dsp_def ov2640_set_dcw_dsp_def ov2640_set_bpc_dsp_def ov2640_set_wpc_dsp_def
    ov2640_init_status_def c_ors_Cons c_ors_Nil Let_def
  by (intro preserves_rules preserves_access pl; simp; fail)+

lemma preserves_raw:
  assumes pl: "\<And>c q. c \<le> 1 \<Longrightarrow> q \<noteq> 0xFF \<Longrightarrow> plain c q" and r: "r AND 0xFF \<noteq> 0xFF"
  shows "preserves coherent (ov2640_get_reg hw r m)" "preserves coherent (ov2640_set_reg hw r m v)"
  unfolding ov2640_get_reg_def ov2640_set_reg_def
  by (intro preserves_rules preserves_access pl bank_of_reg reg_not_select [OF r])+

lemma preserves_ov2640_call:
  assumes pl: "\<And>c q. c \<le> 1 \<Longrightarrow> q \<noteq> 0xFF \<Longrightarrow> plain c q" and op: "ov2640_banked_op op"
  shows "preserves coherent (ov2640_call hw op)"
proof -
  have "preserves coherent (ov2640_reset hw)"
    unfolding ov2640_reset_def
    by (intro preserves_rules preserves_access preserves_table pl cif_table) simp_all
  moreover have "preserves coherent (ov2640_set_framesize hw f)" for f
    unfolding ov2640_set_framesize_def Let_def case_prod_beta
    by (intro preserves_rules preserves_set_window pl)
  ultimately show ?thesis
    using op preserves_levels [OF pl] preserves_controls [OF pl] preserves_raw [OF pl]
      preserves_set_pixformat [OF pl] preserves_set_window [OF pl] preserves_return
    by (cases op) (simp_all add: ov2640_set_sharpness_def ov2640_set_denoise_def
        ov2640_set_res_raw_def ov2640_set_pll_api_def)
qed

end

subsection \<open>Properties of the OV2640 driver\<close>

text \<open>
  C17. The bank cache stays coherent: on a banked sensor that acknowledges every transfer, every
  operation of the driver's function table except \<open>set_reg\<close> and \<open>get_reg\<close> of the bank-select register 0xFF
  itself and \<open>set_xclk\<close> leaves the cached bank equal to the bank the sensor has selected, so that the accesses that skip
  the bank write reach the right bank. \<open>ov2640_detect\<close>, which writes the bank-select register past the cache, is
  not in the function table and not covered.
\<close>

theorem ov2640_bank_cache_coherent:
  assumes "banked_dev8 hw port slv reg wr sel after_read bank breg plain"
    and "\<And>c q. c \<le> 1 \<Longrightarrow> q \<noteq> 0xFF \<Longrightarrow> plain c q"
    and "ov2640_banked_op op"
    and "sccb_i2c_port w = port" "s_slv_addr (sensor w) = slv" "bank_coherent bank w"
    and "run_state (ov2640_call hw op) w = (r, w')"
  shows "bank_coherent bank w'"
proof -
  have c: "banked_dev8.coherent port slv bank w"
    using assms(4-6) by (simp add: banked_dev8.coherent_def [OF assms(1)])
  have "banked_dev8.coherent port slv bank w'"
    using preservesD [OF banked_dev8.preserves_ov2640_call [OF assms(1-3)] c assms(7)] .
  then show ?thesis by (simp add: banked_dev8.coherent_def [OF assms(1)])
qed

text \<open>The world of the witnesses: the sensor at address 0x30 on the banked device.\<close>

definition bank_world :: "'d \<Rightarrow> 'd world" where
  "bank_world d = (world0 d)\<lparr>sensor := (sensor (world0 d))\<lparr>s_slv_addr := 0x30\<rparr>\<rparr>"

theorem ov2640_bank_cache_coherent_witness:
  "bank_coherent bd_bank (snd (run_state (ov2640_call (bank_hw 0x30) (Set_framesize FRAMESIZE_VGA))
     (bank_world bank_dev0)))"
proof -
  obtain r w' where run: "run_state (ov2640_call (bank_hw 0x30) (Set_framesize FRAMESIZE_VGA))
     (bank_world bank_dev0) = (r, w')" by fastforce
  show ?thesis
    using ov2640_bank_cache_coherent [OF simb.banked_dev8_axioms [where p = 1] _ _ _ _ _ run] run
    by (simp add: bank_world_def world0_def bank_coherent_def bank_dev0_def)
qed

text \<open>
  A failed bank switch poisons the cache: \<open>set_bank\<close> records the new bank before it writes the
  bank-select register. Here the switch to the sensor bank is refused once; the first
  \<open>set_colorbar\<close> returns an error, the next one returns 0, and yet the sensor's COM7 is untouched
  and register 0x12 of the DSP bank has been overwritten instead.
\<close>

theorem ov2640_failed_bank_switch_misdirects:
  "let w0 = bank_world ([False], bank_dev0);
       (e1, w1) = run_state (ov2640_set_colorbar (flaky_bank_hw 0x30) 1) w0;
       (e2, w2) = run_state (ov2640_set_colorbar (flaky_bank_hw 0x30) 1) w1
   in e1 = - 1 \<and> e2 = 0 \<and> \<not> bank_coherent (\<lambda>d. bd_bank (snd d)) w2 \<and>
      bd_regs (snd (dev w2)) 1 0x12 = 0 \<and> bd_regs (snd (dev w2)) 0 0x12 = 0x02"
  by (simp add: ov2640_set_colorbar_def ov2640_write_reg_bits_def ov2640_set_reg_bits_def
      ov2640_set_bank_def SCCB_Write_def SCCB_Read_def flaky_bank_hw_def bank_respond_def
      bank_world_def world0_def bank_dev0_def bank_coherent_def read_into_def addr_read_def
      addr_write_def Let_def)

text \<open>
  C18. Reading the configuration back: on any banked sensor, a setter of \<open>ov2640_setting\<close> given a value in its range
  succeeds, and a later \<open>init_status\<close> finds exactly that value in the registers: quality (0 to 63), the
  analogue gain (0 to 30, through the gain table and its interval search), the exposure (0 to 1200, spread over three
  registers), gain ceiling (0 to 7), and as 0 or 1 the colour bar, white balance and its gain, gain and exposure
  control, mirror, flip, downsizing, pixel correction, gamma and lens correction. Brightness, contrast, saturation,
  exposure level, special effect and white balance mode are not read back: \<open>init_status\<close> sets them to 0; the night
  mode of \<open>set_aec2\<close> is the subject of C28.
\<close>

theorem ov2640_setting_survives_reload:
  assumes "banked_dev8 hw port slv reg wr sel after_read bank breg plain"
    and "\<And>b r. (b, r) \<in> set ov2640_config_regs \<Longrightarrow> plain b r"
    and "sccb_i2c_port w = port" "s_slv_addr (sensor w) = slv" "bank_coherent bank w"
    and "ov2640_setting op = Some (field, x, lo, hi)" "lo \<le> x" "x \<le> hi"
    and "run_state (ov2640_call hw op) w = (r, w')"
  shows "r = 0 \<and> field (s_status (sensor (snd (run_state (ov2640_init_status hw) w')))) = x \<and>
    (let st = s_status (sensor (snd (run_state (ov2640_init_status hw) w'))) in
       st_brightness st = 0 \<and> st_contrast st = 0 \<and> st_saturation st = 0 \<and> st_ae_level st = 0 \<and>
       st_special_effect st = 0 \<and> st_wb_mode st = 0)"
proof -
  obtain s' B' where s: "reg_view.sim (banked_dev8.stands port slv bank breg plain) (ov2640_call hw op)
      (sensor w) (breg (dev w)) 0 s' B'"
    and f: "\<forall>st. field (ov2640_status_of B' st) = x"
    using banked_dev8.ov2640_setting_readback [OF assms(1,2,6-8)] by blast
  have st: "banked_dev8.stands port slv bank breg plain w (sensor w) (breg (dev w))"
    using banked_dev8.standsI [OF assms(1,3,4)] assms(5) by (simp add: bank_coherent_def)
  show ?thesis
    using reg_view.sim_then [OF banked_dev8.axioms_view [OF assms(1)] st s
        banked_dev8.sim_ov2640_init_status [OF assms(1,2)] assms(9)] f
    by (auto simp: on_status_def ov2640_status_of_def Let_def)
qed

lemma config_plain: "(b, r) \<in> set ov2640_config_regs \<Longrightarrow> b \<le> 1 \<and> r \<noteq> 0xFF"
  by (auto simp: ov2640_config_regs_def)

theorem ov2640_setting_survives_reload_witness:
  "uint (st_aec_value (s_status (sensor (snd (run_state (ov2640_init_status (bank_hw 0x30))
     (snd (run_state (ov2640_call (bank_hw 0x30) (Set_aec_value 1199)) (bank_world bank_dev0)))))))) = 1199"
proof -
  obtain r w' where run: "run_state (ov2640_call (bank_hw 0x30) (Set_aec_value 1199))
     (bank_world bank_dev0) = (r, w')" by fastforce
  show ?thesis
    using ov2640_setting_survives_reload [OF simb.banked_dev8_axioms [where p = 1] config_plain _ _ _ _ _ _ run,
        where lo = 0 and hi = 1200 and x = 1199 and field = "\<lambda>st. uint (st_aec_value st)"] run
    by (simp add: bank_world_def world0_def bank_coherent_def bank_dev0_def)
qed

text \<open>
  C28. The night-mode switch is the exception: \<open>set_aec2\<close> writes the complement of its argument to
  bit 6 of CTRL0 and \<open>init_status\<close> reads the bit without complementing it, so a status rebuilt
  from the sensor reports the opposite of what was set.
\<close>

theorem ov2640_aec2_reload_inverted:
  assumes "banked_dev8 hw port slv reg wr sel after_read bank breg plain"
    and "\<And>b r. (b, r) \<in> set ov2640_config_regs \<Longrightarrow> plain b r"
    and "sccb_i2c_port w = port" "s_slv_addr (sensor w) = slv" "bank_coherent bank w"
    and "e = 0 \<or> e = 1"
    and "run_state (ov2640_set_aec2 hw e) w = (r, w')"
  shows "r = 0 \<and> uint (st_aec2 (s_status (sensor w'))) = e \<and>
    uint (st_aec2 (s_status (sensor (snd (run_state (ov2640_init_status hw) w'))))) = 1 - e"
proof -
  obtain s' B' where s: "reg_view.sim (banked_dev8.stands port slv bank breg plain) (ov2640_set_aec2 hw e)
      (sensor w) (breg (dev w)) 0 s' B'"
    and f: "\<forall>st. uint (st_aec2 (ov2640_status_of B' st)) = 1 - e"
    using banked_dev8.ov2640_bits_readback(8) [OF assms(1,2,6)] by blast
  have st: "banked_dev8.stands port slv bank breg plain w (sensor w) (breg (dev w))"
    using banked_dev8.standsI [OF assms(1,3,4)] assms(5) by (simp add: bank_coherent_def)
  have "assigns (on_status (st_aec2_update (\<lambda>_. word_of_int e))) (ov2640_set_aec2 hw e)"
    using assigns_ov2640 [of "Set_aec2 e" _ hw, OF ov2640_spec.simps(13)] by simp
  then have "sensor w' = on_status (st_aec2_update (\<lambda>_. word_of_int e)) (sensor w)"
    using assms(7) unfolding assigns_def by (metis snd_conv)
  then have "st_aec2 (s_status (sensor w')) = word_of_int e"
    by (simp add: on_status_def)
  then show ?thesis
    using reg_view.sim_then [OF banked_dev8.axioms_view [OF assms(1)] st s
        banked_dev8.sim_ov2640_init_status [OF assms(1,2)] assms(7)] f assms(6)
    by (auto simp: on_status_def)
qed

theorem ov2640_aec2_reload_inverted_witness:
  "uint (st_aec2 (s_status (sensor (snd (run_state (ov2640_init_status (bank_hw 0x30))
     (snd (run_state (ov2640_set_aec2 (bank_hw 0x30) 1) (bank_world bank_dev0)))))))) = 0"
proof -
  obtain r w' where run: "run_state (ov2640_set_aec2 (bank_hw 0x30) 1) (bank_world bank_dev0) = (r, w')"
    by fastforce
  show ?thesis
    using ov2640_aec2_reload_inverted [OF simb.banked_dev8_axioms [where p = 1] config_plain _ _ _ _ run] run
    by (simp add: bank_world_def world0_def bank_coherent_def bank_dev0_def)
qed

lemma framesize_args_fit:
  assumes "f \<le> FRAMESIZE_UXGA" "ov2640_framesize_args f = (mode, ox, oy, mx, my)"
  shows "ox + mx \<le> (if mode = 2 then 400 else if mode = 1 then 800 else 1600)"
    "oy + my \<le> (if mode = 2 then 296 else if mode = 1 then 600 else 1200)"
    "ri_width (resolution_at f) \<le> mx" "ri_height (resolution_at f) \<le> my"
    "ox < 2048" "oy < 2048" "mx < 4096" "my < 2048"
    "ri_width (resolution_at f) < 4096" "ri_height (resolution_at f) < 2048"
  using assms
  by (cases f; simp add: ov2640_framesize_args_def ov2640_ratio_table_def Let_def framesize_order;
      auto)+

text \<open>
  C26. Choosing a frame size up to UXGA programs a window that fits the sensor array and decodes
  to the intended geometry: on a banked device whose pixel format is one the driver supports,
  \<open>set_framesize\<close> succeeds and the size, offset and output registers, with their high bits
  scattered over VHYX, TEST and ZMHH, decode to the offsets, window and output size of the mode;
  offset plus window stays inside the 400x296, 800x600 or 1600x1200 array of the mode and the
  output is not larger than the window.
\<close>

theorem ov2640_set_framesize_window:
  assumes "banked_dev8 hw port slv reg wr sel after_read bank breg plain"
    and "\<And>c q. c \<le> 1 \<Longrightarrow> q \<noteq> 0xFF \<Longrightarrow> plain c q"
    and "sccb_i2c_port w = port" "s_slv_addr (sensor w) = slv" "bank_coherent bank w"
    and "s_pixformat (sensor w) \<in> {PIXFORMAT_RGB565, PIXFORMAT_RGB888, PIXFORMAT_YUV422,
      PIXFORMAT_GRAYSCALE, PIXFORMAT_JPEG}"
    and "f \<le> FRAMESIZE_UXGA" and "ov2640_framesize_args f = (mode, ox, oy, mx, my)"
    and "run_state (ov2640_set_framesize hw f) w = (r, w')"
  shows "r = 0 \<and> st_framesize (s_status (sensor w')) = f \<and>
    ov2640_window_of (breg (dev w') 0) = (uint ox, uint oy, uint mx div 4, uint my div 4,
      uint (ri_width (resolution_at f)) div 4, uint (ri_height (resolution_at f)) div 4) \<and>
    ox + mx \<le> (if mode = 2 then 400 else if mode = 1 then 800 else 1600) \<and>
    oy + my \<le> (if mode = 2 then 296 else if mode = 1 then 600 else 1200) \<and>
    ri_width (resolution_at f) \<le> mx \<and> ri_height (resolution_at f) \<le> my"
proof -
  note fit = framesize_args_fit [OF assms(7,8)]
  note view = banked_dev8.axioms_view [OF assms(1)]
  obtain B' where s: "reg_view.sim (banked_dev8.stands port slv bank breg plain) (ov2640_set_framesize hw f)
      (sensor w) (breg (dev w)) 0 (on_status (st_framesize_update (\<lambda>_. f)) (sensor w)) B'"
    and B': "ov2640_window_of (B' 0) = (uint ox, uint oy, uint mx div 4, uint my div 4,
      uint (ri_width (resolution_at f)) div 4, uint (ri_height (resolution_at f)) div 4)"
    using banked_dev8.sim_ov2640_set_framesize [OF assms(1,2,6,8) fit(5-10)] by blast
  have st: "banked_dev8.stands port slv bank breg plain w (sensor w) (breg (dev w))"
    using banked_dev8.standsI [OF assms(1,3,4)] assms(5) by (simp add: bank_coherent_def)
  have run: "r = 0" "banked_dev8.stands port slv bank breg plain w'
      (on_status (st_framesize_update (\<lambda>_. f)) (sensor w)) B'"
    using reg_view.simD [OF view s, OF st assms(9)] by simp_all
  have "sensor w' = on_status (st_framesize_update (\<lambda>_. f)) (sensor w)"
    by (rule reg_view.ok_sensor [OF view, OF run(2)])
  moreover have "breg (dev w') 0 q = B' 0 q" if "q \<noteq> 0xFF" for q
    using banked_dev8.stands_reg [OF assms(1) run(2) assms(2)] that by simp
  ultimately show ?thesis
    using run(1) fit(1-4) B' by (simp add: ov2640_window_of_def on_status_def)
qed

theorem ov2640_set_framesize_window_witness:
  "ov2640_window_of (bd_regs (dev (snd (run_state (ov2640_set_framesize (bank_hw 0x30) FRAMESIZE_HD)
     (bank_world bank_dev0)))) 0) = (0, 150, 400, 225, 320, 180)"
proof -
  obtain r w' where run: "run_state (ov2640_set_framesize (bank_hw 0x30) FRAMESIZE_HD)
      (bank_world bank_dev0) = (r, w')" by fastforce
  have args: "ov2640_framesize_args FRAMESIZE_HD = (0, 0, 150, 1600, 900)"
    by (simp add: ov2640_framesize_args_def ov2640_ratio_table_def Let_def framesize_order)
  show ?thesis
    using ov2640_set_framesize_window [OF simb.banked_dev8_axioms [where p = 1] _ _ _ _ _ _ args run] run
    by (simp add: bank_world_def world0_def bank_coherent_def bank_dev0_def framesize_order)
qed

text \<open>
  C27. What the OV2640 setters record: on any bus, with any pattern of failing transfers, the
  sensor structure after a call is the function \<open>ov2640_spec\<close> of the arguments and of the
  structure before, whatever the call returns. In particular the status is updated even when the
  sensor refused the write; only out-of-range levels leave it alone.
\<close>

theorem ov2640_status_ignores_bus:
  assumes "ov2640_spec op = Some f" and "run_state (ov2640_call hw op) w = (r, w')"
  shows "sensor w' = f (sensor w)"
  using assigns_ov2640 [OF assms(1)] assms(2) unfolding assigns_def by (metis snd_conv)

theorem ov2640_status_ignores_bus_witness:
  "fst (run_state (ov2640_call flaky_hw (Set_quality 10)) (world0 [False])) = - 1 \<and>
   st_quality (s_status (sensor (snd (run_state (ov2640_call flaky_hw (Set_quality 10)) (world0 [False]))))) = 10"
proof -
  obtain r w' where run: "run_state (ov2640_call flaky_hw (Set_quality 10)) (world0 [False]) = (r, w')"
    by fastforce
  moreover have "r = - 1"
    using run by (simp add: ov2640_set_quality_def ov2640_write_reg_def ov2640_set_bank_def SCCB_Write_def
        flaky_hw_def world0_def)
  ultimately show ?thesis
    using ov2640_status_ignores_bus [OF _ run, of "on_status (st_quality_update (\<lambda>_. 10))"]
    by (simp add: on_status_def)
qed

text \<open>
  \<open>set_vflip_sensor\<close> joins the results of its two writes with the bitwise \<open>&\<close>, so it reports
  success when either of them succeeds: here the write of the flip bit itself is refused and the
  call still returns 0.
\<close>

theorem ov2640_vflip_masks_failure:
  "let w0 = bank_world ([True, True, True, True, True, True, False], bank_dev0);
       (e, w1) = run_state (ov2640_set_vflip_sensor (flaky_bank_hw 0x30) 1) w0
   in e = 0 \<and> bd_regs (snd (dev w1)) 1 0x04 AND 0x40 = 0 \<and> st_vflip (s_status (sensor w1)) = 1"
  by (simp add: ov2640_set_vflip_sensor_def ov2640_write_reg_bits_def ov2640_set_reg_bits_def
      ov2640_set_bank_def SCCB_Write_def SCCB_Read_def flaky_bank_hw_def bank_respond_def
      bank_world_def world0_def bank_dev0_def read_into_def addr_read_def addr_write_def Let_def)

end
