(* ===== verification/Yuv.thy ===== *)
theory Yuv
  imports Prelude
begin

text \<open>
  The YUV to RGB conversion of \<open>conversions/yuv.c\<close>: the table, one row \<open>(vY, vVr, vVg, vUg, vUb)\<close>
  per byte value, and \<open>yuv2rgb\<close>, whose intermediate sums are stored in \<open>int16_t\<close> variables. The
  lemmas give the closed form of the table and show that the sums never leave the 16-bit range.
\<close>

type_synonym yuv_table_row = "int \<times> int \<times> int \<times> int \<times> int"

definition vY :: "yuv_table_row \<Rightarrow> int" where "vY r = (case r of (a, b, c, d, e) \<Rightarrow> a)"
definition vVr :: "yuv_table_row \<Rightarrow> int" where "vVr r = (case r of (a, b, c, d, e) \<Rightarrow> b)"
definition vVg :: "yuv_table_row \<Rightarrow> int" where "vVg r = (case r of (a, b, c, d, e) \<Rightarrow> c)"
definition vUg :: "yuv_table_row \<Rightarrow> int" where "vUg r = (case r of (a, b, c, d, e) \<Rightarrow> d)"
definition vUb :: "yuv_table_row \<Rightarrow> int" where "vUb r = (case r of (a, b, c, d, e) \<Rightarrow> e)"

definition yuv_table :: "yuv_table_row list" where
  "yuv_table = [
     (- 18, - 204, 50, 104, - 258), (- 17, - 202, 49, 103, - 256), (- 16, - 201, 49, 102, - 254), (- 15, - 199, 48, 101, - 252),
     (- 13, - 197, 48, 100, - 250), (- 12, - 196, 48, 99, - 248), (- 11, - 194, 47, 99, - 246), (- 10, - 193, 47, 98, - 244),
     (- 9, - 191, 46, 97, - 242), (- 8, - 189, 46, 96, - 240), (- 6, - 188, 46, 95, - 238), (- 5, - 186, 45, 95, - 236),
     (- 4, - 185, 45, 94, - 234), (- 3, - 183, 44, 93, - 232), (- 2, - 181, 44, 92, - 230), (- 1, - 180, 44, 91, - 228),
     (0, - 178, 43, 91, - 226), (1, - 177, 43, 90, - 223), (2, - 175, 43, 89, - 221), (3, - 173, 42, 88, - 219),
     (4, - 172, 42, 87, - 217), (5, - 170, 41, 86, - 215), (6, - 169, 41, 86, - 213), (8, - 167, 41, 85, - 211),
     (9, - 165, 40, 84, - 209), (10, - 164, 40, 83, - 207), (11, - 162, 39, 82, - 205), (12, - 161, 39, 82, - 203),
     (13, - 159, 39, 81, - 201), (15, - 158, 38, 80, - 199), (16, - 156, 38, 79, - 197), (17, - 154, 37, 78, - 195),
     (18, - 153, 37, 78, - 193), (19, - 151, 37, 77, - 191), (20, - 150, 36, 76, - 189), (22, - 148, 36, 75, - 187),
     (23, - 146, 35, 74, - 185), (24, - 145, 35, 73, - 183), (25, - 143, 35, 73, - 181), (26, - 142, 34, 72, - 179),
     (27, - 140, 34, 71, - 177), (29, - 138, 34, 70, - 175), (30, - 137, 33, 69, - 173), (31, - 135, 33, 69, - 171),
     (32, - 134, 32, 68, - 169), (33, - 132, 32, 67, - 167), (34, - 130, 32, 66, - 165), (36, - 129, 31, 65, - 163),
     (37, - 127, 31, 65, - 161), (38, - 126, 30, 64, - 159), (39, - 124, 30, 63, - 157), (40, - 122, 30, 62, - 155),
     (41, - 121, 29, 61, - 153), (43, - 119, 29, 60, - 151), (44, - 118, 28, 60, - 149), (45, - 116, 28, 59, - 147),
     (46, - 114, 28, 58, - 145), (47, - 113, 27, 57, - 143), (48, - 111, 27, 56, - 141), (50, - 110, 26, 56, - 139),
     (51, - 108, 26, 55, - 137), (52, - 106, 26, 54, - 135), (53, - 105, 25, 53, - 133), (54, - 103, 25, 52, - 131),
     (55, - 102, 25, 52, - 129), (57, - 100, 24, 51, - 127), (58, - 98, 24, 50, - 125), (59, - 97, 23, 49, - 123),
     (60, - 95, 23, 48, - 121), (61, - 94, 23, 47, - 119), (62, - 92, 22, 47, - 117), (64, - 90, 22, 46, - 115),
     (65, - 89, 21, 45, - 113), (66, - 87, 21, 44, - 110), (67, - 86, 21, 43, - 108), (68, - 84, 20, 43, - 106),
     (69, - 82, 20, 42, - 104), (71, - 81, 19, 41, - 102), (72, - 79, 19, 40, - 100), (73, - 78, 19, 39, - 98),
     (74, - 76, 18, 39, - 96), (75, - 75, 18, 38, - 94), (76, - 73, 17, 37, - 92), (77, - 71, 17, 36, - 90),
     (79, - 70, 17, 35, - 88), (80, - 68, 16, 34, - 86), (81, - 67, 16, 34, - 84), (82, - 65, 16, 33, - 82),
     (83, - 63, 15, 32, - 80), (84, - 62, 15, 31, - 78), (86, - 60, 14, 30, - 76), (87, - 59, 14, 30, - 74),
     (88, - 57, 14, 29, - 72), (89, - 55, 13, 28, - 70), (90, - 54, 13, 27, - 68), (91, - 52, 12, 26, - 66),
     (93, - 51, 12, 26, - 64), (94, - 49, 12, 25, - 62), (95, - 47, 11, 24, - 60), (96, - 46, 11, 23, - 58),
     (97, - 44, 10, 22, - 56), (98, - 43, 10, 21, - 54), (100, - 41, 10, 21, - 52), (101, - 39, 9, 20, - 50),
     (102, - 38, 9, 19, - 48), (103, - 36, 8, 18, - 46), (104, - 35, 8, 17, - 44), (105, - 33, 8, 17, - 42),
     (107, - 31, 7, 16, - 40), (108, - 30, 7, 15, - 38), (109, - 28, 7, 14, - 36), (110, - 27, 6, 13, - 34),
     (111, - 25, 6, 13, - 32), (112, - 23, 5, 12, - 30), (114, - 22, 5, 11, - 28), (115, - 20, 5, 10, - 26),
     (116, - 19, 4, 9, - 24), (117, - 17, 4, 8, - 22), (118, - 15, 3, 8, - 20), (119, - 14, 3, 7, - 18),
     (121, - 12, 3, 6, - 16), (122, - 11, 2, 5, - 14), (123, - 9, 2, 4, - 12), (124, - 7, 1, 4, - 10),
     (125, - 6, 1, 3, - 8), (126, - 4, 1, 2, - 6), (128, - 3, 0, 1, - 4), (129, - 1, 0, 0, - 2),
     (130, 0, 0, 0, 0), (131, 1, 0, 0, 2), (132, 3, 0, - 1, 4), (133, 4, - 1, - 2, 6),
     (135, 6, - 1, - 3, 8), (136, 7, - 1, - 4, 10), (137, 9, - 2, - 4, 12), (138, 11, - 2, - 5, 14),
     (139, 12, - 3, - 6, 16), (140, 14, - 3, - 7, 18), (142, 15, - 3, - 8, 20), (143, 17, - 4, - 8, 22),
     (144, 19, - 4, - 9, 24), (145, 20, - 5, - 10, 26), (146, 22, - 5, - 11, 28), (147, 23, - 5, - 12, 30),
     (148, 25, - 6, - 13, 32), (150, 27, - 6, - 13, 34), (151, 28, - 7, - 14, 36), (152, 30, - 7, - 15, 38),
     (153, 31, - 7, - 16, 40), (154, 33, - 8, - 17, 42), (155, 35, - 8, - 17, 44), (157, 36, - 8, - 18, 46),
     (158, 38, - 9, - 19, 48), (159, 39, - 9, - 20, 50), (160, 41, - 10, - 21, 52), (161, 43, - 10, - 21, 54),
     (162, 44, - 10, - 22, 56), (164, 46, - 11, - 23, 58), (165, 47, - 11, - 24, 60), (166, 49, - 12, - 25, 62),
     (167, 51, - 12, - 26, 64), (168, 52, - 12, - 26, 66), (169, 54, - 13, - 27, 68), (171, 55, - 13, - 28, 70),
     (172, 57, - 14, - 29, 72), (173, 59, - 14, - 30, 74), (174, 60, - 14, - 30, 76), (175, 62, - 15, - 31, 78),
     (176, 63, - 15, - 32, 80), (178, 65, - 16, - 33, 82), (179, 67, - 16, - 34, 84), (180, 68, - 16, - 34, 86),
     (181, 70, - 17, - 35, 88), (182, 71, - 17, - 36, 90), (183, 73, - 17, - 37, 92), (185, 75, - 18, - 38, 94),
     (186, 76, - 18, - 39, 96), (187, 78, - 19, - 39, 98), (188, 79, - 19, - 40, 100), (189, 81, - 19, - 41, 102),
     (190, 82, - 20, - 42, 104), (192, 84, - 20, - 43, 106), (193, 86, - 21, - 43, 108), (194, 87, - 21, - 44, 110),
     (195, 89, - 21, - 45, 113), (196, 90, - 22, - 46, 115), (197, 92, - 22, - 47, 117), (199, 94, - 23, - 47, 119),
     (200, 95, - 23, - 48, 121), (201, 97, - 23, - 49, 123), (202, 98, - 24, - 50, 125), (203, 100, - 24, - 51, 127),
     (204, 102, - 25, - 52, 129), (206, 103, - 25, - 52, 131), (207, 105, - 25, - 53, 133), (208, 106, - 26, - 54, 135),
     (209, 108, - 26, - 55, 137), (210, 110, - 26, - 56, 139), (211, 111, - 27, - 56, 141), (213, 113, - 27, - 57, 143),
     (214, 114, - 28, - 58, 145), (215, 116, - 28, - 59, 147), (216, 118, - 28, - 60, 149), (217, 119, - 29, - 60, 151),
     (218, 121, - 29, - 61, 153), (219, 122, - 30, - 62, 155), (221, 124, - 30, - 63, 157), (222, 126, - 30, - 64, 159),
     (223, 127, - 31, - 65, 161), (224, 129, - 31, - 65, 163), (225, 130, - 32, - 66, 165), (226, 132, - 32, - 67, 167),
     (228, 134, - 32, - 68, 169), (229, 135, - 33, - 69, 171), (230, 137, - 33, - 69, 173), (231, 138, - 34, - 70, 175),
     (232, 140, - 34, - 71, 177), (233, 142, - 34, - 72, 179), (235, 143, - 35, - 73, 181), (236, 145, - 35, - 73, 183),
     (237, 146, - 35, - 74, 185), (238, 148, - 36, - 75, 187), (239, 150, - 36, - 76, 189), (240, 151, - 37, - 77, 191),
     (242, 153, - 37, - 78, 193), (243, 154, - 37, - 78, 195), (244, 156, - 38, - 79, 197), (245, 158, - 38, - 80, 199),
     (246, 159, - 39, - 81, 201), (247, 161, - 39, - 82, 203), (249, 162, - 39, - 82, 205), (250, 164, - 40, - 83, 207),
     (251, 165, - 40, - 84, 209), (252, 167, - 41, - 85, 211), (253, 169, - 41, - 86, 213), (254, 170, - 41, - 86, 215),
     (256, 172, - 42, - 87, 217), (257, 173, - 42, - 88, 219), (258, 175, - 43, - 89, 221), (259, 177, - 43, - 90, 223),
     (260, 178, - 43, - 91, 226), (261, 180, - 44, - 91, 228), (263, 181, - 44, - 92, 230), (264, 183, - 44, - 93, 232),
     (265, 185, - 45, - 94, 234), (266, 186, - 45, - 95, 236), (267, 188, - 46, - 95, 238), (268, 189, - 46, - 96, 240),
     (270, 191, - 46, - 97, 242), (271, 193, - 47, - 98, 244), (272, 194, - 47, - 99, 246), (273, 196, - 48, - 99, 248),
     (274, 197, - 48, - 100, 250), (275, 199, - 48, - 101, 252), (277, 201, - 49, - 102, 254), (278, 202, - 49, - 103, 256)]"

text \<open>Storing into an \<open>int16_t\<close>, and the clamping macro.\<close>

definition c_int16 :: "int \<Rightarrow> int" where
  "c_int16 i = signed_take_bit 15 i"

definition YUYV_CONSTRAIN :: "int \<Rightarrow> u8" where
  "YUYV_CONSTRAIN v = word_of_int (if v < 0 then 0 else if v > 255 then 255 else v)"

definition yuv2rgb :: "u8 \<Rightarrow> u8 \<Rightarrow> u8 \<Rightarrow> u8 \<times> u8 \<times> u8" where
  "yuv2rgb y u v =
   (let ri = c_int16 (vY (yuv_table ! unat y) + vVr (yuv_table ! unat v));
        gi = c_int16 (vY (yuv_table ! unat y) + vUg (yuv_table ! unat u) + vVg (yuv_table ! unat v));
        bi = c_int16 (vY (yuv_table ! unat y) + vUb (yuv_table ! unat u))
    in (YUYV_CONSTRAIN ri, YUYV_CONSTRAIN gi, YUYV_CONSTRAIN bi))"

subsection \<open>The closed form\<close>

text \<open>
  \<open>yuv_row i\<close>: the products of \<open>i - 16\<close> and \<open>i - 128\<close> with the thousandths of the conversion
  coefficients, truncated towards zero.
\<close>

definition yuv_row :: "int \<Rightarrow> yuv_table_row" where
  "yuv_row i = ((1164 * (i - 16)) sdiv 1000, (1596 * (i - 128)) sdiv 1000,
     (- 391 * (i - 128)) sdiv 1000, (- 813 * (i - 128)) sdiv 1000, (2018 * (i - 128)) sdiv 1000)"

lemma yuv_table_closed: "yuv_table = map yuv_row [0..255]"
  by code_simp

lemma yuv_table_nth: "yuv_table ! unat (y :: u8) = yuv_row (uint y)"
proof -
  have lt: "unat y < 256" using unsigned_less [of y] by simp
  have "[0..255] ! unat y = int (unat y)"
    by (subst nth_upto) (use uint_lt2p [of y] in simp_all)
  then show ?thesis
    using lt by (simp add: yuv_table_closed nth_map)
qed

lemma sdiv_1000_bound: "\<bar>a\<bar> \<le> 300000 \<Longrightarrow> \<bar>a sdiv 1000\<bar> \<le> (300 :: int)"
  by (auto simp: signed_divide_int_def abs_mult abs_sgn_eq)

lemma yuv_row_bounds:
  "\<bar>vY (yuv_row (uint (y :: u8)))\<bar> \<le> 300" "\<bar>vVr (yuv_row (uint y))\<bar> \<le> 300"
  "\<bar>vVg (yuv_row (uint y))\<bar> \<le> 300" "\<bar>vUg (yuv_row (uint y))\<bar> \<le> 300"
  "\<bar>vUb (yuv_row (uint y))\<bar> \<le> 300"
proof -
  have "0 \<le> uint y" "uint y < 256" using uint_ge_0 [of y] uint_lt2p [of y] by simp_all
  then have "\<bar>1164 * (uint y - 16)\<bar> \<le> 300000" "\<bar>1596 * (uint y - 128)\<bar> \<le> 300000"
    "\<bar>- 391 * (uint y - 128)\<bar> \<le> 300000" "\<bar>- 813 * (uint y - 128)\<bar> \<le> 300000"
    "\<bar>2018 * (uint y - 128)\<bar> \<le> 300000" unfolding abs_le_iff by (simp_all add: algebra_simps)
  note this [THEN sdiv_1000_bound]
  then show "\<bar>vY (yuv_row (uint y))\<bar> \<le> 300" "\<bar>vVr (yuv_row (uint y))\<bar> \<le> 300"
    "\<bar>vVg (yuv_row (uint y))\<bar> \<le> 300" "\<bar>vUg (yuv_row (uint y))\<bar> \<le> 300"
    "\<bar>vUb (yuv_row (uint y))\<bar> \<le> 300"
    unfolding vY_def vVr_def vVg_def vUg_def vUb_def yuv_row_def prod.case by this+
qed

lemma c_int16_sum:
  "\<bar>a\<bar> \<le> 300 \<Longrightarrow> \<bar>b\<bar> \<le> 300 \<Longrightarrow> c_int16 (a + b) = a + b"
  "\<bar>a\<bar> \<le> 300 \<Longrightarrow> \<bar>b\<bar> \<le> 300 \<Longrightarrow> \<bar>c\<bar> \<le> 300 \<Longrightarrow> c_int16 (a + b + c) = a + b + c"
  unfolding c_int16_def by (rule signed_take_bit_int_eq_self; simp add: abs_le_iff)+

text \<open>The green channel of ITU-R BT.601.\<close>

definition bt601_green :: "u8 \<Rightarrow> u8 \<Rightarrow> u8 \<Rightarrow> u8" where
  "bt601_green y u v = YUYV_CONSTRAIN ((1164 * (uint y - 16)) sdiv 1000 +
     (- 391 * (uint u - 128)) sdiv 1000 + (- 813 * (uint v - 128)) sdiv 1000)"

subsection \<open>Properties\<close>

text \<open>
  C29. \<open>yuv2rgb\<close> computes, for every one of the 16777216 inputs, the fixed-point conversion with the
  coefficients 1.164, 1.596, 0.813, 0.391 and 2.018: each term is the product truncated to an
  integer, the sums fit the 16-bit variables they are stored in (no wrap-around), and the result
  is the sum clamped to a byte.
\<close>

theorem yuv2rgb_closed_form:
  "yuv2rgb y u v =
    (let Y = (1164 * (uint y - 16)) sdiv 1000
     in (YUYV_CONSTRAIN (Y + (1596 * (uint v - 128)) sdiv 1000),
         YUYV_CONSTRAIN (Y + (- 813 * (uint u - 128)) sdiv 1000 + (- 391 * (uint v - 128)) sdiv 1000),
         YUYV_CONSTRAIN (Y + (2018 * (uint u - 128)) sdiv 1000)))"
  unfolding yuv2rgb_def yuv_table_nth Let_def c_int16_sum(1) [OF yuv_row_bounds(1,2)]
    c_int16_sum(2) [OF yuv_row_bounds(1,4,3)] c_int16_sum(1) [OF yuv_row_bounds(1,5)]
  by (simp add: vY_def vVr_def vVg_def vUg_def vUb_def yuv_row_def)

text \<open>
  So the green channel applies the two chroma coefficients to the wrong inputs: the red and blue
  columns are those of ITU-R BT.601, whose green is
  \<open>1.164 (Y - 16) - 0.391 (U - 128) - 0.813 (V - 128)\<close>; the table's green columns are exchanged,
  and the green computed for \<open>(y, u, v)\<close> is the standard's green for \<open>(y, v, u)\<close>.
\<close>

lemma green_swapped: "fst (snd (yuv2rgb y u v)) = bt601_green y v u"
  unfolding yuv2rgb_def yuv_table_nth Let_def bt601_green_def c_int16_sum(2) [OF yuv_row_bounds(1,4,3)]
  by (simp add: vY_def vVg_def vUg_def yuv_row_def algebra_simps)

end
