(* ===== verification/Rtos.thy ===== *)
theory Rtos
  imports Prelude "HOL-Library.Monad_Syntax"
begin

text \<open>
  The FreeRTOS services the camera driver is built on, from
  \<open>esp-idf/components/freertos/FreeRTOS-Kernel\<close>: the tick clock and time-outs of \<open>tasks.c\<close> and
  the queues of \<open>queue.c\<close>, in the dual-core configuration of the ESP32
  (\<open>configNUMBER_OF_CORES > 1\<close>, so \<open>queueUSE_LOCKS\<close> is 0), for queues that are neither mutexes
  nor members of a queue set.

  A queue is the ring buffer of the source: \<open>pcHead\<close>, \<open>pcTail\<close>, \<open>pcWriteTo\<close> and \<open>pcReadFrom\<close>
  are byte addresses, moved by \<open>uxItemSize\<close> and wrapped by comparison as the source does. Copying
  one item to an address is one assignment of \<open>q_storage\<close>, a map from addresses to items. The
  tasks waiting on a queue are lists of task numbers in priority order; the scheduler, which runs
  while the caller is blocked, is the argument \<open>env\<close> of the blocking calls. A result \<open>None\<close> means
  that the call does not return: a failed \<open>configASSERT\<close>, or a task blocked for ever.

  The theory shows that the time-out arithmetic is exact across wrap-around of the tick counter,
  that the ring buffer implements a bounded first-in-first-out queue (locale \<open>bounded_fifo\<close>,
  interpreted on the queue operations), and that a receive with a finite time-out returns.
\<close>

type_synonym TickType_t = u32

abbreviation (input) portMAX_DELAY :: TickType_t where "portMAX_DELAY \<equiv> 0xffffffff"

subsection \<open>The tick clock and time-outs\<close>

text \<open>
  \<open>ucDelayAborted\<close> is the flag of the calling task. \<open>xNumOfOverflows\<close> counts the wraps of the
  32-bit tick counter; it is a natural number here and not a \<open>BaseType_t\<close>: 31 bits of it last for ages.
  \<open>xTaskIncrementTick\<close> is its branch for a running scheduler; while the scheduler is suspended, ticks are only counted, to be made up
  when it resumes. What it does to the lists of delayed tasks belongs to the scheduler, which is not modelled.
\<close>

record kernel =
  xTickCount :: TickType_t
  xNumOfOverflows :: nat
  ucDelayAborted :: bool

record TimeOut_t =
  xOverflowCount :: nat
  xTimeOnEntering :: TickType_t

definition xTaskIncrementTick :: "kernel \<Rightarrow> kernel" where
  "xTaskIncrementTick k =
     (let xConstTickCount = xTickCount k + 1;
          k1 = k\<lparr>xTickCount := xConstTickCount\<rparr>
      in if xConstTickCount = 0 then k1\<lparr>xNumOfOverflows := xNumOfOverflows k1 + 1\<rparr> else k1)"

definition vTaskInternalSetTimeOutState :: "kernel \<Rightarrow> TimeOut_t" where
  "vTaskInternalSetTimeOutState k =
     \<lparr>xOverflowCount = xNumOfOverflows k, xTimeOnEntering = xTickCount k\<rparr>"

definition xTaskCheckForTimeOut ::
    "TimeOut_t \<Rightarrow> TickType_t \<Rightarrow> kernel \<Rightarrow> bool \<times> TimeOut_t \<times> TickType_t \<times> kernel" where
  "xTaskCheckForTimeOut t xTicksToWait k =
     (let xConstTickCount = xTickCount k;
          xElapsedTime = xConstTickCount - xTimeOnEntering t
      in if ucDelayAborted k then (True, t, xTicksToWait, k\<lparr>ucDelayAborted := False\<rparr>)
         else if xTicksToWait = portMAX_DELAY then (False, t, xTicksToWait, k)
         else if xNumOfOverflows k \<noteq> xOverflowCount t \<and> xConstTickCount \<ge> xTimeOnEntering t
         then (True, t, 0, k)
         else if xElapsedTime < xTicksToWait
         then (False, vTaskInternalSetTimeOutState k, xTicksToWait - xElapsedTime, k)
         else (True, t, 0, k))"

text \<open>The time since start-up, without wrap-around.\<close>

definition now :: "kernel \<Rightarrow> nat" where
  "now k = xNumOfOverflows k * 2 ^ 32 + unat (xTickCount k)"

definition armed_at :: "TimeOut_t \<Rightarrow> nat" where
  "armed_at t = xOverflowCount t * 2 ^ 32 + unat (xTimeOnEntering t)"

subsection \<open>Queues\<close>

record 'a Queue_t =
  pcHead :: int
  pcWriteTo :: int
  pcTail :: int
  pcReadFrom :: int
  q_storage :: "int \<Rightarrow> 'a"
  xTasksWaitingToSend :: "nat list"
  xTasksWaitingToReceive :: "nat list"
  uxMessagesWaiting :: nat
  uxLength :: nat
  uxItemSize :: nat

datatype q_position = queueSEND_TO_BACK | queueSEND_TO_FRONT | queueOVERWRITE

abbreviation (input) SIZE_MAX :: nat where "SIZE_MAX \<equiv> 2 ^ 32 - 1"

text \<open>\<open>listLIST_IS_EMPTY\<close> and \<open>xTaskRemoveFromEventList\<close>: the first waiting task, if any, is
  made ready.\<close>

definition wake_sender :: "'a Queue_t \<Rightarrow> 'a Queue_t" where
  "wake_sender q = (if xTasksWaitingToSend q \<noteq> []
     then q\<lparr>xTasksWaitingToSend := tl (xTasksWaitingToSend q)\<rparr> else q)"

definition wake_receiver :: "'a Queue_t \<Rightarrow> 'a Queue_t" where
  "wake_receiver q = (if xTasksWaitingToReceive q \<noteq> []
     then q\<lparr>xTasksWaitingToReceive := tl (xTasksWaitingToReceive q)\<rparr> else q)"

definition xQueueGenericReset :: "bool \<Rightarrow> 'a Queue_t \<Rightarrow> 'a Queue_t option" where
  "xQueueGenericReset xNewQueue q =
     (if uxLength q \<ge> 1 \<and> SIZE_MAX div uxLength q \<ge> uxItemSize q then
        let q1 = q\<lparr>pcTail := pcHead q + int (uxLength q * uxItemSize q),
                   uxMessagesWaiting := 0,
                   pcWriteTo := pcHead q,
                   pcReadFrom := pcHead q + int ((uxLength q - 1) * uxItemSize q)\<rparr>
        in Some (if \<not> xNewQueue then wake_sender q1
                 else q1\<lparr>xTasksWaitingToSend := [], xTasksWaitingToReceive := []\<rparr>)
      else None)"

text \<open>
  \<open>base\<close> is the address \<open>pvPortMalloc\<close> returned for the queue structure and its storage, \<open>None\<close>
  for a failed allocation; \<open>sizeof_Queue_t\<close> is the size of the structure and \<open>mem\<close> the contents
  of the fresh memory. The outer \<open>None\<close> is the failed assertion on bad arguments, the inner one
  the NULL handle.
\<close>

definition prvInitialiseNewQueue ::
    "nat \<Rightarrow> nat \<Rightarrow> int \<Rightarrow> int \<Rightarrow> (int \<Rightarrow> 'a) \<Rightarrow> 'a Queue_t option" where
  "prvInitialiseNewQueue uxQueueLength uxSize pucQueueStorage pxNewQueue mem =
     xQueueGenericReset True
       \<lparr>pcHead = (if uxSize = 0 then pxNewQueue else pucQueueStorage), pcWriteTo = 0, pcTail = 0,
        pcReadFrom = 0, q_storage = mem, xTasksWaitingToSend = [], xTasksWaitingToReceive = [],
        uxMessagesWaiting = 0, uxLength = uxQueueLength, uxItemSize = uxSize\<rparr>"

definition xQueueGenericCreate ::
    "nat \<Rightarrow> nat \<Rightarrow> nat \<Rightarrow> int option \<Rightarrow> (int \<Rightarrow> 'a) \<Rightarrow> 'a Queue_t option option" where
  "xQueueGenericCreate sizeof_Queue_t uxQueueLength uxSize base mem =
     (if uxQueueLength > 0 \<and> SIZE_MAX div uxQueueLength \<ge> uxSize
         \<and> SIZE_MAX - sizeof_Queue_t \<ge> uxQueueLength * uxSize then
        case base of
          Some a \<Rightarrow> map_option Some
            (prvInitialiseNewQueue uxQueueLength uxSize (a + int sizeof_Queue_t) a mem)
        | None \<Rightarrow> Some None
      else None)"

definition prvCopyDataToQueue :: "'a \<Rightarrow> q_position \<Rightarrow> 'a Queue_t \<Rightarrow> 'a Queue_t" where
  "prvCopyDataToQueue item xPosition q =
     (let n = uxMessagesWaiting q
      in if uxItemSize q = 0 then q\<lparr>uxMessagesWaiting := n + 1\<rparr>
         else if xPosition = queueSEND_TO_BACK then
           (let q1 = q\<lparr>q_storage := (q_storage q)(pcWriteTo q := item)\<rparr>;
                w = pcWriteTo q + int (uxItemSize q)
            in q1\<lparr>pcWriteTo := (if w \<ge> pcTail q then pcHead q else w),
                  uxMessagesWaiting := n + 1\<rparr>)
         else
           (let q1 = q\<lparr>q_storage := (q_storage q)(pcReadFrom q := item)\<rparr>;
                r = pcReadFrom q - int (uxItemSize q);
                n1 = (if xPosition = queueOVERWRITE then if n > 0 then n - 1 else n else n)
            in q1\<lparr>pcReadFrom := (if r < pcHead q then pcTail q - int (uxItemSize q) else r),
                  uxMessagesWaiting := n1 + 1\<rparr>))"

text \<open>The buffer of the caller is \<open>buf\<close>; it is left alone when items have no size.\<close>

definition prvCopyDataFromQueue :: "'a \<Rightarrow> 'a Queue_t \<Rightarrow> 'a \<times> 'a Queue_t" where
  "prvCopyDataFromQueue buf q =
     (if uxItemSize q \<noteq> 0 then
        let r = pcReadFrom q + int (uxItemSize q);
            r1 = (if r \<ge> pcTail q then pcHead q else r)
        in (q_storage q r1, q\<lparr>pcReadFrom := r1\<rparr>)
      else (buf, q))"

definition xQueueGenericSendFromISR ::
    "'a \<Rightarrow> q_position \<Rightarrow> 'a Queue_t \<Rightarrow> (bool \<times> 'a Queue_t) option" where
  "xQueueGenericSendFromISR item xCopyPosition q =
     (if xCopyPosition = queueOVERWRITE \<and> uxLength q \<noteq> 1 then None
      else if uxMessagesWaiting q < uxLength q \<or> xCopyPosition = queueOVERWRITE
      then Some (True, wake_receiver (prvCopyDataToQueue item xCopyPosition q))
      else Some (False, q))"

definition xQueueReceiveFromISR :: "'a \<Rightarrow> 'a Queue_t \<Rightarrow> (bool \<times> 'a) \<times> 'a Queue_t" where
  "xQueueReceiveFromISR buf q =
     (if uxMessagesWaiting q > 0 then
        let (item, q1) = prvCopyDataFromQueue buf q
        in ((True, item), wake_sender (q1\<lparr>uxMessagesWaiting := uxMessagesWaiting q - 1\<rparr>))
      else ((False, buf), q))"

definition xQueuePeekFromISR :: "'a \<Rightarrow> 'a Queue_t \<Rightarrow> ((bool \<times> 'a) \<times> 'a Queue_t) option" where
  "xQueuePeekFromISR buf q =
     (if uxItemSize q = 0 then None
      else if uxMessagesWaiting q > 0 then
        let orig = pcReadFrom q; (item, q1) = prvCopyDataFromQueue buf q
        in Some ((True, item), q1\<lparr>pcReadFrom := orig\<rparr>)
      else Some ((False, buf), q))"

definition uxQueueMessagesWaiting :: "'a Queue_t \<Rightarrow> nat" where
  "uxQueueMessagesWaiting q = uxMessagesWaiting q"

definition uxQueueSpacesAvailable :: "'a Queue_t \<Rightarrow> nat" where
  "uxQueueSpacesAvailable q = uxLength q - uxMessagesWaiting q"

definition xQueueIsQueueEmptyFromISR :: "'a Queue_t \<Rightarrow> bool" where
  "xQueueIsQueueEmptyFromISR q = (uxMessagesWaiting q = 0)"

definition xQueueIsQueueFullFromISR :: "'a Queue_t \<Rightarrow> bool" where
  "xQueueIsQueueFullFromISR q = (uxMessagesWaiting q = uxLength q)"

subsection \<open>Blocking calls\<close>

text \<open>
  The state of a blocking call: the queue, the kernel's clock, and the rest of the system. When the
  call blocks, \<open>env ticks\<close> is what happens to all three until the task runs again.
\<close>

type_synonym ('a, 'e) qworld = "'a Queue_t \<times> kernel \<times> 'e"

type_synonym ('a, 'e) qenv = "TickType_t \<Rightarrow> ('a, 'e) qworld \<Rightarrow> ('a, 'e) qworld"

text \<open>The \<open>for (;;)\<close> loops; \<open>to\<close> is \<open>None\<close> until \<open>xEntryTimeSet\<close>.\<close>

partial_function (option) xQueueSend_loop ::
    "('a, 'e) qenv \<Rightarrow> 'a \<Rightarrow> q_position \<Rightarrow> TimeOut_t option \<Rightarrow> TickType_t \<Rightarrow> ('a, 'e) qworld
     \<Rightarrow> (bool \<times> ('a, 'e) qworld) option" where
  "xQueueSend_loop env item xCopyPosition to xTicksToWait w =
     (case w of (q, k, e) \<Rightarrow>
        if uxMessagesWaiting q < uxLength q \<or> xCopyPosition = queueOVERWRITE
        then Some (True, wake_receiver (prvCopyDataToQueue item xCopyPosition q), k, e)
        else if xTicksToWait = 0 then Some (False, q, k, e)
        else case xTaskCheckForTimeOut
               (case to of None \<Rightarrow> vTaskInternalSetTimeOutState k | Some t \<Rightarrow> t) xTicksToWait k of
               (expired, t, left, k1) \<Rightarrow>
                 if \<not> expired
                 then xQueueSend_loop env item xCopyPosition (Some t) left (env left (q, k1, e))
                 else Some (False, q, k1, e))"

definition xQueueGenericSend ::
    "('a, 'e) qenv \<Rightarrow> 'a \<Rightarrow> TickType_t \<Rightarrow> q_position \<Rightarrow> ('a, 'e) qworld
     \<Rightarrow> (bool \<times> ('a, 'e) qworld) option" where
  "xQueueGenericSend env item xTicksToWait xCopyPosition w =
     (if xCopyPosition = queueOVERWRITE \<and> uxLength (fst w) \<noteq> 1 then None
      else xQueueSend_loop env item xCopyPosition None xTicksToWait w)"

partial_function (option) xQueueReceive_loop ::
    "('a, 'e) qenv \<Rightarrow> 'a \<Rightarrow> TimeOut_t option \<Rightarrow> TickType_t \<Rightarrow> ('a, 'e) qworld
     \<Rightarrow> ((bool \<times> 'a) \<times> ('a, 'e) qworld) option" where
  "xQueueReceive_loop env buf to xTicksToWait w =
     (case w of (q, k, e) \<Rightarrow>
        if uxMessagesWaiting q > 0 then
          (let (item, q1) = prvCopyDataFromQueue buf q
           in Some ((True, item), wake_sender (q1\<lparr>uxMessagesWaiting := uxMessagesWaiting q - 1\<rparr>), k, e))
        else if xTicksToWait = 0 then Some ((False, buf), q, k, e)
        else case xTaskCheckForTimeOut
               (case to of None \<Rightarrow> vTaskInternalSetTimeOutState k | Some t \<Rightarrow> t) xTicksToWait k of
               (expired, t, left, k1) \<Rightarrow>
                 if \<not> expired then xQueueReceive_loop env buf (Some t) left (env left (q, k1, e))
                 else Some ((False, buf), q, k1, e))"

definition xQueueReceive ::
    "('a, 'e) qenv \<Rightarrow> 'a \<Rightarrow> TickType_t \<Rightarrow> ('a, 'e) qworld
     \<Rightarrow> ((bool \<times> 'a) \<times> ('a, 'e) qworld) option" where
  "xQueueReceive env buf xTicksToWait w = xQueueReceive_loop env buf None xTicksToWait w"

partial_function (option) xQueuePeek_loop ::
    "('a, 'e) qenv \<Rightarrow> 'a \<Rightarrow> TimeOut_t option \<Rightarrow> TickType_t \<Rightarrow> ('a, 'e) qworld
     \<Rightarrow> ((bool \<times> 'a) \<times> ('a, 'e) qworld) option" where
  "xQueuePeek_loop env buf to xTicksToWait w =
     (case w of (q, k, e) \<Rightarrow>
        if uxMessagesWaiting q > 0 then
          (let orig = pcReadFrom q; (item, q1) = prvCopyDataFromQueue buf q
           in Some ((True, item), wake_receiver (q1\<lparr>pcReadFrom := orig\<rparr>), k, e))
        else if xTicksToWait = 0 then Some ((False, buf), q, k, e)
        else case xTaskCheckForTimeOut
               (case to of None \<Rightarrow> vTaskInternalSetTimeOutState k | Some t \<Rightarrow> t) xTicksToWait k of
               (expired, t, left, k1) \<Rightarrow>
                 if \<not> expired then xQueuePeek_loop env buf (Some t) left (env left (q, k1, e))
                 else Some ((False, buf), q, k1, e))"

definition xQueuePeek ::
    "('a, 'e) qenv \<Rightarrow> 'a \<Rightarrow> TickType_t \<Rightarrow> ('a, 'e) qworld
     \<Rightarrow> ((bool \<times> 'a) \<times> ('a, 'e) qworld) option" where
  "xQueuePeek env buf xTicksToWait w = xQueuePeek_loop env buf None xTicksToWait w"


subsection \<open>Time-outs are exact\<close>

lemma now_increment [simp]: "now (xTaskIncrementTick k) = now k + 1"
proof (cases "xTickCount k + 1 = 0")
  case True
  then have "unat (xTickCount k) = 2 ^ 32 - 1"
    by (simp add: eq_neg_iff_add_eq_0 [symmetric] unsigned_minus_1_eq_mask mask_eq_exp_minus_1)
  with True show ?thesis by (simp add: now_def xTaskIncrementTick_def)
next
  case False
  then have "unat (xTickCount k + 1) = unat (xTickCount k) + 1"
    by (metis Suc_eq_plus1 add.commute unatSuc)
  with False show ?thesis by (simp add: now_def xTaskIncrementTick_def Let_def)
qed

lemma of_nat_wraps: "(of_nat (a * 2 ^ 32 + unat (x :: u32)) :: u32) = x"
proof -
  have "(of_nat (a * 2 ^ 32) :: u32) = 0" by (subst word_of_nat_eq_0_iff) simp
  then show ?thesis unfolding of_nat_add by simp
qed

lemma armed_now [simp]: "armed_at (vTaskInternalSetTimeOutState k) = now k"
  by (simp add: armed_at_def now_def vTaskInternalSetTimeOutState_def)

lemma elapsed_small:
  assumes "now k = armed_at t + n" and "n < 2 ^ 32"
  shows "unat (xTickCount k - xTimeOnEntering t) = n"
proof -
  have "of_nat (now k) = (xTickCount k :: u32)" "of_nat (armed_at t) = (xTimeOnEntering t :: u32)"
    unfolding now_def armed_at_def by (rule of_nat_wraps)+
  then have "xTickCount k - xTimeOnEntering t = of_nat n" using assms(1) by (auto simp: algebra_simps)
  then show ?thesis using assms(2) by (simp add: unsigned_of_nat take_bit_nat_eq_self)
qed

lemma no_full_wrap:
  assumes "now k = armed_at t + n" and "n < 2 ^ 32"
  shows "\<not> (xNumOfOverflows k \<noteq> xOverflowCount t \<and> xTimeOnEntering t \<le> xTickCount k)"
proof
  assume a: "xNumOfOverflows k \<noteq> xOverflowCount t \<and> xTimeOnEntering t \<le> xTickCount k"
  have lt: "unat (xTickCount k) < 2 ^ 32" "unat (xTimeOnEntering t) < 2 ^ 32"
    using unsigned_less [of "xTickCount k"] unsigned_less [of "xTimeOnEntering t"] by simp_all
  from a have le: "unat (xTimeOnEntering t) \<le> unat (xTickCount k)" by (simp add: word_le_nat_alt)
  have eq: "xNumOfOverflows k * 2 ^ 32 + unat (xTickCount k)
      = xOverflowCount t * 2 ^ 32 + unat (xTimeOnEntering t) + n"
    using assms(1) by (simp add: now_def armed_at_def)
  show False
  proof (cases "xNumOfOverflows k < xOverflowCount t")
    case True
    then have "(xNumOfOverflows k + 1) * 2 ^ 32 \<le> xOverflowCount t * 2 ^ 32"
      by (intro mult_le_mono1) simp
    with eq lt show False by simp
  next
    case False
    with a have "(xOverflowCount t + 1) * 2 ^ 32 \<le> xNumOfOverflows k * 2 ^ 32"
      by (intro mult_le_mono1) simp
    with eq lt le assms(2) show False by simp
  qed
qed

lemma check_timeout:
  assumes "now k = armed_at t + n" and "n < 2 ^ 32" and "\<not> ucDelayAborted k"
    and "ticks \<noteq> portMAX_DELAY"
  shows "xTaskCheckForTimeOut t ticks k =
    (if n < unat ticks then (False, vTaskInternalSetTimeOutState k, ticks - of_nat n, k)
     else (True, t, 0, k))"
proof -
  note e = elapsed_small [OF assms(1,2)]
  then have "xTickCount k - xTimeOnEntering t = of_nat n"
    by (simp flip: e)
  moreover have "xTickCount k - xTimeOnEntering t < ticks \<longleftrightarrow> n < unat ticks"
    using e by (simp add: word_less_nat_alt)
  ultimately show ?thesis
    using no_full_wrap [OF assms(1,2)] assms(3,4)
    by (auto simp: xTaskCheckForTimeOut_def Let_def)
qed

subsection \<open>The ring buffer is a bounded queue\<close>

text \<open>
  \<open>ring q r\<close>: the storage holds whole items, \<open>pcReadFrom\<close> is at slot \<open>r\<close>, and \<open>pcWriteTo\<close> is the slot
  after the \<open>uxMessagesWaiting\<close> items that follow it.
\<close>

definition slot_addr :: "'a Queue_t \<Rightarrow> nat \<Rightarrow> int" where
  "slot_addr q i = pcHead q + int (i * uxItemSize q)"

definition ring :: "'a Queue_t \<Rightarrow> nat \<Rightarrow> bool" where
  "ring q r \<longleftrightarrow> 0 < uxItemSize q \<and> r < uxLength q \<and> uxMessagesWaiting q \<le> uxLength q \<and>
     pcTail q = slot_addr q (uxLength q) \<and> pcReadFrom q = slot_addr q r \<and>
     pcWriteTo q = slot_addr q ((r + 1 + uxMessagesWaiting q) mod uxLength q)"

definition q_rpos :: "'a Queue_t \<Rightarrow> nat" where
  "q_rpos q = nat (pcReadFrom q - pcHead q) div uxItemSize q"

definition q_ok :: "'a Queue_t \<Rightarrow> bool" where
  "q_ok q \<longleftrightarrow> ring q (q_rpos q)"

definition q_slots :: "'a Queue_t \<Rightarrow> nat \<Rightarrow> 'a list" where
  "q_slots q r = map (\<lambda>i. q_storage q (slot_addr q ((r + 1 + i) mod uxLength q)))
     [0..<uxMessagesWaiting q]"

text \<open>The items of a queue, oldest first.\<close>

definition q_items :: "'a Queue_t \<Rightarrow> 'a list" where
  "q_items q = q_slots q (q_rpos q)"

lemma slot_addr_update [simp]:
  "slot_addr (q\<lparr>pcWriteTo := a\<rparr>) = slot_addr q" "slot_addr (q\<lparr>pcReadFrom := a\<rparr>) = slot_addr q"
  "slot_addr (q\<lparr>pcTail := a\<rparr>) = slot_addr q" "slot_addr (q\<lparr>q_storage := m\<rparr>) = slot_addr q"
  "slot_addr (q\<lparr>uxMessagesWaiting := n\<rparr>) = slot_addr q"
  "slot_addr (q\<lparr>xTasksWaitingToSend := l\<rparr>) = slot_addr q"
  "slot_addr (q\<lparr>xTasksWaitingToReceive := l\<rparr>) = slot_addr q"
  by (simp_all add: slot_addr_def fun_eq_iff)

lemma slot_addr_inj [simp]: "0 < uxItemSize q \<Longrightarrow> slot_addr q i = slot_addr q j \<longleftrightarrow> i = j"
  by (simp add: slot_addr_def)

lemma slot_addr_Suc: "slot_addr q i + int (uxItemSize q) = slot_addr q (i + 1)"
  by (simp add: slot_addr_def algebra_simps)

lemma slot_addr_le: "0 < uxItemSize q \<Longrightarrow> slot_addr q i \<le> slot_addr q j \<longleftrightarrow> i \<le> j"
  by (simp add: slot_addr_def flip: of_nat_mult)

lemma slot_addr_0: "slot_addr q 0 = pcHead q"
  by (simp add: slot_addr_def)

lemma slot_next:
  assumes "0 < uxItemSize q" and "r < uxLength q"
  shows "(if slot_addr q (uxLength q) \<le> slot_addr q r + int (uxItemSize q) then pcHead q
      else slot_addr q r + int (uxItemSize q)) = slot_addr q ((r + 1) mod uxLength q)"
  unfolding slot_addr_Suc slot_addr_0 [symmetric]
  using assms by (auto simp: slot_addr_le mod_Suc)

lemma slot_prev:
  assumes "0 < uxItemSize q" and "r < uxLength q"
  shows "(if slot_addr q r - int (uxItemSize q) < pcHead q
      then slot_addr q (uxLength q) - int (uxItemSize q)
      else slot_addr q r - int (uxItemSize q)) = slot_addr q ((r + (uxLength q - 1)) mod uxLength q)"
proof (cases r)
  case 0
  then show ?thesis
    using assms slot_addr_Suc [of q "uxLength q - 1"] by (simp add: slot_addr_0)
next
  case (Suc p)
  have "slot_addr q r - int (uxItemSize q) = slot_addr q p"
    using slot_addr_Suc [of q p] Suc by simp
  moreover have "\<not> slot_addr q p < pcHead q" by (simp add: slot_addr_def del: of_nat_mult)
  moreover have "(r + (uxLength q - 1)) mod uxLength q = p"
    using Suc assms(2) by (simp add: mod_if [of "p + uxLength q"])
  ultimately show ?thesis by simp
qed

lemma mod_neq: "i < j \<Longrightarrow> j < i + len \<Longrightarrow> (a + i) mod len \<noteq> (a + j) mod (len :: nat)"
  using mod_eq_dvd_iff_nat [of "a + i" "a + j" len] nat_dvd_not_less [of "j - i" len]
  by auto

lemma ring_rpos: "ring q r \<Longrightarrow> q_rpos q = r"
  by (simp add: ring_def q_rpos_def slot_addr_def del: of_nat_mult)

lemma ring_ok: "ring q r \<Longrightarrow> q_ok q"
  by (simp add: q_ok_def ring_rpos)

lemma ring_items: "ring q r \<Longrightarrow> q_items q = q_slots q r"
  by (simp add: q_items_def ring_rpos)

lemma length_q_items [simp]: "length (q_items q) = uxMessagesWaiting q"
  by (simp add: q_items_def q_slots_def)

lemma q_ok_bound: "q_ok q \<Longrightarrow> uxMessagesWaiting q \<le> uxLength q"
  by (simp add: q_ok_def ring_def)

lemma wake_simps [simp]:
  "q_items (wake_sender q) = q_items q" "q_items (wake_receiver q) = q_items q"
  "q_ok (wake_sender q) = q_ok q" "q_ok (wake_receiver q) = q_ok q"
  "uxMessagesWaiting (wake_sender q) = uxMessagesWaiting q"
  "uxMessagesWaiting (wake_receiver q) = uxMessagesWaiting q"
  "uxLength (wake_sender q) = uxLength q" "uxLength (wake_receiver q) = uxLength q"
  by (simp_all add: wake_sender_def wake_receiver_def q_items_def q_slots_def q_ok_def ring_def
      q_rpos_def)

lemma ring_send:
  assumes "ring q r" and "uxMessagesWaiting q < uxLength q"
  shows "ring (prvCopyDataToQueue x queueSEND_TO_BACK q) r"
    and "q_slots (prvCopyDataToQueue x queueSEND_TO_BACK q) r = q_slots q r @ [x]"
proof -
  note d = assms [unfolded ring_def]
  let ?w = "(r + 1 + uxMessagesWaiting q) mod uxLength q"
  have "?w < uxLength q" using d by simp
  with d have w: "(if pcTail q \<le> pcWriteTo q + int (uxItemSize q) then pcHead q
       else pcWriteTo q + int (uxItemSize q)) = slot_addr q ((?w + 1) mod uxLength q)"
    by (simp only: slot_next simp_thms)
  have w': "(?w + 1) mod uxLength q = (r + 1 + (uxMessagesWaiting q + 1)) mod uxLength q"
    by (simp add: mod_simps)
  have eq: "prvCopyDataToQueue x queueSEND_TO_BACK q =
      q\<lparr>q_storage := (q_storage q)(slot_addr q ?w := x),
        pcWriteTo := slot_addr q ((r + 1 + (uxMessagesWaiting q + 1)) mod uxLength q),
        uxMessagesWaiting := uxMessagesWaiting q + 1\<rparr>"
    unfolding prvCopyDataToQueue_def Let_def w w' using d by simp
  show "ring (prvCopyDataToQueue x queueSEND_TO_BACK q) r"
    unfolding eq using d by (simp add: ring_def)
  show "q_slots (prvCopyDataToQueue x queueSEND_TO_BACK q) r = q_slots q r @ [x]"
    using d mod_neq [where a = "r + 1" and len = "uxLength q" and j = "uxMessagesWaiting q"]
    unfolding eq by (auto simp: q_slots_def)
qed

lemma ring_send_front:
  assumes "ring q r" and "uxMessagesWaiting q < uxLength q"
  defines "r' \<equiv> (r + (uxLength q - 1)) mod uxLength q"
  shows "ring (prvCopyDataToQueue x queueSEND_TO_FRONT q) r'"
    and "q_slots (prvCopyDataToQueue x queueSEND_TO_FRONT q) r' = x # q_slots q r"
proof -
  note d = assms(1,2) [unfolded ring_def]
  have w: "(if pcReadFrom q - int (uxItemSize q) < pcHead q then pcTail q - int (uxItemSize q)
       else pcReadFrom q - int (uxItemSize q)) = slot_addr q r'"
    unfolding r'_def using d by (simp only: slot_prev simp_thms)
  have r1: "(r' + k) mod uxLength q = (r + (uxLength q - 1) + k) mod uxLength q" for k
    unfolding r'_def by (simp add: mod_simps)
  have r2: "(r' + 1 + (i + 1)) mod uxLength q = (r + 1 + i) mod uxLength q" for i
  proof -
    have "(r' + 1 + (i + 1)) mod uxLength q = (r + 1 + i + uxLength q) mod uxLength q"
      using r1 [of "1 + (i + 1)"] d by (simp add: algebra_simps)
    then show ?thesis by (simp only: mod_add_self2)
  qed
  have r0: "(r' + 1) mod uxLength q = r"
    using r1 [of 1] d by (simp add: algebra_simps)
  have "r' < uxLength q" using d by (simp add: r'_def)
  have eq: "prvCopyDataToQueue x queueSEND_TO_FRONT q =
      q\<lparr>q_storage := (q_storage q)(slot_addr q r := x), pcReadFrom := slot_addr q r',
        uxMessagesWaiting := uxMessagesWaiting q + 1\<rparr>"
    unfolding prvCopyDataToQueue_def Let_def w using d by simp
  show "ring (prvCopyDataToQueue x queueSEND_TO_FRONT q) r'"
    unfolding eq using d r2 [of "uxMessagesWaiting q"] \<open>r' < uxLength q\<close> by (simp add: ring_def)
  have "(r + 1 + i) mod uxLength q \<noteq> r" if "i < uxMessagesWaiting q" for i
    using mod_neq [of 0 "1 + i" "uxLength q" r] that d by (simp add: algebra_simps)
  then show "q_slots (prvCopyDataToQueue x queueSEND_TO_FRONT q) r' = x # q_slots q r"
    unfolding eq using d r0 r2
    by (auto simp: q_slots_def upt_conv_Cons simp del: upt_Suc simp flip: map_Suc_upt)
qed

lemma ring_receive:
  assumes "ring q r" and "0 < uxMessagesWaiting q" and "prvCopyDataFromQueue buf q = (x, q')"
  defines "r' \<equiv> (r + 1) mod uxLength q"
    and "q'' \<equiv> q'\<lparr>uxMessagesWaiting := uxMessagesWaiting q - 1\<rparr>"
  shows "ring q'' r'" and "q_slots q r = x # q_slots q'' r'"
proof -
  note d = assms(1,2) [unfolded ring_def]
  have w: "(if pcTail q \<le> pcReadFrom q + int (uxItemSize q) then pcHead q
       else pcReadFrom q + int (uxItemSize q)) = slot_addr q r'"
    unfolding r'_def using d by (simp only: slot_next simp_thms)
  have q': "x = q_storage q (slot_addr q r')" "q' = q\<lparr>pcReadFrom := slot_addr q r'\<rparr>"
    using assms(3) d unfolding prvCopyDataFromQueue_def Let_def w by auto
  have r2: "(r' + 1 + i) mod uxLength q = (r + 1 + (i + 1)) mod uxLength q" for i
    unfolding r'_def using mod_add_left_eq [of "r + 1" "uxLength q" "1 + i"] by (simp add: algebra_simps)
  have "r' < uxLength q" using d by (simp add: r'_def)
  then show "ring q'' r'"
    using d r2 [of "uxMessagesWaiting q - 1"] by (auto simp: ring_def q''_def q')
  obtain n where n: "uxMessagesWaiting q = Suc n" using d gr0_implies_Suc by blast
  show "q_slots q r = x # q_slots q'' r'"
    using r2 unfolding q_slots_def q''_def q' n
    by (simp add: r'_def upt_conv_Cons del: upt_Suc flip: map_Suc_upt)
qed


lemma ring_overwrite:
  assumes "ring q r" and "uxLength q = 1"
  shows "ring (prvCopyDataToQueue x queueOVERWRITE q) 0"
    and "q_slots (prvCopyDataToQueue x queueOVERWRITE q) 0 = [x]"
  using assms by (auto simp: ring_def prvCopyDataToQueue_def Let_def q_slots_def slot_addr_def)

text \<open>The contract of a bounded queue, and what it gives a client.\<close>

datatype 'a qop = QSend 'a | QRecv 'a

fun qrun :: "('a \<Rightarrow> 'q \<Rightarrow> (bool \<times> 'q) option) \<Rightarrow> ('a \<Rightarrow> 'q \<Rightarrow> (bool \<times> 'a) \<times> 'q) \<Rightarrow>
    'a qop list \<Rightarrow> 'q \<Rightarrow> ('a list \<times> 'a list \<times> 'q) option" where
  "qrun snd_op rcv_op [] q = Some ([], [], q)"
| "qrun snd_op rcv_op (QSend x # ops) q =
     (case snd_op x q of None \<Rightarrow> None | Some (b, q1) \<Rightarrow>
        map_option (\<lambda>(acc, rcv, q2). (if b then x # acc else acc, rcv, q2))
          (qrun snd_op rcv_op ops q1))"
| "qrun snd_op rcv_op (QRecv buf # ops) q =
     (case rcv_op buf q of ((b, y), q1) \<Rightarrow>
        map_option (\<lambda>(acc, rcv, q2). (acc, if b then y # rcv else rcv, q2))
          (qrun snd_op rcv_op ops q1))"

text \<open>
  The results of the single calls, and those of the reference: a list of at most \<open>n\<close> items that accepts an item exactly when
  it has room and delivers the oldest one exactly when there is one. A receive that delivers nothing leaves the buffer of the caller.
\<close>

datatype 'a qresult = Sent bool | Received bool 'a

fun qresults :: "('a \<Rightarrow> 'q \<Rightarrow> (bool \<times> 'q) option) \<Rightarrow> ('a \<Rightarrow> 'q \<Rightarrow> (bool \<times> 'a) \<times> 'q) \<Rightarrow>
    'a qop list \<Rightarrow> 'q \<Rightarrow> 'a qresult list option" where
  "qresults snd_op rcv_op [] q = Some []"
| "qresults snd_op rcv_op (QSend x # ops) q =
     (case snd_op x q of None \<Rightarrow> None | Some (b, q1) \<Rightarrow> map_option ((#) (Sent b)) (qresults snd_op rcv_op ops q1))"
| "qresults snd_op rcv_op (QRecv buf # ops) q =
     (case rcv_op buf q of ((b, y), q1) \<Rightarrow> map_option ((#) (Received b y)) (qresults snd_op rcv_op ops q1))"

fun fifo_results :: "nat \<Rightarrow> 'a qop list \<Rightarrow> 'a list \<Rightarrow> 'a qresult list" where
  "fifo_results n [] xs = []"
| "fifo_results n (QSend x # ops) xs =
     (if length xs < n then Sent True # fifo_results n ops (xs @ [x]) else Sent False # fifo_results n ops xs)"
| "fifo_results n (QRecv buf # ops) [] = Received False buf # fifo_results n ops []"
| "fifo_results n (QRecv buf # ops) (y # ys) = Received True y # fifo_results n ops ys"

locale bounded_fifo =
  fixes ok :: "'q \<Rightarrow> bool" and items :: "'q \<Rightarrow> 'a list" and cap :: "'q \<Rightarrow> nat"
    and send :: "'a \<Rightarrow> 'q \<Rightarrow> (bool \<times> 'q) option"
    and recv :: "'a \<Rightarrow> 'q \<Rightarrow> (bool \<times> 'a) \<times> 'q"
  assumes bound: "ok q \<Longrightarrow> length (items q) \<le> cap q"
    and send_room: "ok q \<Longrightarrow> length (items q) < cap q \<Longrightarrow>
      \<exists>q'. send x q = Some (True, q') \<and> ok q' \<and> cap q' = cap q \<and> items q' = items q @ [x]"
    and send_full: "ok q \<Longrightarrow> length (items q) = cap q \<Longrightarrow> send x q = Some (False, q)"
    and recv_some: "ok q \<Longrightarrow> items q = y # ys \<Longrightarrow>
      \<exists>q'. recv buf q = ((True, y), q') \<and> ok q' \<and> cap q' = cap q \<and> items q' = ys"
    and recv_none: "ok q \<Longrightarrow> items q = [] \<Longrightarrow> recv buf q = ((False, buf), q)"
begin

lemma send_cases:
  assumes "ok q"
  obtains (room) q' where "length (items q) < cap q" "send x q = Some (True, q')" "ok q'"
      "cap q' = cap q" "items q' = items q @ [x]"
    | (full) "length (items q) = cap q" "send x q = Some (False, q)"
  using bound [OF assms] send_room [OF assms] send_full [OF assms] by (metis le_neq_implies_less)

lemma recv_cases:
  assumes "ok q"
  obtains (item) y q' where "items q = y # items q'" "recv buf q = ((True, y), q')" "ok q'"
      "cap q' = cap q"
    | (empty) "items q = []" "recv buf q = ((False, buf), q)"
  using recv_some [OF assms] recv_none [OF assms] by (metis list.exhaust)

text \<open>Every run completes; what was accepted comes out in order, and the rest is still queued.\<close>

lemma history:
  assumes "ok q"
  shows "\<exists>acc rcv q'. qrun send recv ops q = Some (acc, rcv, q') \<and> ok q' \<and> cap q' = cap q
    \<and> items q @ acc = rcv @ items q'"
  using assms
proof (induction ops arbitrary: q)
  case Nil
  then show ?case by simp
next
  case (Cons op ops)
  show ?case
  proof (cases op)
    case (QSend x)
    from Cons.prems show ?thesis
    proof (cases rule: send_cases [where x = x])
      case (room q')
      with Cons.IH [of q'] QSend show ?thesis by auto
    next
      case full
      with Cons.IH [of q] Cons.prems QSend show ?thesis by auto
    qed
  next
    case (QRecv buf)
    from Cons.prems show ?thesis
    proof (cases rule: recv_cases [where buf = buf])
      case (item y q')
      with Cons.IH [of q'] QRecv show ?thesis by auto
    next
      case empty
      with Cons.IH [of q] Cons.prems QRecv show ?thesis by auto
    qed
  qed
qed

lemma results:
  assumes "ok q"
  shows "qresults send recv ops q = Some (fifo_results (cap q) ops (items q))"
  using assms
proof (induction ops arbitrary: q)
  case (Cons op ops)
  show ?case
  proof (cases op)
    case (QSend x)
    from Cons.prems show ?thesis by (cases rule: send_cases [where x = x]) (use Cons.IH Cons.prems QSend in auto)
  next
    case (QRecv buf)
    from Cons.prems show ?thesis by (cases rule: recv_cases [where buf = buf]) (use Cons.IH Cons.prems QRecv in auto)
  qed
qed simp

end

lemma q_send_room:
  assumes "q_ok q" and "uxMessagesWaiting q < uxLength q"
  shows "q_ok (prvCopyDataToQueue x queueSEND_TO_BACK q)"
    and "q_items (prvCopyDataToQueue x queueSEND_TO_BACK q) = q_items q @ [x]"
    and "uxLength (prvCopyDataToQueue x queueSEND_TO_BACK q) = uxLength q"
proof -
  note r = assms(1) [unfolded q_ok_def]
  show "q_ok (prvCopyDataToQueue x queueSEND_TO_BACK q)"
    by (rule ring_ok [OF ring_send(1) [OF r assms(2)]])
  show "q_items (prvCopyDataToQueue x queueSEND_TO_BACK q) = q_items q @ [x]"
    using ring_send(2) [OF r assms(2)]
    by (simp only: ring_items [OF ring_send(1) [OF r assms(2)]] ring_items [OF r])
  show "uxLength (prvCopyDataToQueue x queueSEND_TO_BACK q) = uxLength q"
    by (simp add: prvCopyDataToQueue_def Let_def)
qed

lemma q_receive_some:
  assumes "q_ok q" and "q_items q = y # ys"
  shows "\<exists>q1. prvCopyDataFromQueue buf q = (y, q1) \<and> uxLength q1 = uxLength q \<and>
    q_ok (q1\<lparr>uxMessagesWaiting := uxMessagesWaiting q - 1\<rparr>) \<and>
    q_items (q1\<lparr>uxMessagesWaiting := uxMessagesWaiting q - 1\<rparr>) = ys"
proof -
  note r = assms(1) [unfolded q_ok_def]
  obtain x q1 where c: "prvCopyDataFromQueue buf q = (x, q1)" by fastforce
  have n: "0 < uxMessagesWaiting q" using assms(2) length_q_items [of q] by simp
  note f = ring_receive [OF r n c]
  have "uxLength q1 = uxLength q" using c by (auto simp: prvCopyDataFromQueue_def Let_def split: if_splits)
  with f(2) assms(2) c ring_ok [OF f(1)] ring_items [OF f(1)] ring_items [OF r] show ?thesis
    by simp
qed

interpretation fq: bounded_fifo q_ok q_items uxLength
  "\<lambda>x. xQueueGenericSendFromISR x queueSEND_TO_BACK" xQueueReceiveFromISR
proof
  fix q :: "'a Queue_t" and x buf y :: 'a and ys
  assume ok: "q_ok q"
  show "length (q_items q) \<le> uxLength q" using q_ok_bound [OF ok] by simp
  show "\<exists>q'. xQueueGenericSendFromISR x queueSEND_TO_BACK q = Some (True, q') \<and> q_ok q' \<and>
      uxLength q' = uxLength q \<and> q_items q' = q_items q @ [x]" if "length (q_items q) < uxLength q"
    using that q_send_room [OF ok] by (simp add: xQueueGenericSendFromISR_def)
  show "xQueueGenericSendFromISR x queueSEND_TO_BACK q = Some (False, q)"
    if "length (q_items q) = uxLength q"
    using that by (simp add: xQueueGenericSendFromISR_def)
  show "\<exists>q'. xQueueReceiveFromISR buf q = ((True, y), q') \<and> q_ok q' \<and> uxLength q' = uxLength q \<and>
      q_items q' = ys" if "q_items q = y # ys"
    using q_receive_some [OF ok that, of buf] that length_q_items [of q]
    by (auto simp: xQueueReceiveFromISR_def)
  show "xQueueReceiveFromISR buf q = ((False, buf), q)" if "q_items q = []"
    using that length_q_items [of q] by (simp add: xQueueReceiveFromISR_def)
qed

lemma q_create:
  assumes "0 < n" "0 < sz" "n * sz \<le> SIZE_MAX - szq"
  shows "\<exists>q. xQueueGenericCreate szq n sz (Some a) mem = Some (Some q) \<and> q_ok q \<and> q_items q = [] \<and>
    uxLength q = n"
proof -
  have "sz \<le> SIZE_MAX div n"
    using assms by (subst less_eq_div_iff_mult_less_eq) (simp_all add: algebra_simps)
  moreover define q where "q = \<lparr>pcHead = a + int szq, pcWriteTo = a + int szq,
      pcTail = a + int szq + int (n * sz), pcReadFrom = a + int szq + int ((n - 1) * sz),
      q_storage = mem, xTasksWaitingToSend = [], xTasksWaitingToReceive = [],
      uxMessagesWaiting = 0, uxLength = n, uxItemSize = sz\<rparr>"
  moreover have "ring q (n - 1)"
    using assms by (simp add: q_def ring_def slot_addr_def)
  moreover have "q_slots q (n - 1) = []" by (simp add: q_slots_def q_def)
  ultimately show ?thesis
    using assms by (simp add: xQueueGenericCreate_def prvInitialiseNewQueue_def xQueueGenericReset_def
        Let_def ring_ok ring_items q_def)
qed


subsection \<open>Blocking receives return\<close>

text \<open>
  What the scheduler promises a task that blocks for \<open>t\<close> ticks in a system with invariant \<open>P\<close>: it runs again when the
  queue has an item, possibly in the same tick, or after some time, at most \<open>J\<close> ticks late, with its delay
  not aborted.
\<close>

definition env_ticks :: "(('a, 'e) qworld \<Rightarrow> bool) \<Rightarrow> nat \<Rightarrow> ('a, 'e) qenv \<Rightarrow> bool" where
  "env_ticks P J env \<longleftrightarrow> (\<forall>t q k e. P (q, k, e) \<longrightarrow> (case env t (q, k, e) of (q', k', e') \<Rightarrow>
     P (q', k', e') \<and> (\<not> ucDelayAborted k \<longrightarrow> \<not> ucDelayAborted k') \<and>
     now k \<le> now k' \<and> now k' \<le> now k + unat t + J \<and> (now k < now k' \<or> 0 < uxMessagesWaiting q')))"

lemma env_ticksD:
  assumes "env_ticks P J env" and "P (q, k, e)" and "\<not> ucDelayAborted k"
  obtains q1 k1 e1 where "env t (q, k, e) = (q1, k1, e1)" "P (q1, k1, e1)" "\<not> ucDelayAborted k1"
    "now k \<le> now k1" "now k1 \<le> now k + unat t + J" "now k < now k1 \<or> 0 < uxMessagesWaiting q1"
  using assms unfolding env_ticks_def by (metis (no_types, lifting) case_prodE)

lemma receive_loop_returns:
  assumes env: "env_ticks P J env" and "unat ticks + J < 2 ^ 32 - 1" and "\<not> ucDelayAborted k"
    and "armed_at t \<le> now k" and "now k \<le> armed_at t + unat ticks + J" and "armed_at t < now k \<or> 0 < uxMessagesWaiting q"
    and "P (q, k, e)"
  shows "\<exists>b y q' k' e'. xQueueReceive_loop env buf (Some t) ticks (q, k, e) = Some ((b, y), q', k', e')
    \<and> now k \<le> now k' \<and> now k' \<le> armed_at t + unat ticks + J \<and> \<not> ucDelayAborted k'
    \<and> (\<not> b \<longrightarrow> y = buf \<and> uxMessagesWaiting q' = 0 \<and> armed_at t + unat ticks \<le> now k')"
  using assms(2-)
proof (induction "unat ticks" arbitrary: ticks t q k e rule: less_induct)
  case less
  define n where "n = now k - armed_at t"
  have n: "now k = armed_at t + n" "n \<le> unat ticks + J" "n < 2 ^ 32"
    using less.prems(1,3,4) by (simp_all add: n_def)
  have max: "ticks \<noteq> portMAX_DELAY" using less.prems(1) by (auto simp: unsigned_numeral)
  note chk = check_timeout [OF n(1,3) less.prems(2) max]
  consider (item) "0 < uxMessagesWaiting q" | (zero) "uxMessagesWaiting q = 0" "ticks = 0"
    | (over) "uxMessagesWaiting q = 0" "ticks \<noteq> 0" "unat ticks \<le> n"
    | (wait) "uxMessagesWaiting q = 0" "ticks \<noteq> 0" "n < unat ticks" by linarith
  then show ?case
  proof cases
    case item
    then show ?thesis using less.prems
      by (subst xQueueReceive_loop.simps) (auto split: prod.split)
  next
    case zero
    then show ?thesis using less.prems
      by (subst xQueueReceive_loop.simps) (auto intro: exI [of _ False])
  next
    case over
    then show ?thesis using less.prems n
      by (subst xQueueReceive_loop.simps) (auto simp: chk intro: exI [of _ False])
  next
    case wait
    let ?l = "ticks - of_nat n"
    have l: "unat ?l = unat ticks - n" "0 < n"
      using wait n less.prems(5) by (simp_all add: unat_sub word_le_nat_alt unsigned_of_nat take_bit_nat_eq_self)
    from env_ticksD [OF env less.prems(6,2), of ?l] obtain q1 k1 e1 where
      e1: "env ?l (q, k, e) = (q1, k1, e1)" "P (q1, k1, e1)"
      and k1: "\<not> ucDelayAborted k1" "now k \<le> now k1" "now k1 \<le> now k + unat ?l + J"
        "now k < now k1 \<or> 0 < uxMessagesWaiting q1" by metis
    have "unat ?l < unat ticks" "unat ?l + J < 2 ^ 32 - 1" using l wait less.prems(1) by auto
    from less.hyps [OF this k1(1), of "vTaskInternalSetTimeOutState k" q1 e1] k1 e1(2)
    obtain b y q' k' e' where
      "xQueueReceive_loop env buf (Some (vTaskInternalSetTimeOutState k)) ?l (q1, k1, e1)
         = Some ((b, y), q', k', e')" "now k1 \<le> now k'" "now k' \<le> now k + unat ?l + J"
      "\<not> ucDelayAborted k'"
      "\<not> b \<Longrightarrow> y = buf \<and> uxMessagesWaiting q' = 0 \<and> now k + unat ?l \<le> now k'" by auto
    then show ?thesis using wait n k1 l
      by (subst xQueueReceive_loop.simps) (simp add: chk e1(1))
  qed
qed

lemma receive_returns:
  assumes env: "env_ticks P J env" and "unat ticks + J < 2 ^ 32 - 1" and "\<not> ucDelayAborted k" and "P (q, k, e)"
  shows "\<exists>b y q' k' e'. xQueueReceive env buf ticks (q, k, e) = Some ((b, y), q', k', e')
    \<and> now k \<le> now k' \<and> now k' \<le> now k + unat ticks + J \<and> \<not> ucDelayAborted k'
    \<and> (\<not> b \<longrightarrow> y = buf \<and> uxMessagesWaiting q' = 0 \<and> now k + unat ticks \<le> now k')"
proof -
  from env_ticksD [OF env assms(4,3), of ticks] obtain q1 k1 e1 where
    e1: "env ticks (q, k, e) = (q1, k1, e1)" "P (q1, k1, e1)"
    and k1: "\<not> ucDelayAborted k1" "now k \<le> now k1" "now k1 \<le> now k + unat ticks + J"
      "now k < now k1 \<or> 0 < uxMessagesWaiting q1" by metis
  have max: "ticks \<noteq> portMAX_DELAY" using assms(2) by (auto simp: unsigned_numeral)
  note l = receive_loop_returns [OF env assms(2) k1(1), of "vTaskInternalSetTimeOutState k" q1 e1 buf]
  note chk = check_timeout [of k "vTaskInternalSetTimeOutState k" 0, OF _ _ assms(3) max]
  show ?thesis
  proof (cases "uxMessagesWaiting q = 0 \<and> ticks \<noteq> 0")
    case True
    with l k1 e1 obtain b y q' k' e' where
      "xQueueReceive_loop env buf (Some (vTaskInternalSetTimeOutState k)) ticks (q1, k1, e1)
         = Some ((b, y), q', k', e')" "now k1 \<le> now k'" "now k' \<le> now k + unat ticks + J"
      "\<not> ucDelayAborted k'"
      "\<not> b \<Longrightarrow> y = buf \<and> uxMessagesWaiting q' = 0 \<and> now k + unat ticks \<le> now k'" by auto
    with True k1 chk e1 show ?thesis
      unfolding xQueueReceive_def by (subst xQueueReceive_loop.simps) (simp add: unat_gt_0)
  next
    case False
    obtain y q' where y: "prvCopyDataFromQueue buf q = (y, q')" by fastforce
    show ?thesis
    proof (cases "uxMessagesWaiting q = 0")
      case True
      with False assms(3) have "xQueueReceive env buf ticks (q, k, e) = Some ((False, buf), q, k, e)"
        unfolding xQueueReceive_def by (subst xQueueReceive_loop.simps) simp
      with True False assms(3) show ?thesis by (auto intro: exI [of _ False])
    next
      case item: False
      with y have "xQueueReceive env buf ticks (q, k, e) =
          Some ((True, y), wake_sender (q'\<lparr>uxMessagesWaiting := uxMessagesWaiting q - 1\<rparr>), k, e)"
        unfolding xQueueReceive_def by (subst xQueueReceive_loop.simps) simp
      with assms(3) show ?thesis by auto
    qed
  qed
qed

text \<open>
  What a blocking receive does to the system: an invariant \<open>P\<close> that the other tasks keep holds when
  the call returns, and an item it delivers was taken from a queue of which \<open>P\<close> held.
\<close>

definition recv_post where
  "recv_post P buf r \<longleftrightarrow> (case r of ((b, y), q', k', e') \<Rightarrow>
     if b then \<exists>q0. P (q0, k', e') \<and> 0 < uxMessagesWaiting q0 \<and>
                xQueueReceiveFromISR buf q0 = ((True, y), q')
     else P (q', k', e') \<and> y = buf)"

lemma check_kernel:
  "xTaskCheckForTimeOut t ticks k = (b, t', ticks', k') \<Longrightarrow> k' = k \<or> k' = k\<lparr>ucDelayAborted := False\<rparr>"
  by (auto simp: xTaskCheckForTimeOut_def Let_def split: if_splits)


lemma receive_loop_post:
  assumes "xQueueReceive_loop env buf to ticks w = Some r" and "P w"
    and "\<And>t w. P w \<Longrightarrow> P (env t w)"
    and "\<And>q k e. P (q, k, e) \<Longrightarrow> P (q, k\<lparr>ucDelayAborted := False\<rparr>, e)"
  shows "recv_post P buf r"
  using assms
proof (induction rule: xQueueReceive_loop.raw_induct [rotated, consumes 1, case_names loop])
  case (loop f env buf to ticks w r)
  obtain q k e where w: "w = (q, k, e)" by (metis prod.exhaust)
  show ?case
  proof (cases "0 < uxMessagesWaiting q")
    case True
    with loop.prems(1) loop.hyps w show ?thesis
      by (auto simp: recv_post_def xQueueReceiveFromISR_def split: prod.splits)
  next
    case False
    obtain b t l k1 where c: "xTaskCheckForTimeOut
        (case to of None \<Rightarrow> vTaskInternalSetTimeOutState k | Some t \<Rightarrow> t) ticks k = (b, t, l, k1)"
      by (metis prod.exhaust)
    have "P (q, k1, e)" using check_kernel [OF c] loop.prems(1,3) w by auto
    with False loop.hyps loop.prems w c loop.IH [of env buf "Some t" l "env l (q, k1, e)" r]
    show ?thesis by (auto simp: recv_post_def split: if_splits)
  qed
qed

lemmas receive_post = receive_loop_post [of _ _ None, folded xQueueReceive_def]


text \<open>Without waiting, the blocking calls are the calls from interrupts.\<close>

lemma xQueueSend_no_wait:
  "xQueueGenericSend env x 0 queueSEND_TO_BACK (q, k, e) =
     map_option (\<lambda>(b, q'). (b, q', k, e)) (xQueueGenericSendFromISR x queueSEND_TO_BACK q)"
  by (simp add: xQueueGenericSend_def xQueueSend_loop.simps xQueueGenericSendFromISR_def)

lemma xQueueReceive_no_wait:
  "xQueueReceive env buf 0 (q, k, e) =
     (case xQueueReceiveFromISR buf q of (r, q') \<Rightarrow> Some (r, q', k, e))"
  by (simp add: xQueueReceive_def xQueueReceive_loop.simps xQueueReceiveFromISR_def split: prod.split)

lemma now_funpow [simp]: "now ((xTaskIncrementTick ^^ n) k) = now k + n"
  by (induction n) simp_all

lemma aborted_funpow [simp]: "ucDelayAborted ((xTaskIncrementTick ^^ n) k) = ucDelayAborted k"
  by (induction n) (simp_all add: xTaskIncrementTick_def Let_def)

subsection \<open>Properties\<close>

text \<open>
  C5. The queues of the kernel are bounded first-in-first-out queues: on a queue of \<open>n\<close> items made by
  \<open>xQueueGenericCreate\<close>, any sequence of non-blocking sends and receives runs to its end, and every single call
  returns what it returns on a list of at most \<open>n\<close> items: a send is accepted exactly when fewer than \<open>n\<close>
  items are queued, a receive delivers the oldest item exactly when there is one. The items accepted are, in order, the items
  delivered followed by the items still queued, however often the ring buffer has wrapped around.
\<close>

theorem xQueue_fifo_history:
  assumes "xQueueGenericCreate szq n sz (Some a) mem = Some (Some q)" and "0 < sz"
  shows "qresults (\<lambda>x. xQueueGenericSendFromISR x queueSEND_TO_BACK) xQueueReceiveFromISR ops q = Some (fifo_results n ops []) \<and>
    (\<exists>acc rcv q'. qrun (\<lambda>x. xQueueGenericSendFromISR x queueSEND_TO_BACK) xQueueReceiveFromISR ops q
      = Some (acc, rcv, q') \<and> acc = rcv @ q_items q' \<and> length (q_items q') \<le> n)"
proof -
  have "0 < n" "n * sz \<le> SIZE_MAX - szq"
    using assms(1) by (auto simp: xQueueGenericCreate_def split: if_splits)
  with q_create [of n sz szq a mem] assms have q: "q_ok q" "q_items q = []" "uxLength q = n" by auto
  from fq.history [OF q(1), of ops] obtain acc rcv q' where
    "qrun (\<lambda>x. xQueueGenericSendFromISR x queueSEND_TO_BACK) xQueueReceiveFromISR ops q
       = Some (acc, rcv, q')" "q_ok q'" "uxLength q' = n" "acc = rcv @ q_items q'"
    using q(2,3) by auto
  then show ?thesis using fq.bound [of q'] fq.results [OF q(1), of ops] q by auto
qed

theorem xQueue_fifo_history_witness:
  "\<exists>q. xQueueGenericCreate 80 2 4 (Some 0x3ffb0000) (\<lambda>_. 0 :: nat) = Some (Some q) \<and>
     qresults (\<lambda>x. xQueueGenericSendFromISR x queueSEND_TO_BACK) xQueueReceiveFromISR
       [QSend 1, QSend 2, QSend 3, QRecv 0, QSend 4, QRecv 0, QRecv 0, QRecv 9] q =
     Some [Sent True, Sent True, Sent False, Received True 1, Sent True, Received True 2, Received True 4, Received False 9]"
proof -
  obtain q where q: "xQueueGenericCreate 80 2 4 (Some 0x3ffb0000) (\<lambda>_. 0 :: nat) = Some (Some q)"
    by (simp add: xQueueGenericCreate_def prvInitialiseNewQueue_def xQueueGenericReset_def Let_def)
  from xQueue_fifo_history [OF q,
      of "[QSend 1, QSend 2, QSend 3, QRecv 0, QSend 4, QRecv 0, QRecv 0, QRecv 9]"] q
  show ?thesis by auto
qed

lemma send_positions_facts:
  assumes "q_ok q"
  shows "uxMessagesWaiting q < uxLength q \<Longrightarrow>
      \<exists>q'. xQueueGenericSendFromISR x queueSEND_TO_FRONT q = Some (True, q') \<and> q_ok q' \<and>
        q_items q' = x # q_items q"
    and "uxLength q = 1 \<Longrightarrow>
      \<exists>q'. xQueueGenericSendFromISR x queueOVERWRITE q = Some (True, q') \<and> q_ok q' \<and> q_items q' = [x]"
    and "uxLength q \<noteq> 1 \<Longrightarrow> xQueueGenericSendFromISR x queueOVERWRITE q = None"
proof -
  note r = assms [unfolded q_ok_def]
  show "\<exists>q'. xQueueGenericSendFromISR x queueSEND_TO_FRONT q = Some (True, q') \<and> q_ok q' \<and>
      q_items q' = x # q_items q" if "uxMessagesWaiting q < uxLength q"
    using that ring_send_front(2) [OF r that]
    by (simp add: xQueueGenericSendFromISR_def ring_items [OF r] ring_ok [OF ring_send_front(1) [OF r that]]
        ring_items [OF ring_send_front(1) [OF r that]] del: add_diff_assoc)
  show "\<exists>q'. xQueueGenericSendFromISR x queueOVERWRITE q = Some (True, q') \<and> q_ok q' \<and> q_items q' = [x]"
    if "uxLength q = 1"
    using that ring_overwrite(2) [OF r that]
    by (simp add: xQueueGenericSendFromISR_def ring_ok [OF ring_overwrite(1) [OF r that]]
        ring_items [OF ring_overwrite(1) [OF r that]])
  show "xQueueGenericSendFromISR x queueOVERWRITE q = None" if "uxLength q \<noteq> 1"
    using that by (simp add: xQueueGenericSendFromISR_def)
qed

text \<open>
  The other send positions: \<open>queueSEND_TO_FRONT\<close> puts the item before all others;
  \<open>queueOVERWRITE\<close> turns a queue of length one into a mailbox that always holds the last item; on a
  longer queue it fails the assertion.
\<close>

theorem xQueue_send_positions:
  assumes "q_ok q"
  shows "(uxMessagesWaiting q < uxLength q \<longrightarrow>
      (\<exists>q'. xQueueGenericSendFromISR x queueSEND_TO_FRONT q = Some (True, q') \<and> q_ok q' \<and>
        q_items q' = x # q_items q)) \<and>
    (uxLength q = 1 \<longrightarrow>
      (\<exists>q'. xQueueGenericSendFromISR x queueOVERWRITE q = Some (True, q') \<and> q_ok q' \<and> q_items q' = [x])) \<and>
    (uxLength q \<noteq> 1 \<longrightarrow> xQueueGenericSendFromISR x queueOVERWRITE q = None)"
  using send_positions_facts [OF assms] by blast

theorem xQueue_send_positions_witness:
  "\<exists>q. xQueueGenericCreate 80 1 4 (Some 0x3ffb0000) (\<lambda>_. 0 :: nat) = Some (Some q) \<and>
    (\<exists>q'. xQueueGenericSendFromISR 7 queueOVERWRITE q = Some (True, q') \<and> q_ok q' \<and> q_items q' = [7])"
proof -
  from q_create [of 1 4 80 "0x3ffb0000" "\<lambda>_. 0 :: nat"] obtain q where
    "xQueueGenericCreate 80 1 4 (Some 0x3ffb0000) (\<lambda>_. 0 :: nat) = Some (Some q)"
    "q_ok q" "uxLength q = 1" by auto
  with xQueue_send_positions [of q 7] show ?thesis by blast
qed

text \<open>
  C21. The time-out test is exact, also when the 32-bit tick counter wraps around in between: \<open>n\<close> ticks
  after the time-out was armed (fewer than a whole turn of the counter), \<open>xTaskCheckForTimeOut\<close>
  reports a time-out exactly when the requested wait is over, and otherwise re-arms the time-out and
  leaves the rest of the wait.
\<close>

theorem xTaskCheckForTimeOut_exact:
  assumes "n < 2 ^ 32" and "\<not> ucDelayAborted k" and "wait \<noteq> portMAX_DELAY"
    and "k' = (xTaskIncrementTick ^^ n) k"
  shows "xTaskCheckForTimeOut (vTaskInternalSetTimeOutState k) wait k' =
    (if unat wait \<le> n then (True, vTaskInternalSetTimeOutState k, 0, k')
     else (False, vTaskInternalSetTimeOutState k', wait - of_nat n, k'))"
  using check_timeout [of k' "vTaskInternalSetTimeOutState k" n wait] assms by simp

theorem xTaskCheckForTimeOut_exact_witness:
  "(let k = \<lparr>xTickCount = 0xfffffffe, xNumOfOverflows = 0, ucDelayAborted = False\<rparr>;
        k' = (xTaskIncrementTick ^^ 3) k
    in xTaskCheckForTimeOut (vTaskInternalSetTimeOutState k) 5 k' =
         (False, vTaskInternalSetTimeOutState k', 2, k'))"
  using xTaskCheckForTimeOut_exact
    [of 3 "\<lparr>xTickCount = 0xfffffffe, xNumOfOverflows = 0, ucDelayAborted = False\<rparr>" 5] by simp

text \<open>
  C20. A receive with a finite time-out returns in time, whatever the other tasks do to the queue: if a blocked
  caller runs again only when the queue has an item (possibly in the same tick) or after some time has passed, and at most \<open>J\<close> ticks
  after the time it asked for, \<open>xQueueReceive\<close> ends, at most \<open>J\<close> ticks after its time-out; when it reports an empty queue, the
  queue is empty and the whole time-out has passed. The time-out and \<open>J\<close> together are less than a whole turn of the tick counter.
\<close>

theorem xQueueReceive_returns:
  assumes "\<And>t q k e q' k' e'. env t (q, k, e) = (q', k', e') \<Longrightarrow>
      (ucDelayAborted k' \<longrightarrow> ucDelayAborted k) \<and> now k \<le> now k' \<and> now k' \<le> now k + unat t + J \<and>
      (now k < now k' \<or> 0 < uxMessagesWaiting q')"
    and "unat ticks + J < 2 ^ 32 - 1" and "\<not> ucDelayAborted k"
  shows "\<exists>b y q' k' e'. xQueueReceive env buf ticks (q, k, e) = Some ((b, y), q', k', e')
    \<and> now k \<le> now k' \<and> now k' \<le> now k + unat ticks + J
    \<and> (\<not> b \<longrightarrow> y = buf \<and> uxMessagesWaiting q' = 0 \<and> now k + unat ticks \<le> now k')"
proof -
  have "env_ticks (\<lambda>_. True) J env" using assms(1) by (auto simp: env_ticks_def split: prod.split)
  from receive_returns [OF this assms(2,3), where q = q and e = e and buf = buf] show ?thesis by blast
qed

text \<open>A system in which another task sends an item in the tick in which the caller blocks.\<close>

definition demo_sender :: "(nat, unit) qenv" where
  "demo_sender t w = (case w of (q, k, e) \<Rightarrow>
     if uxMessagesWaiting q < uxLength q then (wake_receiver (prvCopyDataToQueue 5 queueSEND_TO_BACK q), k, e)
     else (q, xTaskIncrementTick k, e))"

lemma demo_sender_wakes:
  assumes "demo_sender t (q, k, e) = (q', k', e')"
  shows "(ucDelayAborted k' \<longrightarrow> ucDelayAborted k) \<and> now k \<le> now k' \<and> now k' \<le> now k + unat t + 1 \<and>
    (now k < now k' \<or> 0 < uxMessagesWaiting q')"
  using assms aborted_funpow [of 1 k]
  by (auto simp: demo_sender_def prvCopyDataToQueue_def Let_def split: if_splits)

theorem xQueueReceive_returns_witness:
  "\<exists>b y q' k' e'. xQueueReceive demo_sender 0 400
      (\<lparr>pcHead = 0, pcWriteTo = 0, pcTail = 4, pcReadFrom = 0, q_storage = \<lambda>_. 0 :: nat,
        xTasksWaitingToSend = [], xTasksWaitingToReceive = [7], uxMessagesWaiting = 0, uxLength = 1,
        uxItemSize = 4\<rparr>, \<lparr>xTickCount = 0xffffff00, xNumOfOverflows = 0, ucDelayAborted = False\<rparr>, ())
      = Some ((b, y), q', k', e')
    \<and> now k' \<le> now \<lparr>xTickCount = 0xffffff00, xNumOfOverflows = 0, ucDelayAborted = False\<rparr> + 401"
  using xQueueReceive_returns [of demo_sender 1 400, OF demo_sender_wakes,
      where k = "\<lparr>xTickCount = 0xffffff00, xNumOfOverflows = 0, ucDelayAborted = False\<rparr>"
      and buf = 0 and q = "\<lparr>pcHead = 0, pcWriteTo = 0, pcTail = 4, pcReadFrom = 0, q_storage = \<lambda>_. 0 :: nat,
        xTasksWaitingToSend = [], xTasksWaitingToReceive = [7], uxMessagesWaiting = 0, uxLength = 1,
        uxItemSize = 4\<rparr>" and e = "()"]
  by (fastforce simp: unsigned_numeral)

end
