(* ===== verification/CamHal.thy ===== *)
theory CamHal
  imports Sensor Rtos
begin

text \<open>
  The frame capture of \<open>driver/cam_hal.c\<close>: the JPEG marker searches, the capture task with its
  state machine, the events sent from interrupts, and the calls by which the application takes
  and gives back frame buffers.

  \<open>cam_obj_t\<close> holds the fields of the driver object that \<open>cam_hal.c\<close> uses, \<open>cam_world\<close> adds the local
  variables of \<open>cam_task\<close> and the state of the capture hardware. The header \<open>ll_cam.h\<close> and the
  low-level driver behind it are not part of the sources: its calls are the fields of \<open>ll_cam\<close>,
  functions of a hardware state of arbitrary type. A pointer to a frame's \<open>camera_fb_t\<close> is the
  frame's index, NULL is \<open>None\<close>; the memory a frame buffer points to is the list \<open>fb_mem\<close>. Sizes are
  natural numbers with the 32-bit wrap-around of \<open>size_t\<close> written out. The result \<open>None\<close> stands
  for undefined behaviour (an access outside an object, a division by zero) and for a failed
  assertion of the kernel.

  The body of the loop of \<open>cam_task\<close> is cut into fragments at its calls into the kernel's
  queues, the points where the application can run in between: \<open>cam_task_frag\<close> runs one
  fragment, \<open>cam_task_run\<close> the rest of the loop body.
\<close>

subsection \<open>State\<close>

datatype cam_event_t = CAM_IN_SUC_EOF_EVENT | CAM_VSYNC_EVENT

datatype cam_state_t = CAM_STATE_IDLE | CAM_STATE_READ_BUF

record camera_fb_t =
  fb_buf :: int
  fb_mem :: "u8 list"
  fb_len :: nat
  fb_width :: nat
  fb_height :: nat
  fb_format :: pixformat_t
  fb_tv_sec :: nat
  fb_tv_usec :: nat

record lldesc_t =
  ld_size :: nat
  ld_length :: nat
  ld_sosf :: nat
  ld_eof :: nat
  ld_owner :: nat
  ld_buf :: int
  ld_empty :: int

record cam_frame_t =
  fb :: camera_fb_t
  fr_dma :: "(int \<times> lldesc_t list) option"
  fb_offset :: nat
  en :: bool

type_synonym fb_ptr = "nat option"

record cam_obj_t =
  dma_bytes_per_item :: nat
  dma_buffer_size :: nat
  dma_half_buffer_size :: nat
  dma_half_buffer_cnt :: nat
  dma_node_buffer_size :: nat
  dma_node_cnt :: nat
  frame_copy_cnt :: nat
  recv_size :: nat
  fb_size :: nat
  cam_width :: nat
  cam_height :: nat
  in_bytes_per_pixel :: nat
  fb_bytes_per_pixel :: nat
  frame_cnt :: nat
  jpeg_mode :: bool
  psram_mode :: bool
  swap_data :: bool
  vsync_pin :: int
  vsync_invert :: bool
  frames :: "cam_frame_t list"
  frames_ptr :: "int option"
  dma_buffer :: "(int \<times> u8 list) option"
  obj_dma :: "(int \<times> lldesc_t list) option"
  event_queue :: "cam_event_t Queue_t option"
  frame_buffer_queue :: "fb_ptr Queue_t option"
  task_handle :: bool
  cam_state :: cam_state_t

record 'e ll_cam =
  ll_cam_start :: "nat \<Rightarrow> 'e \<Rightarrow> bool \<times> 'e"
  ll_cam_stop :: "'e \<Rightarrow> 'e"
  ll_cam_do_vsync :: "'e \<Rightarrow> 'e"
  ll_cam_vsync_intr_enable :: "bool \<Rightarrow> 'e \<Rightarrow> 'e"
  ll_cam_memcpy :: "u8 list \<Rightarrow> u8 list"
  esp_timer_get_time :: "'e \<Rightarrow> nat"
  ll_cam_dma_reset :: "('e \<Rightarrow> 'e) option"

text \<open>
  \<open>ll_cam_dma_reset\<close> is compiled for the ESP32-S3 only and \<open>None\<close> elsewhere. The local variable \<open>cnt\<close> of the task
  counts the half buffers of one frame; it is a mathematical integer here, an \<open>int\<close> in the code, which
  would take $2^{31}$ half buffers without a vertical sync to overflow.
\<close>

record 'e cam_world =
  cam :: cam_obj_t
  cw_hw :: 'e
  ct_cnt :: int
  ct_frame_pos :: nat

abbreviation upd_cam :: "(cam_obj_t \<Rightarrow> cam_obj_t) \<Rightarrow> 'e cam_world \<Rightarrow> 'e cam_world" where
  "upd_cam f w \<equiv> w\<lparr>cam := f (cam w)\<rparr>"

definition ll_stop :: "'e ll_cam \<Rightarrow> 'e cam_world \<Rightarrow> 'e cam_world" where
  "ll_stop ll w = w\<lparr>cw_hw := ll_cam_stop ll (cw_hw w)\<rparr>"

text \<open>\<open>size_t\<close> arithmetic.\<close>

definition sz :: "nat \<Rightarrow> nat" where
  "sz n = n mod 2 ^ 32"

text \<open>Array and memory accesses.\<close>

definition frame_at :: "nat \<Rightarrow> cam_obj_t \<Rightarrow> cam_frame_t option" where
  "frame_at x c = (if x < length (frames c) then Some (frames c ! x) else None)"

definition set_frame :: "nat \<Rightarrow> (cam_frame_t \<Rightarrow> cam_frame_t) \<Rightarrow> cam_obj_t \<Rightarrow> cam_obj_t option" where
  "set_frame x f c = (if x < length (frames c)
     then Some (c\<lparr>frames := (frames c)[x := f (frames c ! x)]\<rparr>) else None)"

definition set_en :: "nat \<Rightarrow> bool \<Rightarrow> cam_obj_t \<Rightarrow> cam_obj_t option" where
  "set_en x b = set_frame x (en_update (\<lambda>_. b))"

definition set_len :: "nat \<Rightarrow> nat \<Rightarrow> cam_obj_t \<Rightarrow> cam_obj_t option" where
  "set_len x n = set_frame x (fb_update (fb_len_update (\<lambda>_. n)))"

definition mem_read :: "u8 list \<Rightarrow> nat \<Rightarrow> nat \<Rightarrow> u8 list option" where
  "mem_read m p n = (if p + n \<le> length m then Some (take n (drop p m)) else None)"

definition mem_write :: "u8 list \<Rightarrow> nat \<Rightarrow> u8 list \<Rightarrow> u8 list option" where
  "mem_write m p bs = (if p + length bs \<le> length m
     then Some (take p m @ bs @ drop (p + length bs) m) else None)"

subsection \<open>The JPEG markers\<close>

definition JPEG_SOI_MARKER :: "u8 list" where
  "JPEG_SOI_MARKER = [0xFF, 0xD8, 0xFF]"

definition JPEG_EOI_MARKER :: "u8 list" where
  "JPEG_EOI_MARKER = [0xFF, 0xD9]"

function soi_from :: "u8 list \<Rightarrow> nat \<Rightarrow> nat \<Rightarrow> int option" where
  "soi_from inbuf len i =
     (if i < len then do {
        bs \<leftarrow> mem_read inbuf i 3;
        if bs = JPEG_SOI_MARKER then Some (int i) else soi_from inbuf len (i + 1) }
      else Some (- 1))"
  by pat_completeness auto
termination by (relation "measure (\<lambda>(b, l, i). l - i)") auto

declare soi_from.simps [simp del]

definition cam_verify_jpeg_soi :: "u8 list \<Rightarrow> nat \<Rightarrow> int option" where
  "cam_verify_jpeg_soi inbuf len = soi_from inbuf len 0"

text \<open>The pointer walks down from two bytes before the end and stops at the start of the buffer.\<close>

fun eoi_from :: "u8 list \<Rightarrow> nat \<Rightarrow> int option" where
  "eoi_from inbuf 0 = Some (- 1)"
| "eoi_from inbuf (Suc d) = do {
     bs \<leftarrow> mem_read inbuf (Suc d) 2;
     if bs = JPEG_EOI_MARKER then Some (int (Suc d)) else eoi_from inbuf d }"

definition cam_verify_jpeg_eoi :: "u8 list \<Rightarrow> nat \<Rightarrow> int option" where
  "cam_verify_jpeg_eoi inbuf len = eoi_from inbuf (len - 2)"

subsection \<open>Giving frames back\<close>

definition cam_give :: "fb_ptr \<Rightarrow> cam_obj_t \<Rightarrow> cam_obj_t option" where
  "cam_give p c = (case find (\<lambda>x. p = Some x) [0..<frame_cnt c] of
      Some x \<Rightarrow> set_en x True c
    | None \<Rightarrow> Some c)"

fun give_from :: "nat list \<Rightarrow> cam_obj_t \<Rightarrow> cam_obj_t option" where
  "give_from [] c = Some c"
| "give_from (x # xs) c = do { c1 \<leftarrow> set_en x True c; give_from xs c1 }"

definition cam_give_all :: "cam_obj_t \<Rightarrow> cam_obj_t option" where
  "cam_give_all c = give_from [0..<frame_cnt c] c"

subsection \<open>Starting a frame\<close>

fun first_enabled :: "cam_obj_t \<Rightarrow> nat list \<Rightarrow> nat option option" where
  "first_enabled c [] = Some None"
| "first_enabled c (x # xs) = do {
     f \<leftarrow> frame_at x c;
     if en f then Some (Some x) else first_enabled c xs }"

definition cam_get_next_frame :: "nat \<Rightarrow> cam_obj_t \<Rightarrow> (bool \<times> nat) option" where
  "cam_get_next_frame frame_pos c = do {
     f \<leftarrow> frame_at frame_pos c;
     if \<not> en f then do {
       r \<leftarrow> first_enabled c [0..<frame_cnt c];
       (case r of Some x \<Rightarrow> Some (True, x) | None \<Rightarrow> Some (False, frame_pos)) }
     else Some (True, frame_pos) }"

definition cam_start_frame :: "'e ll_cam \<Rightarrow> 'e cam_world \<Rightarrow> (bool \<times> 'e cam_world) option" where
  "cam_start_frame ll w = do {
     (found, pos) \<leftarrow> cam_get_next_frame (ct_frame_pos w) (cam w);
     let w1 = w\<lparr>ct_frame_pos := pos\<rparr>;
     if found then
       (case ll_cam_start ll pos (cw_hw w1) of (started, h) \<Rightarrow>
          if started then do {
            let h1 = ll_cam_do_vsync ll h;
            let us = esp_timer_get_time ll h1;
            c1 \<leftarrow> set_frame pos (fb_update (\<lambda>b. b\<lparr>fb_tv_sec := us div 1000000,
                                                fb_tv_usec := us mod 1000000\<rparr>)) (cam w1);
            Some (True, w1\<lparr>cw_hw := h1, cam := c1\<rparr>) }
          else Some (False, w1\<lparr>cw_hw := h\<rparr>))
     else Some (False, w1) }"

subsection \<open>Events from interrupts\<close>

definition ll_cam_send_event :: "'e ll_cam \<Rightarrow> cam_event_t \<Rightarrow> 'e cam_world \<Rightarrow> 'e cam_world option" where
  "ll_cam_send_event ll cam_event w = do {
     q \<leftarrow> event_queue (cam w);
     (sent, q1) \<leftarrow> xQueueGenericSendFromISR cam_event queueSEND_TO_BACK q;
     let w1 = upd_cam (event_queue_update (\<lambda>_. Some q1)) w;
     Some (if \<not> sent then upd_cam (cam_state_update (\<lambda>_. CAM_STATE_IDLE)) (ll_stop ll w1) else w1) }"

subsection \<open>The capture task\<close>

text \<open>\<open>xQueueSend\<close> and \<open>xQueueReceive\<close> without waiting on the queue of filled frames.\<close>

definition fbq_send :: "fb_ptr \<Rightarrow> cam_obj_t \<Rightarrow> (bool \<times> cam_obj_t) option" where
  "fbq_send p c = do {
     q \<leftarrow> frame_buffer_queue c;
     (sent, q1) \<leftarrow> xQueueGenericSendFromISR p queueSEND_TO_BACK q;
     Some (sent, c\<lparr>frame_buffer_queue := Some q1\<rparr>) }"

definition fbq_receive :: "cam_obj_t \<Rightarrow> ((bool \<times> fb_ptr) \<times> cam_obj_t) option" where
  "fbq_receive c = do {
     q \<leftarrow> frame_buffer_queue c;
     (case xQueueReceiveFromISR None q of (r, q1) \<Rightarrow> Some (r, c\<lparr>frame_buffer_queue := Some q1\<rparr>)) }"

definition pixels_per_dma :: "cam_obj_t \<Rightarrow> nat option" where
  "pixels_per_dma c =
     (let d = sz (dma_bytes_per_item c * in_bytes_per_pixel c)
      in if d = 0 then None else Some (sz (dma_half_buffer_size c * fb_bytes_per_pixel c) div d))"

text \<open>Appending the half of the DMA buffer that \<open>cnt\<close> designates to the frame being filled.\<close>

definition copy_half :: "'e ll_cam \<Rightarrow> 'e cam_world \<Rightarrow> 'e cam_world option" where
  "copy_half ll w = do {
     let c = cam w;
     f \<leftarrow> frame_at (ct_frame_pos w) c;
     if dma_half_buffer_cnt c = 0 then None else do {
       (_, d) \<leftarrow> dma_buffer c;
       half \<leftarrow> mem_read d (nat (ct_cnt w) mod dma_half_buffer_cnt c * dma_half_buffer_size c)
                 (dma_half_buffer_size c);
       let out = ll_cam_memcpy ll half;
       m \<leftarrow> mem_write (fb_mem (fb f)) (fb_len (fb f)) out;
       c1 \<leftarrow> set_frame (ct_frame_pos w)
               (fb_update (\<lambda>b. b\<lparr>fb_mem := m, fb_len := sz (fb_len (fb f) + length out)\<rparr>)) c;
       Some (w\<lparr>cam := c1\<rparr>) } }"

text \<open>Where the loop body of \<open>cam_task\<close> stands: waiting for an event, at one of its calls on the
  frame queue, or about to start the next frame.\<close>

datatype cam_pc = PC_wait | PC_send | PC_pop | PC_push fb_ptr | PC_give fb_ptr | PC_start

definition cam_task_idle :: "'e ll_cam \<Rightarrow> cam_event_t \<Rightarrow> 'e cam_world \<Rightarrow> ('e cam_world \<times> cam_pc) option" where
  "cam_task_idle ll cam_event w =
     (if cam_event = CAM_VSYNC_EVENT then do {
        (started, w1) \<leftarrow> cam_start_frame ll w;
        w2 \<leftarrow> (if started then do {
                  c1 \<leftarrow> set_len (ct_frame_pos w1) 0 (cam w1);
                  Some (w1\<lparr>cam := c1\<lparr>cam_state := CAM_STATE_READ_BUF\<rparr>\<rparr>) }
                else Some w1);
        Some (w2\<lparr>ct_cnt := 0\<rparr>, PC_wait) }
      else Some (w, PC_wait))"

definition cam_task_eof :: "'e ll_cam \<Rightarrow> 'e cam_world \<Rightarrow> ('e cam_world \<times> cam_pc) option" where
  "cam_task_eof ll w = do {
     ppd \<leftarrow> pixels_per_dma (cam w);
     f \<leftarrow> frame_at (ct_frame_pos w) (cam w);
     if \<not> psram_mode (cam w) \<and> fb_size (cam w) < sz (fb_len (fb f) + ppd)
     then Some (ll_stop ll w, PC_wait)
     else do {
       w1 \<leftarrow> (if \<not> psram_mode (cam w) then copy_half ll w else Some w);
       f1 \<leftarrow> frame_at (ct_frame_pos w1) (cam w1);
       bad \<leftarrow> (if jpeg_mode (cam w1) \<and> ct_cnt w1 = 0
              then map_option (\<lambda>i. i \<noteq> 0) (cam_verify_jpeg_soi (fb_mem (fb f1)) (fb_len (fb f1)))
              else Some False);
       let w2 = (if bad then upd_cam (cam_state_update (\<lambda>_. CAM_STATE_IDLE)) (ll_stop ll w1) else w1);
       Some (w2\<lparr>ct_cnt := ct_cnt w2 + 1\<rparr>, PC_wait) } }"

text \<open>The end of a frame, up to the point where the frame is sent: the last half buffer of a JPEG
  image, the claim of the buffer (\<open>en = 0\<close>) and its length.\<close>

definition cam_vsync_tail :: "'e ll_cam \<Rightarrow> nat \<Rightarrow> 'e cam_world \<Rightarrow> 'e cam_world option" where
  "cam_vsync_tail ll ppd w =
     (if jpeg_mode (cam w) then do {
        f \<leftarrow> frame_at (ct_frame_pos w) (cam w);
        w1 \<leftarrow> (if \<not> psram_mode (cam w) then
                 if fb_size (cam w) < sz (fb_len (fb f) + ppd)
                 then Some (w\<lparr>ct_cnt := ct_cnt w - 1\<rparr>)
                 else copy_half ll w
               else Some w);
        Some (w1\<lparr>ct_cnt := ct_cnt w1 + 1\<rparr>) }
      else Some w)"

definition cam_vsync_claim :: "'e cam_world \<Rightarrow> 'e cam_world option" where
  "cam_vsync_claim w = do {
     let pos = ct_frame_pos w;
     c1 \<leftarrow> set_en pos False (cam w);
     c2 \<leftarrow> (if psram_mode c1 then
              if jpeg_mode c1 then set_len pos (sz (nat (ct_cnt w) * dma_half_buffer_size c1)) c1
              else set_len pos (recv_size c1) c1
            else if \<not> jpeg_mode c1 then do {
              f \<leftarrow> frame_at pos c1;
              if fb_len (fb f) \<noteq> fb_size c1 then set_en pos True c1 else Some c1 }
            else Some c1);
     Some (w\<lparr>cam := c2\<rparr>) }"

definition cam_task_vsync :: "'e ll_cam \<Rightarrow> 'e cam_world \<Rightarrow> ('e cam_world \<times> cam_pc) option" where
  "cam_task_vsync ll w = do {
     ppd \<leftarrow> pixels_per_dma (cam w);
     let w1 = ll_stop ll w;
     if ct_cnt w1 \<noteq> 0 \<or> \<not> jpeg_mode (cam w1) \<or> psram_mode (cam w1) then do {
       w2 \<leftarrow> cam_vsync_tail ll ppd w1;
       w3 \<leftarrow> cam_vsync_claim w2;
       Some (w3, PC_send) }
     else Some (w1, PC_start) }"

text \<open>One event, up to the first call on the frame queue.\<close>

definition cam_task_dispatch ::
    "'e ll_cam \<Rightarrow> cam_event_t \<Rightarrow> 'e cam_world \<Rightarrow> ('e cam_world \<times> cam_pc) option" where
  "cam_task_dispatch ll cam_event w =
     (case cam_state (cam w) of
        CAM_STATE_IDLE \<Rightarrow> cam_task_idle ll cam_event w
      | CAM_STATE_READ_BUF \<Rightarrow>
          (case cam_event of
             CAM_IN_SUC_EOF_EVENT \<Rightarrow> cam_task_eof ll w
           | CAM_VSYNC_EVENT \<Rightarrow> cam_task_vsync ll w))"

text \<open>The fragments after the calls on the frame queue.\<close>

fun cam_task_frag :: "'e ll_cam \<Rightarrow> cam_pc \<Rightarrow> 'e cam_world \<Rightarrow> ('e cam_world \<times> cam_pc) option" where
  "cam_task_frag ll PC_wait w = Some (w, PC_wait)"
| "cam_task_frag ll PC_send w = do {
     f \<leftarrow> frame_at (ct_frame_pos w) (cam w);
     if \<not> en f then do {
       (sent, c1) \<leftarrow> fbq_send (Some (ct_frame_pos w)) (cam w);
       Some (w\<lparr>cam := c1\<rparr>, if sent then PC_start else PC_pop) }
     else Some (w, PC_start) }"
| "cam_task_frag ll PC_pop w = do {
     ((got, fb2), c1) \<leftarrow> fbq_receive (cam w);
     if got then Some (w\<lparr>cam := c1\<rparr>, PC_push fb2)
     else do { c2 \<leftarrow> set_en (ct_frame_pos w) True c1; Some (w\<lparr>cam := c2\<rparr>, PC_start) } }"
| "cam_task_frag ll (PC_push fb2) w = do {
     (sent, c1) \<leftarrow> fbq_send (Some (ct_frame_pos w)) (cam w);
     c2 \<leftarrow> (if \<not> sent then set_en (ct_frame_pos w) True c1 else Some c1);
     Some (w\<lparr>cam := c2\<rparr>, PC_give fb2) }"
| "cam_task_frag ll (PC_give fb2) w = do {
     c1 \<leftarrow> cam_give fb2 (cam w);
     Some (w\<lparr>cam := c1\<rparr>, PC_start) }"
| "cam_task_frag ll PC_start w = do {
     (started, w1) \<leftarrow> cam_start_frame ll w;
     w2 \<leftarrow> (if \<not> started then Some (upd_cam (cam_state_update (\<lambda>_. CAM_STATE_IDLE)) w1)
            else do { c1 \<leftarrow> set_len (ct_frame_pos w1) 0 (cam w1); Some (w1\<lparr>cam := c1\<rparr>) });
     Some (w2\<lparr>ct_cnt := 0\<rparr>, PC_wait) }"

partial_function (option) cam_task_run :: "'e ll_cam \<Rightarrow> cam_pc \<Rightarrow> 'e cam_world \<Rightarrow> 'e cam_world option" where
  "cam_task_run ll pc w =
     (if pc = PC_wait then Some w
      else do { (w1, pc1) \<leftarrow> cam_task_frag ll pc w; cam_task_run ll pc1 w1 })"

text \<open>The body of the loop of \<open>cam_task\<close> for a received event, with nothing running in between.\<close>

definition cam_task_event :: "'e ll_cam \<Rightarrow> cam_event_t \<Rightarrow> 'e cam_world \<Rightarrow> 'e cam_world option" where
  "cam_task_event ll cam_event w = do {
     (w1, pc) \<leftarrow> cam_task_dispatch ll cam_event w;
     cam_task_run ll pc w1 }"

text \<open>The code before the loop.\<close>

definition cam_task_init :: "'e cam_world \<Rightarrow> 'e cam_world option" where
  "cam_task_init w = do {
     let w1 = upd_cam (cam_state_update (\<lambda>_. CAM_STATE_IDLE)) (w\<lparr>ct_cnt := 0, ct_frame_pos := 0\<rparr>);
     q \<leftarrow> event_queue (cam w1);
     q1 \<leftarrow> xQueueGenericReset False q;
     Some (upd_cam (event_queue_update (\<lambda>_. Some q1)) w1) }"

subsection \<open>Starting, stopping and taking frames\<close>

definition cam_stop :: "'e ll_cam \<Rightarrow> 'e cam_world \<Rightarrow> 'e cam_world" where
  "cam_stop ll w = ll_stop ll (w\<lparr>cw_hw := ll_cam_vsync_intr_enable ll False (cw_hw w)\<rparr>)"

definition cam_start :: "'e ll_cam \<Rightarrow> 'e cam_world \<Rightarrow> 'e cam_world" where
  "cam_start ll w = w\<lparr>cw_hw := ll_cam_vsync_intr_enable ll True (cw_hw w)\<rparr>"

text \<open>
  What \<open>cam_take\<close> does with a frame it received: \<open>Inl w\<close> when the frame is given back for lack of an
  end marker, \<open>Inr w\<close> when it is returned to the caller.
\<close>

definition cam_take_frame :: "'e ll_cam \<Rightarrow> nat \<Rightarrow> 'e cam_world \<Rightarrow> ('e cam_world + 'e cam_world) option" where
  "cam_take_frame ll x w = do {
     f \<leftarrow> frame_at x (cam w);
     if jpeg_mode (cam w) then do {
       offset_e \<leftarrow> cam_verify_jpeg_eoi (fb_mem (fb f)) (fb_len (fb f));
       if offset_e \<ge> 0
       then do { c1 \<leftarrow> set_len x (nat offset_e + length JPEG_EOI_MARKER) (cam w);
                 Some (Inr (w\<lparr>cam := c1\<rparr>)) }
       else do { c1 \<leftarrow> cam_give (Some x) (cam w); Some (Inl (w\<lparr>cam := c1\<rparr>)) } }
     else if psram_mode (cam w) \<and> in_bytes_per_pixel (cam w) \<noteq> fb_bytes_per_pixel (cam w) then do {
       bs \<leftarrow> mem_read (fb_mem (fb f)) 0 (fb_len (fb f));
       let out = ll_cam_memcpy ll bs;
       m \<leftarrow> mem_write (fb_mem (fb f)) 0 out;
       c1 \<leftarrow> set_frame x (fb_update (\<lambda>b. b\<lparr>fb_mem := m, fb_len := length out\<rparr>)) (cam w);
       Some (Inr (w\<lparr>cam := c1\<rparr>)) }
     else Some (Inr w) }"

text \<open>
  \<open>env\<close> is what the other tasks and the interrupts do to the driver while the caller is blocked.
\<close>

type_synonym 'e cam_env = "TickType_t \<Rightarrow> kernel \<times> 'e cam_world \<Rightarrow> kernel \<times> 'e cam_world"

abbreviation put_fbq :: "fb_ptr Queue_t \<Rightarrow> 'e cam_world \<Rightarrow> 'e cam_world" where
  "put_fbq q w \<equiv> w\<lparr>cam := (cam w)\<lparr>frame_buffer_queue := Some q\<rparr>\<rparr>"

definition fbq_env :: "'e cam_env \<Rightarrow> (fb_ptr, 'e cam_world) qenv" where
  "fbq_env env t s = (case s of (q, k, w) \<Rightarrow>
     case env t (k, put_fbq q w) of (k1, w1) \<Rightarrow>
       (case frame_buffer_queue (cam w1) of Some q1 \<Rightarrow> q1 | None \<Rightarrow> q, k1, w1))"

text \<open>The wait for a frame. On the ESP32-S3 a wait without a frame resets the DMA and waits a second time.\<close>

definition cam_receive :: "'e ll_cam \<Rightarrow> 'e cam_env \<Rightarrow> TickType_t \<Rightarrow> (fb_ptr, 'e cam_world) qworld
     \<Rightarrow> ((bool \<times> fb_ptr) \<times> (fb_ptr, 'e cam_world) qworld) option" where
  "cam_receive ll env timeout s = do {
     ((got, p), q1, k1, w1) \<leftarrow> xQueueReceive (fbq_env env) None timeout s;
     (case (p, ll_cam_dma_reset ll) of
        (None, Some reset) \<Rightarrow> xQueueReceive (fbq_env env) None timeout (q1, k1, w1\<lparr>cw_hw := reset (cw_hw w1)\<rparr>)
      | _ \<Rightarrow> Some ((got, p), q1, k1, w1)) }"

partial_function (option) cam_take ::
    "'e ll_cam \<Rightarrow> 'e cam_env \<Rightarrow> TickType_t \<Rightarrow> kernel \<times> 'e cam_world
     \<Rightarrow> (fb_ptr \<times> kernel \<times> 'e cam_world) option" where
  "cam_take ll env timeout s =
     (case s of (k, w) \<Rightarrow> do {
        let start = xTickCount k;
        q \<leftarrow> frame_buffer_queue (cam w);
        ((got, p), q1, k1, w1) \<leftarrow> cam_receive ll env timeout (q, k, w);
        let w2 = put_fbq q1 w1;
        (case p of
           None \<Rightarrow> Some (None, k1, w2)
         | Some x \<Rightarrow> do {
             r \<leftarrow> cam_take_frame ll x w2;
             (case r of
                Inr w3 \<Rightarrow> Some (Some x, k1, w3)
              | Inl w3 \<Rightarrow>
                  let ticks_spent = xTickCount k1 - start in
                  if ticks_spent \<ge> timeout then Some (None, k1, w3)
                  else cam_take ll env (timeout - ticks_spent) (k1, w3)) }) })"


subsection \<open>Memory\<close>

lemma mem_read_Some [simp]: "p + n \<le> length m \<Longrightarrow> mem_read m p n = Some (take n (drop p m))"
  by (simp add: mem_read_def)

lemma mem_write_Some [simp]:
  "p + length bs \<le> length m \<Longrightarrow> mem_write m p bs = Some (take p m @ bs @ drop (p + length bs) m)"
  by (simp add: mem_write_def)

lemma mem_write_length: "mem_write m p bs = Some m' \<Longrightarrow> length m' = length m"
  by (auto simp: mem_write_def split: if_splits)

lemma mem_write_prefix:
  "mem_write m p bs = Some m' \<Longrightarrow> n \<le> p \<Longrightarrow> take n m' = take n m"
  by (auto simp: mem_write_def min_def split: if_splits)

subsection \<open>The marker searches\<close>

text \<open>\<open>at m i s\<close>: the bytes \<open>s\<close> stand at offset \<open>i\<close> of \<open>m\<close>.\<close>

definition at :: "u8 list \<Rightarrow> nat \<Rightarrow> u8 list \<Rightarrow> bool" where
  "at m i s \<longleftrightarrow> take (length s) (drop i m) = s"

lemma at_read: "p + length s \<le> length m \<Longrightarrow> (take (length s) (drop p m) = s) = at m p s"
  by (simp add: at_def)

lemma marker_length [simp]: "length JPEG_SOI_MARKER = 3" "length JPEG_EOI_MARKER = 2"
  by (simp_all add: JPEG_SOI_MARKER_def JPEG_EOI_MARKER_def)

lemma soi_from_total: "len + 2 \<le> length m \<Longrightarrow> \<exists>r. soi_from m len i = Some r"
proof (induction m len i rule: soi_from.induct)
  case (1 m len i)
  then show ?case by (subst soi_from.simps) auto
qed

lemma soi_from_spec:
  assumes "soi_from m len i = Some r"
  shows "r = - 1 \<and> (\<forall>j. i \<le> j \<and> j < len \<longrightarrow> \<not> at m j JPEG_SOI_MARKER) \<or>
    (\<exists>k. r = int k \<and> i \<le> k \<and> k < len \<and> at m k JPEG_SOI_MARKER \<and>
      (\<forall>j. i \<le> j \<and> j < k \<longrightarrow> \<not> at m j JPEG_SOI_MARKER))"
  using assms
proof (induction m len i arbitrary: r rule: soi_from.induct)
  case (1 m len i)
  show ?case
  proof (cases "i < len")
    case False
    with 1(2) show ?thesis by (subst (asm) soi_from.simps) auto
  next
    case True
    with 1(2) obtain bs where bs: "mem_read m i 3 = Some bs"
      by (subst (asm) soi_from.simps) (auto split: bind_splits)
    then have a: "(bs = JPEG_SOI_MARKER) = at m i JPEG_SOI_MARKER"
      by (auto simp: mem_read_def at_def split: if_splits)
    show ?thesis
    proof (cases "at m i JPEG_SOI_MARKER")
      case at: True
      with 1(2) True bs a have "r = int i" by (subst (asm) soi_from.simps) auto
      with True at show ?thesis by auto
    next
      case False
      with 1(2) True bs a have "soi_from m len (i + 1) = Some r" by (subst (asm) soi_from.simps) auto
      from 1(1) [OF True bs _ this] False a have IH: "r = - 1 \<and> (\<forall>j. i + 1 \<le> j \<and> j < len \<longrightarrow> \<not> at m j JPEG_SOI_MARKER) \<or>
        (\<exists>k. r = int k \<and> i + 1 \<le> k \<and> k < len \<and> at m k JPEG_SOI_MARKER \<and>
          (\<forall>j. i + 1 \<le> j \<and> j < k \<longrightarrow> \<not> at m j JPEG_SOI_MARKER))" by auto
      have split: "i \<le> j \<longleftrightarrow> j = i \<or> i + 1 \<le> j" for j by auto
      from IH False show ?thesis unfolding split by blast
    qed
  qed
qed

lemma eoi_from_total: "d + 2 \<le> length m \<Longrightarrow> \<exists>r. eoi_from m d = Some r"
  by (induction d) auto

lemma eoi_from_spec:
  assumes "eoi_from m d = Some r"
  shows "r = - 1 \<and> (\<forall>j. 0 < j \<and> j \<le> d \<longrightarrow> \<not> at m j JPEG_EOI_MARKER) \<or>
    (\<exists>k. r = int k \<and> 0 < k \<and> k \<le> d \<and> at m k JPEG_EOI_MARKER \<and>
      (\<forall>j. k < j \<and> j \<le> d \<longrightarrow> \<not> at m j JPEG_EOI_MARKER))"
  using assms
proof (induction d)
  case 0
  then show ?case by simp
next
  case (Suc d)
  obtain bs where bs: "mem_read m (Suc d) 2 = Some bs" using Suc.prems by (auto split: bind_splits)
  then have a: "(bs = JPEG_EOI_MARKER) = at m (Suc d) JPEG_EOI_MARKER"
    by (auto simp: mem_read_def at_def split: if_splits)
  show ?case
  proof (cases "at m (Suc d) JPEG_EOI_MARKER")
    case True
    with Suc.prems bs a show ?thesis by (auto intro!: exI [of _ "Suc d"])
  next
    case False
    with Suc.prems bs a have "eoi_from m d = Some r" by auto
    from Suc.IH [OF this] False show ?thesis by (metis le_Suc_eq)
  qed
qed

subsection \<open>Frames\<close>

lemma frame_at_eq [simp]: "x < length (frames c) \<Longrightarrow> frame_at x c = Some (frames c ! x)"
  by (simp add: frame_at_def)

lemma set_frame_eq [simp]: "x < length (frames c) \<Longrightarrow>
    set_frame x f c = Some (c\<lparr>frames := (frames c)[x := f (frames c ! x)]\<rparr>)"
  by (simp add: set_frame_def)

lemma set_en_eq [simp]: "x < length (frames c) \<Longrightarrow>
    set_en x b c = Some (c\<lparr>frames := (frames c)[x := (frames c ! x)\<lparr>en := b\<rparr>]\<rparr>)"
  by (simp add: set_en_def)

lemma set_len_eq [simp]: "x < length (frames c) \<Longrightarrow> set_len x n c =
    Some (c\<lparr>frames := (frames c)[x := fb_update (fb_len_update (\<lambda>_. n)) (frames c ! x)]\<rparr>)"
  by (simp add: set_len_def)

lemma find_index: "find (\<lambda>x. p = Some x) [0..<n] = (case p of Some y \<Rightarrow> if y < n then Some y else None | None \<Rightarrow> None)"
proof (induction n)
  case 0
  then show ?case by (auto split: option.split)
next
  case (Suc n)
  then show ?case by (auto simp: find_append find_None_iff split: option.splits if_splits)
qed

lemma cam_give_eq: "length (frames c) = frame_cnt c \<Longrightarrow>
    cam_give p c = (case p of Some y \<Rightarrow> if y < frame_cnt c then set_en y True c else Some c | None \<Rightarrow> Some c)"
  by (auto simp: cam_give_def find_index split: option.splits)

lemma first_enabled_spec:
  assumes "\<forall>x \<in> set xs. x < length (frames c)"
  shows "\<exists>r. first_enabled c xs = Some r \<and>
    (case r of None \<Rightarrow> \<forall>x \<in> set xs. \<not> en (frames c ! x) | Some x \<Rightarrow> x \<in> set xs \<and> en (frames c ! x))"
  using assms by (induction xs) (auto split: option.splits)

lemma cam_get_next_frame_spec:
  assumes "length (frames c) = frame_cnt c" and "pos < frame_cnt c"
  shows "\<exists>b p. cam_get_next_frame pos c = Some (b, p) \<and> p < frame_cnt c \<and>
    (if b then en (frames c ! p) else p = pos \<and> (\<forall>x < frame_cnt c. \<not> en (frames c ! x)))"
proof -
  from first_enabled_spec [of "[0..<frame_cnt c]" c] assms(1) obtain r where
    "first_enabled c [0..<frame_cnt c] = Some r"
    "case r of None \<Rightarrow> \<forall>x < frame_cnt c. \<not> en (frames c ! x)
      | Some x \<Rightarrow> x < frame_cnt c \<and> en (frames c ! x)" by (auto split: option.splits)
  with assms show ?thesis
    by (auto simp: cam_get_next_frame_def split: option.splits)
qed


subsection \<open>Properties of the marker searches\<close>

lemma verify_jpeg_markers_facts:
  assumes "len + 2 \<le> length m"
  shows "\<exists>r. cam_verify_jpeg_soi m len = Some r \<and>
      (r = - 1 \<and> (\<forall>j < len. \<not> at m j JPEG_SOI_MARKER) \<or>
       (\<exists>k < len. r = int k \<and> at m k JPEG_SOI_MARKER \<and> (\<forall>j < k. \<not> at m j JPEG_SOI_MARKER)))"
    and "\<exists>r. cam_verify_jpeg_eoi m len = Some r \<and>
      (r = - 1 \<and> (\<forall>j. 0 < j \<and> j + 2 \<le> len \<longrightarrow> \<not> at m j JPEG_EOI_MARKER) \<or>
       (\<exists>k. r = int k \<and> 0 < k \<and> k + 2 \<le> len \<and> at m k JPEG_EOI_MARKER \<and>
         (\<forall>j. k < j \<and> j + 2 \<le> len \<longrightarrow> \<not> at m j JPEG_EOI_MARKER)))"
proof -
  from soi_from_total [OF assms, of 0] obtain r where "soi_from m len 0 = Some r" by blast
  with soi_from_spec [OF this] show "\<exists>r. cam_verify_jpeg_soi m len = Some r \<and>
      (r = - 1 \<and> (\<forall>j < len. \<not> at m j JPEG_SOI_MARKER) \<or>
       (\<exists>k < len. r = int k \<and> at m k JPEG_SOI_MARKER \<and> (\<forall>j < k. \<not> at m j JPEG_SOI_MARKER)))"
    by (auto simp: cam_verify_jpeg_soi_def)
  have "len - 2 + 2 \<le> length m" using assms by simp
  from eoi_from_total [OF this] obtain e where "eoi_from m (len - 2) = Some e" by blast
  with eoi_from_spec [OF this] show "\<exists>r. cam_verify_jpeg_eoi m len = Some r \<and>
      (r = - 1 \<and> (\<forall>j. 0 < j \<and> j + 2 \<le> len \<longrightarrow> \<not> at m j JPEG_EOI_MARKER) \<or>
       (\<exists>k. r = int k \<and> 0 < k \<and> k + 2 \<le> len \<and> at m k JPEG_EOI_MARKER \<and>
         (\<forall>j. k < j \<and> j + 2 \<le> len \<longrightarrow> \<not> at m j JPEG_EOI_MARKER)))"
    by (auto simp: cam_verify_jpeg_eoi_def)
qed

text \<open>
  C30. The marker searches, for a buffer in which two more bytes can be read behind the searched ones (the
  search for the start marker compares three bytes at each of the \<open>len\<close> offsets, so without those two it reads past the
  buffer, see \<open>jpeg_soi_overread\<close>):
  \<open>cam_verify_jpeg_soi\<close> returns the first offset at which a start marker stands, and -1 only if
  there is none; \<open>cam_verify_jpeg_eoi\<close> returns the last offset other than 0 at which an end marker
  stands completely inside the first \<open>len\<close> bytes, and -1 only if there is none; an end marker at
  offset 0 is not looked at. Neither reads outside the buffer then.
\<close>

theorem cam_verify_jpeg_markers:
  assumes "len + 2 \<le> length m"
  shows "(\<exists>r. cam_verify_jpeg_soi m len = Some r \<and>
      (r = - 1 \<and> (\<forall>j < len. \<not> at m j JPEG_SOI_MARKER) \<or>
       (\<exists>k < len. r = int k \<and> at m k JPEG_SOI_MARKER \<and> (\<forall>j < k. \<not> at m j JPEG_SOI_MARKER)))) \<and>
    (\<exists>r. cam_verify_jpeg_eoi m len = Some r \<and>
      (r = - 1 \<and> (\<forall>j. 0 < j \<and> j + 2 \<le> len \<longrightarrow> \<not> at m j JPEG_EOI_MARKER) \<or>
       (\<exists>k. r = int k \<and> 0 < k \<and> k + 2 \<le> len \<and> at m k JPEG_EOI_MARKER \<and>
         (\<forall>j. k < j \<and> j + 2 \<le> len \<longrightarrow> \<not> at m j JPEG_EOI_MARKER))))"
  using verify_jpeg_markers_facts [OF assms] by blast

theorem cam_verify_jpeg_markers_witness:
  "cam_verify_jpeg_soi [0xFF, 0xD8, 0xFF, 1, 0xFF, 0xD9, 0, 0] 6 = Some 0 \<and>
   cam_verify_jpeg_eoi [0xFF, 0xD8, 0xFF, 1, 0xFF, 0xD9, 0, 0] 6 = Some 4"
proof -
  let ?m = "[0xFF, 0xD8, 0xFF, 1, 0xFF, 0xD9, 0, 0] :: u8 list"
  have m: "at ?m 0 JPEG_SOI_MARKER" "at ?m 4 JPEG_EOI_MARKER"
    by (simp_all add: at_def JPEG_SOI_MARKER_def JPEG_EOI_MARKER_def)
  note t = cam_verify_jpeg_markers [of 6 ?m, simplified, THEN conjunct1] cam_verify_jpeg_markers [of 6 ?m, simplified, THEN conjunct2]
  from t(1) m(1) have "cam_verify_jpeg_soi ?m 6 = Some 0" by fastforce
  moreover from t(2) obtain r where r: "cam_verify_jpeg_eoi ?m 6 = Some r"
    "r = - 1 \<and> (\<forall>j. 0 < j \<and> j \<le> 4 \<longrightarrow> \<not> at ?m j JPEG_EOI_MARKER) \<or>
     (\<exists>k. r = int k \<and> 0 < k \<and> k \<le> 4 \<and> at ?m k JPEG_EOI_MARKER \<and>
         (\<forall>j. k < j \<and> j \<le> 4 \<longrightarrow> \<not> at ?m j JPEG_EOI_MARKER))" by blast
  moreover have "r = 4" using r(2) m(2) by (force simp: le_less)
  ultimately show ?thesis by simp
qed

text \<open>The start marker search reads past the end of a buffer that is full and has no marker.\<close>

lemma jpeg_soi_overread: "0 < n \<Longrightarrow> cam_verify_jpeg_soi (replicate n 0) n = None"
proof -
  have "soi_from (replicate n 0) n (n - Suc d) = None" if "d < n" for d
    using that
  proof (induction d)
    case 0
    then show ?case by (subst soi_from.simps) (simp add: mem_read_def)
  next
    case (Suc d)
    then have "Suc (n - Suc (Suc d)) = n - Suc d" by simp
    with Suc show ?case
      by (subst soi_from.simps) (auto simp: mem_read_def JPEG_SOI_MARKER_def)
  qed
  from this [of "n - 1"] show "0 < n \<Longrightarrow> ?thesis" by (simp add: cam_verify_jpeg_soi_def)
qed

end
