(* ===== verification/CamSys.thy ===== *)
theory CamSys
  imports CamHal
begin

text \<open>
  The running camera system: the interrupt handlers, the DMA, the capture task of
  \<open>driver/cam_hal.c\<close> and an application that takes frames and gives back the ones it holds, as
  a step relation. The steps of the capture task are the fragments of its loop body between
  two calls on a queue, so the application can run between any two of them.

  The invariant \<open>sys_inv\<close> says who owns each frame buffer: the buffers whose \<open>en\<close> flag is clear
  are exactly those in the queue of filled frames, those the application holds, and those the
  capture task is about to queue or to release, and these are disjoint. From it follow that no
  buffer is ever lost or written while the application holds it, that no step accesses memory
  outside an object, and that every JPEG frame the application gets has its start and end
  markers.
\<close>

subsection \<open>The step relation\<close>

record 'e sys =
  sys_w :: "'e cam_world"
  sys_pc :: cam_pc
  held :: "nat set"

inductive cam_step :: "'e ll_cam \<Rightarrow> 'e sys \<Rightarrow> 'e sys \<Rightarrow> bool" for ll :: "'e ll_cam" where
  isr: "ll_cam_send_event ll ev (sys_w s) = Some w \<Longrightarrow> cam_step ll s (s\<lparr>sys_w := w\<rparr>)"
| dma: "dma_buffer (cam (sys_w s)) = Some (a, d) \<Longrightarrow> length d' = length d \<Longrightarrow>
    cam_step ll s (s\<lparr>sys_w := upd_cam (dma_buffer_update (\<lambda>_. Some (a, d'))) (sys_w s)\<rparr>)"
| hardware: "cam_step ll s (s\<lparr>sys_w := (sys_w s)\<lparr>cw_hw := h\<rparr>\<rparr>)"
| event: "sys_pc s = PC_wait \<Longrightarrow> event_queue (cam (sys_w s)) = Some q \<Longrightarrow>
    xQueueReceiveFromISR ev0 q = ((True, ev), q') \<Longrightarrow>
    cam_task_dispatch ll ev (upd_cam (event_queue_update (\<lambda>_. Some q')) (sys_w s)) = Some (w, pc) \<Longrightarrow>
    cam_step ll s (s\<lparr>sys_w := w, sys_pc := pc\<rparr>)"
| frag: "sys_pc s \<noteq> PC_wait \<Longrightarrow> cam_task_frag ll (sys_pc s) (sys_w s) = Some (w, pc) \<Longrightarrow>
    cam_step ll s (s\<lparr>sys_w := w, sys_pc := pc\<rparr>)"
| take: "fbq_receive (cam (sys_w s)) = Some ((True, Some x), c) \<Longrightarrow>
    cam_take_frame ll x ((sys_w s)\<lparr>cam := c\<rparr>) = Some (Inr w) \<Longrightarrow>
    cam_step ll s (s\<lparr>sys_w := w, held := insert x (held s)\<rparr>)"
| discard: "fbq_receive (cam (sys_w s)) = Some ((True, Some x), c) \<Longrightarrow>
    cam_take_frame ll x ((sys_w s)\<lparr>cam := c\<rparr>) = Some (Inl w) \<Longrightarrow>
    cam_step ll s (s\<lparr>sys_w := w\<rparr>)"
| give: "x \<in> held s \<Longrightarrow> cam_give (Some x) (cam (sys_w s)) = Some c \<Longrightarrow>
    cam_step ll s (s\<lparr>sys_w := (sys_w s)\<lparr>cam := c\<rparr>, held := held s - {x}\<rparr>)"

abbreviation cam_steps :: "'e ll_cam \<Rightarrow> 'e sys \<Rightarrow> 'e sys \<Rightarrow> bool" where
  "cam_steps ll \<equiv> (cam_step ll)\<^sup>*\<^sup>*"

subsection \<open>Ownership of the frame buffers\<close>

definition fbq_items :: "cam_obj_t \<Rightarrow> fb_ptr list" where
  "fbq_items c = (case frame_buffer_queue c of Some q \<Rightarrow> q_items q | None \<Rightarrow> [])"

definition own :: "cam_obj_t \<Rightarrow> nat set \<Rightarrow> nat set \<Rightarrow> bool" where
  "own c H T \<longleftrightarrow>
     length (frames c) = frame_cnt c \<and> H \<subseteq> {..<frame_cnt c} \<and> T \<subseteq> {..<frame_cnt c} \<and>
     set (fbq_items c) \<subseteq> Some ` {..<frame_cnt c} \<and> distinct (fbq_items c) \<and>
     H \<inter> T = {} \<and> set (fbq_items c) \<inter> Some ` (H \<union> T) = {} \<and>
     (\<forall>x < frame_cnt c. \<not> en (frames c ! x) \<longleftrightarrow> Some x \<in> set (fbq_items c) \<or> x \<in> H \<or> x \<in> T)"

text \<open>The frames the capture task owns at each point of its loop body.\<close>

fun task_owns :: "cam_pc \<Rightarrow> 'e cam_world \<Rightarrow> nat set" where
  "task_owns PC_send w = (if en (frames (cam w) ! ct_frame_pos w) then {} else {ct_frame_pos w})"
| "task_owns PC_pop w = {ct_frame_pos w}"
| "task_owns (PC_push p) w = insert (ct_frame_pos w) (set_option p)"
| "task_owns (PC_give p) w = set_option p"
| "task_owns _ w = {}"

lemma own_cong:
  assumes "own c H T" and "map en (frames c') = map en (frames c)" and "frame_cnt c' = frame_cnt c"
    and "fbq_items c' = fbq_items c"
  shows "own c' H T"
proof -
  have "length (frames c') = length (frames c)" using assms(2) by (metis length_map)
  moreover have "en (frames c' ! x) = en (frames c ! x)" if "x < frame_cnt c" for x
    using that assms(1,2) calculation by (metis nth_map own_def)
  ultimately show ?thesis using assms by (auto simp: own_def)
qed

lemma own_idx: "own c H T \<Longrightarrow> x \<in> H \<union> T \<Longrightarrow> x < length (frames c)"
  by (auto simp: own_def)

lemma own_claim:
  assumes "own c H T" and "x < frame_cnt c" and "en (frames c ! x)"
    and "frames c' = (frames c)[x := f]" "\<not> en f" "frame_cnt c' = frame_cnt c" "fbq_items c' = fbq_items c"
  shows "own c' H (insert x T)"
  using assms by (auto simp: own_def nth_list_update)

lemma own_release:
  assumes "own c H T" and "x < frame_cnt c" and "x \<in> H \<union> T"
    and "frames c' = (frames c)[x := f]" "en f" "frame_cnt c' = frame_cnt c" "fbq_items c' = fbq_items c"
  shows "own c' (H - {x}) (T - {x})"
  using assms by (auto simp: own_def nth_list_update)

lemma own_move: "own c H (insert x T) \<Longrightarrow> x \<notin> T \<Longrightarrow> own c (insert x H) T"
  by (auto simp: own_def)


lemma own_queued:
  assumes "own c H T" and "x \<in> T" and "fbq_items c' = fbq_items c @ [Some x]"
    and "frames c' = frames c" "frame_cnt c' = frame_cnt c"
  shows "own c' H (T - {x})"
  using assms by (auto simp: own_def)

lemma own_dequeued:
  assumes "own c H T" and "fbq_items c = p # fbq_items c'"
    and "frames c' = frames c" "frame_cnt c' = frame_cnt c"
  shows "\<exists>x. p = Some x \<and> x < frame_cnt c \<and> x \<notin> H \<and> x \<notin> T \<and> own c' H (insert x T)"
proof -
  have "p \<in> Some ` {..<frame_cnt c}" using assms(1,2) by (auto simp: own_def)
  then obtain x where "p = Some x" "x < frame_cnt c" by auto
  with assms show ?thesis by (auto simp: own_def)
qed

definition fbq_ok :: "cam_obj_t \<Rightarrow> bool" where
  "fbq_ok c \<longleftrightarrow> (\<exists>q. frame_buffer_queue c = Some q \<and> q_ok q)"

definition evq_ok :: "cam_obj_t \<Rightarrow> bool" where
  "evq_ok c \<longleftrightarrow> (\<exists>q. event_queue c = Some q \<and> q_ok q)"

lemma fbq_send_cases:
  assumes "fbq_ok c"
  obtains (sent) q where "fbq_send p c = Some (True, c\<lparr>frame_buffer_queue := Some q\<rparr>)" "q_ok q"
      "q_items q = fbq_items c @ [p]"
    | (full) "fbq_send p c = Some (False, c)"
proof -
  from assms obtain q where q: "frame_buffer_queue c = Some q" "q_ok q" by (auto simp: fbq_ok_def)
  from q(2) show ?thesis
  proof (cases rule: fq.send_cases [where x = p])
    case (room q')
    then show ?thesis using that(1) [of q'] q by (simp add: fbq_send_def fbq_items_def)
  next
    case full
    then have "fbq_send p c = Some (False, c\<lparr>frame_buffer_queue := Some q\<rparr>)"
      using q by (simp add: fbq_send_def)
    also have "c\<lparr>frame_buffer_queue := Some q\<rparr> = c" using q by simp
    finally show ?thesis by (rule that(2))
  qed
qed

lemma fbq_receive_cases:
  assumes "fbq_ok c"
  obtains (got) p q where "fbq_receive c = Some ((True, p), c\<lparr>frame_buffer_queue := Some q\<rparr>)" "q_ok q"
      "fbq_items c = p # q_items q"
    | (empty) "fbq_receive c = Some ((False, None), c)"
proof -
  from assms obtain q where q: "frame_buffer_queue c = Some q" "q_ok q" by (auto simp: fbq_ok_def)
  from q(2) show ?thesis
  proof (cases rule: fq.recv_cases [where buf = None])
    case (item y q')
    then show ?thesis using that(1) [of y q'] q by (simp add: fbq_receive_def fbq_items_def)
  next
    case empty
    then have "fbq_receive c = Some ((False, None), c\<lparr>frame_buffer_queue := Some q\<rparr>)"
      using q by (simp add: fbq_receive_def)
    also have "c\<lparr>frame_buffer_queue := Some q\<rparr> = c" using q by simp
    finally show ?thesis by (rule that(2))
  qed
qed

subsection \<open>The invariant\<close>

text \<open>
  What \<open>cam_config\<close> and the low-level driver establish for a build without DMA into external memory
  (\<open>psram_mode\<close> is false on the ESP32): the DMA buffer consists of \<open>dma_half_buffer_cnt\<close> halves, and
  copying one half yields at most \<open>pixels_per_dma\<close> bytes; in JPEG mode it yields at least the
  three bytes of a start marker, and a frame buffer is a little larger than that.
\<close>

definition cfg_ok :: "'e ll_cam \<Rightarrow> cam_obj_t \<Rightarrow> bool" where
  "cfg_ok ll c \<longleftrightarrow> \<not> psram_mode c \<and> 0 < frame_cnt c \<and> 0 < dma_half_buffer_cnt c \<and>
     (\<exists>a d. dma_buffer c = Some (a, d) \<and> length d = dma_half_buffer_cnt c * dma_half_buffer_size c) \<and>
     (\<exists>ppd. pixels_per_dma c = Some ppd \<and> fb_size c + ppd < 2 ^ 32 \<and>
        (\<forall>bs. length bs = dma_half_buffer_size c \<longrightarrow>
           length (ll_cam_memcpy ll bs) \<le> ppd \<and>
           (jpeg_mode c \<longrightarrow> 3 \<le> length (ll_cam_memcpy ll bs))) \<and>
        (jpeg_mode c \<longrightarrow> ppd + 2 \<le> fb_size c))"

definition bufs_ok :: "cam_obj_t \<Rightarrow> bool" where
  "bufs_ok c \<longleftrightarrow> (\<forall>f \<in> set (frames c). fb_size c \<le> length (fb_mem (fb f)) \<and> fb_len (fb f) \<le> fb_size c)"

definition soi_ok :: "cam_frame_t \<Rightarrow> bool" where
  "soi_ok f \<longleftrightarrow> at (fb_mem (fb f)) 0 JPEG_SOI_MARKER \<and> 3 \<le> fb_len (fb f)"

definition core :: "'e ll_cam \<Rightarrow> 'e cam_world \<Rightarrow> nat set \<Rightarrow> nat set \<Rightarrow> bool" where
  "core ll w H T \<longleftrightarrow> cfg_ok ll (cam w) \<and> fbq_ok (cam w) \<and> evq_ok (cam w) \<and> bufs_ok (cam w) \<and>
     ct_frame_pos w < frame_cnt (cam w) \<and> 0 \<le> ct_cnt w \<and> own (cam w) H T \<and>
     (jpeg_mode (cam w) \<longrightarrow> (\<forall>f \<in> set (frames (cam w)). \<not> en f \<longrightarrow> soi_ok f))"

text \<open>While the task waits and a frame is being read, the frame is free for it alone, and once the
  first half buffer of a JPEG image is in, its start marker has been seen.\<close>

definition reading_ok :: "'e cam_world \<Rightarrow> bool" where
  "reading_ok w \<longleftrightarrow> (cam_state (cam w) = CAM_STATE_READ_BUF \<longrightarrow>
     en (frames (cam w) ! ct_frame_pos w) \<and>
     (ct_cnt w = 0 \<longrightarrow> fb_len (fb (frames (cam w) ! ct_frame_pos w)) = 0) \<and>
     (jpeg_mode (cam w) \<and> ct_cnt w \<noteq> 0 \<longrightarrow> soi_ok (frames (cam w) ! ct_frame_pos w)))"

fun pc_ok :: "cam_pc \<Rightarrow> 'e cam_world \<Rightarrow> bool" where
  "pc_ok PC_wait w = reading_ok w"
| "pc_ok (PC_push p) w = (\<exists>y. p = Some y \<and> y \<noteq> ct_frame_pos w)"
| "pc_ok (PC_give p) w = (\<exists>y. p = Some y)"
| "pc_ok _ w = True"

definition winv :: "'e ll_cam \<Rightarrow> 'e cam_world \<Rightarrow> cam_pc \<Rightarrow> nat set \<Rightarrow> bool" where
  "winv ll w pc H \<longleftrightarrow> core ll w H (task_owns pc w) \<and> pc_ok pc w"

definition sys_inv :: "'e ll_cam \<Rightarrow> 'e sys \<Rightarrow> bool" where
  "sys_inv ll s \<longleftrightarrow> winv ll (sys_w s) (sys_pc s) (held s)"

lemma items_update [simp]:
  "fbq_items (c\<lparr>frames := fs\<rparr>) = fbq_items c"
  "fbq_items (c\<lparr>cam_state := st\<rparr>) = fbq_items c"
  "fbq_items (c\<lparr>event_queue := eq\<rparr>) = fbq_items c"
  "fbq_items (c\<lparr>dma_buffer := db\<rparr>) = fbq_items c"
  "fbq_items (c\<lparr>frame_buffer_queue := Some q\<rparr>) = q_items q"
  by (simp_all add: fbq_items_def)

lemma ok_update [simp]:
  "fbq_ok (c\<lparr>frames := fs\<rparr>) = fbq_ok c" "fbq_ok (c\<lparr>cam_state := st\<rparr>) = fbq_ok c"
  "fbq_ok (c\<lparr>event_queue := eq\<rparr>) = fbq_ok c" "fbq_ok (c\<lparr>dma_buffer := db\<rparr>) = fbq_ok c"
  "fbq_ok (c\<lparr>frame_buffer_queue := Some q\<rparr>) = q_ok q"
  "evq_ok (c\<lparr>frames := fs\<rparr>) = evq_ok c" "evq_ok (c\<lparr>cam_state := st\<rparr>) = evq_ok c"
  "evq_ok (c\<lparr>event_queue := Some e\<rparr>) = q_ok e" "evq_ok (c\<lparr>dma_buffer := db\<rparr>) = evq_ok c"
  "evq_ok (c\<lparr>frame_buffer_queue := fq\<rparr>) = evq_ok c"
  "cfg_ok ll (c\<lparr>frames := fs\<rparr>) = cfg_ok ll c" "cfg_ok ll (c\<lparr>cam_state := st\<rparr>) = cfg_ok ll c"
  "cfg_ok ll (c\<lparr>event_queue := eq\<rparr>) = cfg_ok ll c"
  "cfg_ok ll (c\<lparr>frame_buffer_queue := fq\<rparr>) = cfg_ok ll c"
  "bufs_ok (c\<lparr>cam_state := st\<rparr>) = bufs_ok c" "bufs_ok (c\<lparr>event_queue := eq\<rparr>) = bufs_ok c"
  "bufs_ok (c\<lparr>dma_buffer := db\<rparr>) = bufs_ok c"
  "bufs_ok (c\<lparr>frame_buffer_queue := fq\<rparr>) = bufs_ok c"
  "own (c\<lparr>cam_state := st\<rparr>) H T = own c H T" "own (c\<lparr>event_queue := eq\<rparr>) H T = own c H T"
  "own (c\<lparr>dma_buffer := db\<rparr>) H T = own c H T"
  by (simp_all add: fbq_ok_def evq_ok_def cfg_ok_def bufs_ok_def own_def pixels_per_dma_def Let_def)

lemma core_update [simp]:
  "core ll (w\<lparr>cw_hw := h\<rparr>) H T = core ll w H T"
  "core ll (w\<lparr>cam := c\<lparr>cam_state := st\<rparr>\<rparr>) H T = core ll (w\<lparr>cam := c\<rparr>) H T"
  "core ll w H T \<Longrightarrow> 0 \<le> n \<Longrightarrow> core ll (w\<lparr>ct_cnt := n\<rparr>) H T"
  "core ll w H T \<Longrightarrow> p < frame_cnt (cam w) \<Longrightarrow> core ll (w\<lparr>ct_frame_pos := p\<rparr>) H T"
  by (simp_all add: core_def)

lemma core_frame:
  assumes "core ll w H T" and "x < frame_cnt (cam w)" and "f = frames (cam w) ! x" and "en f' = en f"
    and "fb_size (cam w) \<le> length (fb_mem (fb f'))" and "fb_len (fb f') \<le> fb_size (cam w)"
    and "jpeg_mode (cam w) \<Longrightarrow> \<not> en f \<Longrightarrow> soi_ok f \<Longrightarrow> soi_ok f'"
  shows "core ll (w\<lparr>cam := (cam w)\<lparr>frames := (frames (cam w))[x := f']\<rparr>\<rparr>) H T"
proof -
  note d = assms(1) [unfolded core_def]
  have x: "x < length (frames (cam w))" using d assms(2) by (simp add: own_def)
  have "map en ((frames (cam w))[x := f']) = map en (frames (cam w))"
    using assms(3,4) x by (simp add: map_update list_update_same_conv)
  then have "own ((cam w)\<lparr>frames := (frames (cam w))[x := f']\<rparr>) H T"
    using d by - (rule own_cong [of "cam w" H T], simp_all)
  moreover have sub: "set ((frames (cam w))[x := f']) \<subseteq> insert f' (set (frames (cam w)))"
    by (rule set_update_subset_insert)
  moreover have "bufs_ok ((cam w)\<lparr>frames := (frames (cam w))[x := f']\<rparr>)"
    using d sub assms(5,6) by (auto simp: bufs_ok_def)
  moreover have "\<forall>g \<in> set ((frames (cam w))[x := f']). \<not> en g \<longrightarrow> soi_ok g" if "jpeg_mode (cam w)"
    using that d sub assms(3,4,7) x nth_mem [OF x] by blast
  ultimately show ?thesis using d by (simp add: core_def)
qed

lemma core_frame_pos: "core ll w H T \<Longrightarrow> ct_frame_pos w < length (frames (cam w))"
  by (simp add: core_def own_def)

lemma core_bufs:
  "core ll w H T \<Longrightarrow> x < frame_cnt (cam w) \<Longrightarrow>
     fb_size (cam w) \<le> length (fb_mem (fb (frames (cam w) ! x))) \<and>
     fb_len (fb (frames (cam w) ! x)) \<le> fb_size (cam w)"
  by (simp add: core_def own_def bufs_ok_def)

lemma start_frame:
  assumes "core ll w H T"
  shows "\<exists>b w'. cam_start_frame ll w = Some (b, w') \<and> core ll w' H T \<and> 
    cam_state (cam w') = cam_state (cam w) \<and> jpeg_mode (cam w') = jpeg_mode (cam w) \<and>
    ct_cnt w' = ct_cnt w \<and> (b \<longrightarrow> en (frames (cam w') ! ct_frame_pos w'))"
proof -
  have len: "length (frames (cam w)) = frame_cnt (cam w)" using assms by (simp add: core_def own_def)
  from cam_get_next_frame_spec [OF len, of "ct_frame_pos w"] core_frame_pos [OF assms] len
  obtain b p where n: "cam_get_next_frame (ct_frame_pos w) (cam w) = Some (b, p)" "p < frame_cnt (cam w)"
    "b \<Longrightarrow> en (frames (cam w) ! p)" by (auto split: if_splits)
  have w1: "core ll (w\<lparr>ct_frame_pos := p, cw_hw := h\<rparr>) H T" for h
    using core_update(4) [OF assms n(2)] by simp
  obtain st h where s: "ll_cam_start ll p (cw_hw w) = (st, h)" by fastforce
  show ?thesis
  proof (cases "b \<and> st")
    case True
    let ?us = "esp_timer_get_time ll (ll_cam_do_vsync ll h)"
    let ?f' = "fb_update (\<lambda>b. b\<lparr>fb_tv_sec := ?us div 1000000, fb_tv_usec := ?us mod 1000000\<rparr>)
        (frames (cam w) ! p)"
    have "core ll (w\<lparr>ct_frame_pos := p, cw_hw := ll_cam_do_vsync ll h,
        cam := (cam w)\<lparr>frames := (frames (cam w))[p := ?f']\<rparr>\<rparr>) H T"
      using core_frame [OF w1 [of "ll_cam_do_vsync ll h"], of p "frames (cam w) ! p" ?f'] n(2)
        core_bufs [OF assms n(2)] by (simp add: soi_ok_def)
    with True s n len show ?thesis by (auto simp: cam_start_frame_def Let_def)
  next
    case False
    with w1 [of h] w1 [of "cw_hw w"] s n show ?thesis
      by (auto simp: cam_start_frame_def Let_def split: if_splits)
  qed
qed


lemma cfg_ppd:
  assumes "cfg_ok ll c"
  obtains ppd where "pixels_per_dma c = Some ppd" "fb_size c + ppd < 2 ^ 32"
    "\<And>bs. length bs = dma_half_buffer_size c \<Longrightarrow> length (ll_cam_memcpy ll bs) \<le> ppd"
    "\<And>bs. jpeg_mode c \<Longrightarrow> length bs = dma_half_buffer_size c \<Longrightarrow> 3 \<le> length (ll_cam_memcpy ll bs)"
    "jpeg_mode c \<Longrightarrow> ppd + 2 \<le> fb_size c"
  using assms by (auto simp: cfg_ok_def)

lemma half_in_range: "0 < n \<Longrightarrow> (i :: nat) mod n * k + k \<le> n * k"
proof -
  assume "0 < n"
  then have "i mod n + 1 \<le> n" by (simp add: Suc_le_eq)
  then have "(i mod n + 1) * k \<le> n * k" by (rule mult_le_mono1)
  then show ?thesis by (simp add: algebra_simps)
qed

lemma soi_prefix: "3 \<le> n \<Longrightarrow> take n m' = take n m \<Longrightarrow> at m 0 JPEG_SOI_MARKER \<Longrightarrow> at m' 0 JPEG_SOI_MARKER"
proof -
  assume a: "3 \<le> n" "take n m' = take n m" "at m 0 JPEG_SOI_MARKER"
  then have "take 3 (take n m') = take 3 (take n m)" by simp
  with a(1) have "take 3 m' = take 3 m" by (simp add: min_def)
  with a(3) show ?thesis by (simp add: at_def)
qed

lemma copy_half_ok:
  assumes c: "core ll w H T" and ppd: "pixels_per_dma (cam w) = Some ppd"
    and f: "f = frames (cam w) ! ct_frame_pos w"
    and fits: "\<not> fb_size (cam w) < sz (fb_len (fb f) + ppd)"
  shows "\<exists>m n. copy_half ll w = Some (w\<lparr>cam := (cam w)\<lparr>frames := (frames (cam w))
        [ct_frame_pos w := fb_update (\<lambda>b. b\<lparr>fb_mem := m, fb_len := n\<rparr>) f]\<rparr>\<rparr>) \<and>
      core ll (w\<lparr>cam := (cam w)\<lparr>frames := (frames (cam w))
        [ct_frame_pos w := fb_update (\<lambda>b. b\<lparr>fb_mem := m, fb_len := n\<rparr>) f]\<rparr>\<rparr>) H T \<and>
      n \<le> fb_len (fb f) + ppd \<and> n \<le> fb_size (cam w) \<and> length m = length (fb_mem (fb f)) \<and>
      (jpeg_mode (cam w) \<longrightarrow> fb_len (fb f) + 3 \<le> n) \<and>
      take (fb_len (fb f)) m = take (fb_len (fb f)) (fb_mem (fb f))"
proof -
  let ?c = "cam w" and ?p = "ct_frame_pos w"
  have cfg: "cfg_ok ll ?c" and p: "?p < frame_cnt ?c" using c by (simp_all add: core_def)
  note pl = core_frame_pos [OF c]
  obtain a d where d: "dma_buffer ?c = Some (a, d)" "length d = dma_half_buffer_cnt ?c * dma_half_buffer_size ?c"
    and hc: "0 < dma_half_buffer_cnt ?c" using cfg by (auto simp: cfg_ok_def)
  from cfg_ppd [OF cfg] ppd have small: "fb_size ?c + ppd < 2 ^ 32"
    and le: "\<And>bs. length bs = dma_half_buffer_size ?c \<Longrightarrow> length (ll_cam_memcpy ll bs) \<le> ppd"
    and ge: "\<And>bs. jpeg_mode ?c \<Longrightarrow> length bs = dma_half_buffer_size ?c \<Longrightarrow> 3 \<le> length (ll_cam_memcpy ll bs)"
    by (metis option.inject)+
  note b = core_bufs [OF c p, folded f]
  let ?o = "nat (ct_cnt w) mod dma_half_buffer_cnt ?c * dma_half_buffer_size ?c"
  let ?half = "take (dma_half_buffer_size ?c) (drop ?o d)"
  have r: "mem_read d ?o (dma_half_buffer_size ?c) = Some ?half" and lh: "length ?half = dma_half_buffer_size ?c"
    using half_in_range [OF hc, of "nat (ct_cnt w)" "dma_half_buffer_size ?c"] d(2) by simp_all
  let ?out = "ll_cam_memcpy ll ?half"
  have s: "sz (fb_len (fb f) + ppd) = fb_len (fb f) + ppd" using small b by (simp add: sz_def)
  with fits have room: "fb_len (fb f) + ppd \<le> fb_size ?c" by simp
  define m where "m = take (fb_len (fb f)) (fb_mem (fb f)) @ ?out @ drop (fb_len (fb f) + length ?out) (fb_mem (fb f))"
  have mw: "mem_write (fb_mem (fb f)) (fb_len (fb f)) ?out = Some m"
    using le [OF lh] room b by (simp add: m_def)
  have n: "sz (fb_len (fb f) + length ?out) = fb_len (fb f) + length ?out"
    using le [OF lh] room small by (simp add: sz_def)
  let ?f' = "fb_update (\<lambda>b. b\<lparr>fb_mem := m, fb_len := fb_len (fb f) + length ?out\<rparr>) f"
  have m: "length m = length (fb_mem (fb f))" "take (fb_len (fb f)) m = take (fb_len (fb f)) (fb_mem (fb f))"
    using mem_write_length [OF mw] mem_write_prefix [OF mw] by auto
  have "core ll (w\<lparr>cam := ?c\<lparr>frames := (frames ?c)[?p := ?f']\<rparr>\<rparr>) H T"
  proof (rule core_frame [OF c p f])
    show "soi_ok ?f'" if "soi_ok f"
      using that m(2) soi_prefix [of "fb_len (fb f)" m "fb_mem (fb f)"] by (simp add: soi_ok_def)
  qed (use b m le [OF lh] room in simp_all)
  moreover have "copy_half ll w = Some (w\<lparr>cam := ?c\<lparr>frames := (frames ?c)[?p := ?f']\<rparr>\<rparr>)"
    using pl hc d r mw n by (simp add: copy_half_def f Let_def)
  ultimately show ?thesis using m le [OF lh] ge [OF _ lh] room
    by (intro exI [of _ m] exI [of _ "fb_len (fb f) + length ?out"]) simp
qed


lemma core_stop [simp]: "core ll (ll_stop ll' w) H T = core ll w H T"
  by (simp add: ll_stop_def)

lemma stop_simps [simp]:
  "cam (ll_stop ll w) = cam w" "ct_cnt (ll_stop ll w) = ct_cnt w"
  "ct_frame_pos (ll_stop ll w) = ct_frame_pos w"
  "(ll_stop ll w)\<lparr>cam := c\<rparr> = ll_stop ll (w\<lparr>cam := c\<rparr>)"
  "(ll_stop ll w)\<lparr>ct_cnt := n\<rparr> = ll_stop ll (w\<lparr>ct_cnt := n\<rparr>)"
  by (simp_all add: ll_stop_def)

lemma winv_wait: "winv ll w PC_wait H \<longleftrightarrow> core ll w H {} \<and> reading_ok w"
  by (simp add: winv_def)

lemma soi_check:
  assumes "len + 2 \<le> length m" and "0 < len"
  shows "\<exists>r. cam_verify_jpeg_soi m len = Some r \<and> (r = 0 \<longleftrightarrow> at m 0 JPEG_SOI_MARKER)"
proof -
  from soi_from_total [OF assms(1), of 0] obtain r where r: "soi_from m len 0 = Some r" by blast
  from soi_from_spec [OF r] assms(2) have "r = 0 \<longleftrightarrow> at m 0 JPEG_SOI_MARKER"
    by (auto simp: gr0_conv_Suc dest: spec [where x = 0])
  with r show ?thesis by (simp add: cam_verify_jpeg_soi_def)
qed

lemma eof_ok:
  assumes i: "winv ll w PC_wait H" and st: "cam_state (cam w) = CAM_STATE_READ_BUF"
  shows "\<exists>w'. cam_task_eof ll w = Some (w', PC_wait) \<and> winv ll w' PC_wait H"
proof -
  let ?c = "cam w" and ?p = "ct_frame_pos w"
  define f where "f = frames ?c ! ?p"
  have c: "core ll w H {}" and rd: "reading_ok w" using i by (simp_all add: winv_wait)
  have cfg: "cfg_ok ll ?c" and p: "?p < frame_cnt ?c" and cnt: "0 \<le> ct_cnt w"
    using c by (simp_all add: core_def)
  have ps: "\<not> psram_mode ?c" using cfg by (simp add: cfg_ok_def)
  note pl = core_frame_pos [OF c]
  note b = core_bufs [OF c p, folded f_def]
  obtain ppd where ppd: "pixels_per_dma ?c = Some ppd" "jpeg_mode ?c \<Longrightarrow> ppd + 2 \<le> fb_size ?c"
    using cfg_ppd [OF cfg] by metis
  show ?thesis
  proof (cases "fb_size ?c < sz (fb_len (fb f) + ppd)")
    case True
    have "reading_ok (ll_stop ll w)" using rd by (simp add: reading_ok_def)
    with True pl ppd ps c show ?thesis
      by (simp add: cam_task_eof_def f_def winv_wait)
  next
    case False
    from copy_half_ok [OF c ppd(1) f_def False] obtain m n where
      m: "copy_half ll w = Some (w\<lparr>cam := ?c\<lparr>frames := (frames ?c)
          [?p := fb_update (\<lambda>b. b\<lparr>fb_mem := m, fb_len := n\<rparr>) f]\<rparr>\<rparr>)"
      "core ll (w\<lparr>cam := ?c\<lparr>frames := (frames ?c)
          [?p := fb_update (\<lambda>b. b\<lparr>fb_mem := m, fb_len := n\<rparr>) f]\<rparr>\<rparr>) H {}"
      "n \<le> fb_len (fb f) + ppd" "length m = length (fb_mem (fb f))"
      "jpeg_mode ?c \<longrightarrow> fb_len (fb f) + 3 \<le> n"
      "take (fb_len (fb f)) m = take (fb_len (fb f)) (fb_mem (fb f))" by blast
    let ?w1 = "w\<lparr>cam := ?c\<lparr>frames := (frames ?c)[?p := fb_update (\<lambda>b. b\<lparr>fb_mem := m, fb_len := n\<rparr>) f]\<rparr>\<rparr>"
    have en: "en f" using rd st by (simp add: reading_ok_def f_def)
    show ?thesis
    proof (cases "jpeg_mode ?c \<and> ct_cnt w = 0")
      case True
      then have "fb_len (fb f) = 0" using rd st by (simp add: reading_ok_def f_def)
      with True m(3-5) ppd(2) b have "n + 2 \<le> length m" "0 < n" "3 \<le> n" by auto
      from soi_check [OF this(1,2)] obtain r where
        "cam_verify_jpeg_soi m n = Some r" "r = 0 \<longleftrightarrow> at m 0 JPEG_SOI_MARKER" by blast
      with True False m(1,2) pl ppd ps en \<open>3 \<le> n\<close> show ?thesis
        by (simp add: cam_task_eof_def f_def winv_wait reading_ok_def Let_def soi_ok_def)
    next
      case nj: False
      have "jpeg_mode ?c \<Longrightarrow> soi_ok (fb_update (\<lambda>b. b\<lparr>fb_mem := m, fb_len := n\<rparr>) f)"
        using nj rd st m(5) soi_prefix [OF _ m(6)]
        by (auto simp: reading_ok_def f_def soi_ok_def)
      with nj False m(1,2) pl ppd ps en cnt show ?thesis
        by (auto simp: cam_task_eof_def f_def winv_wait reading_ok_def Let_def)
    qed
  qed
qed


lemma core_set_len:
  assumes "core ll w H T" and "x < frame_cnt (cam w)" and "en (frames (cam w) ! x)" and "n \<le> fb_size (cam w)"
  shows "core ll (w\<lparr>cam := (cam w)\<lparr>frames := (frames (cam w))
    [x := fb_update (fb_len_update (\<lambda>_. n)) (frames (cam w) ! x)]\<rparr>\<rparr>) H T"
  by (rule core_frame [OF assms(1,2) refl]) (use assms core_bufs [OF assms(1,2)] in simp_all)

lemma core_claim:
  assumes "core ll w H T" and "x < frame_cnt (cam w)" and "f = frames (cam w) ! x" and "en f"
    and "jpeg_mode (cam w) \<Longrightarrow> soi_ok f"
  shows "core ll (w\<lparr>cam := (cam w)\<lparr>frames := (frames (cam w))[x := f\<lparr>en := False\<rparr>]\<rparr>\<rparr>) H (insert x T)"
proof -
  note d = assms(1) [unfolded core_def]
  have x: "f \<in> set (frames (cam w))" using d assms(2,3) by (simp add: own_def)
  have sub: "set ((frames (cam w))[x := f\<lparr>en := False\<rparr>]) \<subseteq> insert (f\<lparr>en := False\<rparr>) (set (frames (cam w)))"
    by (rule set_update_subset_insert)
  have "own ((cam w)\<lparr>frames := (frames (cam w))[x := f\<lparr>en := False\<rparr>]\<rparr>) H (insert x T)"
    by (rule own_claim [of "cam w" H T x _ "f\<lparr>en := False\<rparr>"]) (use d assms in simp_all)
  moreover have "bufs_ok ((cam w)\<lparr>frames := (frames (cam w))[x := f\<lparr>en := False\<rparr>]\<rparr>)"
    using d sub x by (fastforce simp: bufs_ok_def)
  moreover have "\<forall>g \<in> set ((frames (cam w))[x := f\<lparr>en := False\<rparr>]). \<not> en g \<longrightarrow> soi_ok g"
    if "jpeg_mode (cam w)"
  proof -
    have "soi_ok (f\<lparr>en := False\<rparr>)" using assms(5) [OF that] by (simp add: soi_ok_def)
    with that d sub show ?thesis by blast
  qed
  ultimately show ?thesis using d by (simp add: core_def)
qed

lemma core_release:
  assumes "core ll w H T" and "x \<in> H \<union> T" and "f = frames (cam w) ! x"
  shows "core ll (w\<lparr>cam := (cam w)\<lparr>frames := (frames (cam w))[x := f\<lparr>en := True\<rparr>]\<rparr>\<rparr>) (H - {x}) (T - {x})"
proof -
  note d = assms(1) [unfolded core_def]
  have xl: "x < frame_cnt (cam w)" and x: "f \<in> set (frames (cam w))"
    using d assms(2,3) by (auto simp: own_def)
  have sub: "set ((frames (cam w))[x := f\<lparr>en := True\<rparr>]) \<subseteq> insert (f\<lparr>en := True\<rparr>) (set (frames (cam w)))"
    by (rule set_update_subset_insert)
  have "own ((cam w)\<lparr>frames := (frames (cam w))[x := f\<lparr>en := True\<rparr>]\<rparr>) (H - {x}) (T - {x})"
    by (rule own_release [of "cam w" H T x _ "f\<lparr>en := True\<rparr>"]) (use d assms xl in simp_all)
  moreover have "bufs_ok ((cam w)\<lparr>frames := (frames (cam w))[x := f\<lparr>en := True\<rparr>]\<rparr>)"
    using d sub x by (fastforce simp: bufs_ok_def)
  moreover have "\<forall>g \<in> set ((frames (cam w))[x := f\<lparr>en := True\<rparr>]). \<not> en g \<longrightarrow> soi_ok g"
    if "jpeg_mode (cam w)"
    using that d sub by fastforce
  ultimately show ?thesis using d by (simp add: core_def)
qed

lemma idle_ok:
  assumes i: "winv ll w PC_wait H" and st: "cam_state (cam w) = CAM_STATE_IDLE"
  shows "\<exists>w'. cam_task_idle ll ev w = Some (w', PC_wait) \<and> winv ll w' PC_wait H"
proof (cases "ev = CAM_VSYNC_EVENT")
  case False
  then show ?thesis using i by (simp add: cam_task_idle_def)
next
  case True
  from i have c: "core ll w H {}" by (simp add: winv_wait)
  from start_frame [OF c] obtain b w1 where w1: "cam_start_frame ll w = Some (b, w1)" "core ll w1 H {}"
    "cam_state (cam w1) = CAM_STATE_IDLE" "b \<Longrightarrow> en (frames (cam w1) ! ct_frame_pos w1)" using st by auto
  have p: "ct_frame_pos w1 < frame_cnt (cam w1)" using w1(2) by (simp add: core_def)
  show ?thesis
  proof (cases b)
    case b: True
    note l = core_set_len [OF w1(2) p w1(4) [OF b], of 0]
    from l b True w1 core_frame_pos [OF w1(2)] show ?thesis
      by (simp add: cam_task_idle_def winv_wait reading_ok_def)
  next
    case False
    with True w1 show ?thesis by (simp add: cam_task_idle_def winv_wait reading_ok_def)
  qed
qed

lemma start_ok:
  assumes "core ll w H {}"
  shows "\<exists>w'. cam_task_frag ll PC_start w = Some (w', PC_wait) \<and> winv ll w' PC_wait H"
proof -
  from start_frame [OF assms] obtain b w1 where w1: "cam_start_frame ll w = Some (b, w1)" "core ll w1 H {}"
    "b \<Longrightarrow> en (frames (cam w1) ! ct_frame_pos w1)" by auto
  have p: "ct_frame_pos w1 < frame_cnt (cam w1)" using w1(2) by (simp add: core_def)
  show ?thesis
  proof (cases b)
    case b: True
    note l = core_set_len [OF w1(2) p w1(3) [OF b], of 0]
    from l b w1 core_frame_pos [OF w1(2)] show ?thesis
      by (simp add: winv_wait reading_ok_def)
  next
    case False
    with w1 show ?thesis by (simp add: winv_wait reading_ok_def)
  qed
qed

lemma claim_ok:
  assumes c: "core ll w H {}" and e: "en (frames (cam w) ! ct_frame_pos w)"
    and s: "jpeg_mode (cam w) \<Longrightarrow> soi_ok (frames (cam w) ! ct_frame_pos w)"
  shows "\<exists>w'. cam_vsync_claim w = Some w' \<and> winv ll w' PC_send H"
proof -
  let ?p = "ct_frame_pos w"
  have p: "?p < frame_cnt (cam w)" and ps: "\<not> psram_mode (cam w)" using c by (simp_all add: core_def cfg_ok_def)
  note pl = core_frame_pos [OF c]
  note c1 = core_claim [OF c p refl e s, simplified]
  show ?thesis
  proof (cases "\<not> jpeg_mode (cam w) \<and> fb_len (fb (frames (cam w) ! ?p)) \<noteq> fb_size (cam w)")
    case True
    have "core ll (w\<lparr>cam := (cam w)\<lparr>frames := (frames (cam w))[?p := (frames (cam w) ! ?p)\<lparr>en := True\<rparr>]\<rparr>\<rparr>) H {}"
      by (rule core_frame [OF c p refl]) (use e core_bufs [OF c p] in simp_all)
    with True ps pl show ?thesis by (simp add: cam_vsync_claim_def winv_def Let_def)
  next
    case False
    with c1 ps pl show ?thesis by (auto simp: cam_vsync_claim_def winv_def Let_def)
  qed
qed


lemma tail_ok:
  assumes i: "winv ll w PC_wait H" and st: "cam_state (cam w) = CAM_STATE_READ_BUF"
    and ppd: "pixels_per_dma (cam w) = Some ppd" and cnt: "ct_cnt w \<noteq> 0 \<or> \<not> jpeg_mode (cam w)"
  shows "\<exists>w'. cam_vsync_tail ll ppd w = Some w' \<and> core ll w' H {} \<and>
    en (frames (cam w') ! ct_frame_pos w') \<and> (jpeg_mode (cam w') \<longrightarrow> soi_ok (frames (cam w') ! ct_frame_pos w'))"
proof -
  let ?c = "cam w" and ?p = "ct_frame_pos w"
  define f where "f = frames ?c ! ?p"
  have c: "core ll w H {}" and rd: "reading_ok w" using i by (simp_all add: winv_wait)
  have ps: "\<not> psram_mode ?c" and pos: "0 \<le> ct_cnt w" using c by (simp_all add: core_def cfg_ok_def)
  note pl = core_frame_pos [OF c]
  have en: "en f" and soi: "jpeg_mode ?c \<Longrightarrow> soi_ok f"
    using rd st cnt by (auto simp: reading_ok_def f_def)
  consider (raw) "\<not> jpeg_mode ?c" | (ovf) "jpeg_mode ?c" "fb_size ?c < sz (fb_len (fb f) + ppd)"
    | (room) "jpeg_mode ?c" "\<not> fb_size ?c < sz (fb_len (fb f) + ppd)" by blast
  then show ?thesis
  proof cases
    case raw
    then show ?thesis using c en by (simp add: cam_vsync_tail_def f_def)
  next
    case ovf
    then show ?thesis using c en soi pl ps pos by (simp add: cam_vsync_tail_def f_def)
  next
    case room
    from copy_half_ok [OF c ppd f_def room(2)] obtain m n where
      m: "copy_half ll w = Some (w\<lparr>cam := ?c\<lparr>frames := (frames ?c)
          [?p := fb_update (\<lambda>b. b\<lparr>fb_mem := m, fb_len := n\<rparr>) f]\<rparr>\<rparr>)"
      "core ll (w\<lparr>cam := ?c\<lparr>frames := (frames ?c)
          [?p := fb_update (\<lambda>b. b\<lparr>fb_mem := m, fb_len := n\<rparr>) f]\<rparr>\<rparr>) H {}"
      "jpeg_mode ?c \<longrightarrow> fb_len (fb f) + 3 \<le> n"
      "take (fb_len (fb f)) m = take (fb_len (fb f)) (fb_mem (fb f))" by blast
    have "soi_ok (fb_update (\<lambda>b. b\<lparr>fb_mem := m, fb_len := n\<rparr>) f)"
      using soi room m(3) soi_prefix [OF _ m(4)] by (simp add: soi_ok_def)
    with room m en pl ps pos show ?thesis by (simp add: cam_vsync_tail_def f_def)
  qed
qed

lemma vsync_ok:
  assumes i: "winv ll w PC_wait H" and st: "cam_state (cam w) = CAM_STATE_READ_BUF"
  shows "\<exists>w' pc. cam_task_vsync ll w = Some (w', pc) \<and> winv ll w' pc H"
proof -
  have c: "core ll w H {}" using i by (simp add: winv_wait)
  obtain ppd where ppd: "pixels_per_dma (cam w) = Some ppd"
    using c cfg_ppd [of ll "cam w"] by (metis core_def)
  have i1: "winv ll (ll_stop ll w) PC_wait H" using i by (simp add: winv_wait reading_ok_def)
  show ?thesis
  proof (cases "ct_cnt w \<noteq> 0 \<or> \<not> jpeg_mode (cam w)")
    case True
    from tail_ok [OF i1, of ppd] True st ppd obtain w1 where w1: "cam_vsync_tail ll ppd (ll_stop ll w) = Some w1"
      "core ll w1 H {}" "en (frames (cam w1) ! ct_frame_pos w1)"
      "jpeg_mode (cam w1) \<Longrightarrow> soi_ok (frames (cam w1) ! ct_frame_pos w1)" by auto
    from claim_ok [OF w1(2-4)] obtain w2 where "cam_vsync_claim w1 = Some w2" "winv ll w2 PC_send H"
      by blast
    with True ppd w1 show ?thesis by (auto simp: cam_task_vsync_def Let_def)
  next
    case False
    moreover have "\<not> psram_mode (cam w)" using c by (simp add: core_def cfg_ok_def)
    ultimately show ?thesis using ppd c by (simp add: cam_task_vsync_def Let_def winv_def)
  qed
qed

lemma dispatch_ok:
  assumes "winv ll w PC_wait H"
  shows "\<exists>w' pc. cam_task_dispatch ll ev w = Some (w', pc) \<and> winv ll w' pc H"
  using idle_ok [OF assms, of ev] eof_ok [OF assms] vsync_ok [OF assms]
  by (cases "cam_state (cam w)"; cases ev) (auto simp: cam_task_dispatch_def)

lemma core_fbq:
  assumes "core ll w H T" and "q_ok q" and "own ((cam w)\<lparr>frame_buffer_queue := Some q\<rparr>) H' T'"
  shows "core ll (w\<lparr>cam := (cam w)\<lparr>frame_buffer_queue := Some q\<rparr>\<rparr>) H' T'"
  using assms by (simp add: core_def)

lemma core_queued:
  assumes c: "core ll w H T" and "x \<in> T" and q: "q_ok q" "q_items q = fbq_items (cam w) @ [Some x]"
  shows "core ll (w\<lparr>cam := (cam w)\<lparr>frame_buffer_queue := Some q\<rparr>\<rparr>) H (T - {x})"
proof (rule core_fbq [OF c q(1)], rule own_queued [of "cam w" H T x])
  show "own (cam w) H T" using c by (simp add: core_def)
qed (use assms in simp_all)

lemma core_dequeued:
  assumes c: "core ll w H T" and q: "q_ok q" "fbq_items (cam w) = p # q_items q"
  shows "\<exists>x. p = Some x \<and> x < frame_cnt (cam w) \<and> x \<notin> H \<and> x \<notin> T \<and>
    core ll (w\<lparr>cam := (cam w)\<lparr>frame_buffer_queue := Some q\<rparr>\<rparr>) H (insert x T)"
proof -
  have "own (cam w) H T" using c by (simp add: core_def)
  from own_dequeued [OF this, of p "(cam w)\<lparr>frame_buffer_queue := Some q\<rparr>"] q
  obtain x where "p = Some x" "x < frame_cnt (cam w)" "x \<notin> H" "x \<notin> T"
    "own ((cam w)\<lparr>frame_buffer_queue := Some q\<rparr>) H (insert x T)" by auto
  with core_fbq [OF c q(1)] show ?thesis by blast
qed

lemma core_fbq_ok: "core ll w H T \<Longrightarrow> fbq_ok (cam w)"
  by (simp add: core_def)

lemma core_drop:
  assumes "core ll w H T" and "x \<in> T"
  shows "core ll (w\<lparr>cam := (cam w)\<lparr>frames := (frames (cam w))[x := (frames (cam w) ! x)\<lparr>en := True\<rparr>]\<rparr>\<rparr>) H (T - {x})"
proof -
  have "H - {x} = H" using assms by (auto simp: core_def own_def)
  with core_release [OF assms(1) _ refl, of x] assms(2) show ?thesis by simp
qed

lemma frag_send_ok:
  assumes i: "winv ll w PC_send H"
  shows "\<exists>w' pc'. cam_task_frag ll PC_send w = Some (w', pc') \<and> winv ll w' pc' H"
proof (cases "en (frames (cam w) ! ct_frame_pos w)")
  case True
  with i have "core ll w H {}" by (simp add: winv_def)
  with True core_frame_pos [OF this] show ?thesis by (simp add: winv_def)
next
  case False
  with i have c: "core ll w H {ct_frame_pos w}" by (simp add: winv_def)
  note pl = core_frame_pos [OF c]
  from core_fbq_ok [OF c] show ?thesis
  proof (cases rule: fbq_send_cases [where p = "Some (ct_frame_pos w)"])
    case (sent q)
    from core_queued [OF c _ sent(2,3)] False sent pl show ?thesis by (simp add: winv_def)
  next
    case full
    with False c pl show ?thesis by (simp add: winv_def)
  qed
qed

lemma frag_pop_ok:
  assumes i: "winv ll w PC_pop H"
  shows "\<exists>w' pc'. cam_task_frag ll PC_pop w = Some (w', pc') \<and> winv ll w' pc' H"
proof -
  from i have c: "core ll w H {ct_frame_pos w}" by (simp add: winv_def)
  from core_fbq_ok [OF c] show ?thesis
  proof (cases rule: fbq_receive_cases)
    case (got p q)
    from core_dequeued [OF c got(2,3)] obtain x where "p = Some x" "x \<noteq> ct_frame_pos w"
      "core ll (w\<lparr>cam := (cam w)\<lparr>frame_buffer_queue := Some q\<rparr>\<rparr>) H {x, ct_frame_pos w}" by auto
    with got(1) show ?thesis by (simp add: winv_def insert_commute)
  next
    case empty
    with core_drop [OF c] core_frame_pos [OF c] show ?thesis by (simp add: winv_def)
  qed
qed

lemma frag_push_ok:
  assumes i: "winv ll w (PC_push p) H"
  shows "\<exists>w' pc'. cam_task_frag ll (PC_push p) w = Some (w', pc') \<and> winv ll w' pc' H"
proof -
  from i obtain y where y: "p = Some y" "y \<noteq> ct_frame_pos w" by (auto simp: winv_def)
  with i have c: "core ll w H {ct_frame_pos w, y}" by (simp add: winv_def)
  from core_fbq_ok [OF c] show ?thesis
  proof (cases rule: fbq_send_cases [where p = "Some (ct_frame_pos w)"])
    case (sent q)
    from core_queued [OF c _ sent(2,3)] y sent show ?thesis by (simp add: winv_def)
  next
    case full
    with core_drop [OF c, of "ct_frame_pos w"] core_frame_pos [OF c] y show ?thesis
      by (simp add: winv_def)
  qed
qed

lemma frag_give_ok:
  assumes i: "winv ll w (PC_give p) H"
  shows "\<exists>w' pc'. cam_task_frag ll (PC_give p) w = Some (w', pc') \<and> winv ll w' pc' H"
proof -
  from i obtain y where y: "p = Some y" and c: "core ll w H {y}" by (auto simp: winv_def)
  then have "y < frame_cnt (cam w)" "length (frames (cam w)) = frame_cnt (cam w)"
    by (auto simp: core_def own_def)
  with core_drop [OF c] y show ?thesis by (simp add: winv_def cam_give_eq)
qed

lemma frag_ok:
  assumes "winv ll w pc H"
  shows "\<exists>w' pc'. cam_task_frag ll pc w = Some (w', pc') \<and> winv ll w' pc' H"
  using assms frag_send_ok [of ll w H] frag_pop_ok [of ll w H] frag_push_ok [of ll w _ H]
    frag_give_ok [of ll w _ H] start_ok [of ll w H]
  by (cases pc) (auto simp: winv_def simp del: cam_task_frag.simps(2-))

subsection \<open>The steps of the application\<close>

text \<open>A frame that is not free and not the task's is not the one being filled or queued.\<close>

lemma foreign_not_pos:
  assumes "winv ll w pc H" and "\<not> en (frames (cam w) ! x)" and "x \<notin> task_owns pc w"
  shows "pc = PC_send \<Longrightarrow> x \<noteq> ct_frame_pos w"
    and "pc = PC_wait \<Longrightarrow> cam_state (cam w) = CAM_STATE_READ_BUF \<Longrightarrow> x \<noteq> ct_frame_pos w"
  using assms by (auto simp: winv_def reading_ok_def)

lemma foreign_update:
  assumes i: "winv ll w pc H" and "\<not> en (frames (cam w) ! x)" and "x \<notin> task_owns pc w"
    and "frames c' = (frames (cam w))[x := f']" "cam_state c' = cam_state (cam w)"
    "jpeg_mode c' = jpeg_mode (cam w)"
  shows "task_owns pc (w\<lparr>cam := c'\<rparr>) = task_owns pc w" and "pc_ok pc (w\<lparr>cam := c'\<rparr>)"
proof -
  have p: "frames c' ! ct_frame_pos w = frames (cam w) ! ct_frame_pos w"
    if "pc = PC_send \<or> pc = PC_wait \<and> cam_state (cam w) = CAM_STATE_READ_BUF"
  proof -
    have "x \<noteq> ct_frame_pos w" using that foreign_not_pos [OF assms(1-3)] by blast
    then show ?thesis using assms(4) by simp
  qed
  then show "task_owns pc (w\<lparr>cam := c'\<rparr>) = task_owns pc w" by (cases pc) simp_all
  have "pc_ok pc w" using i by (simp add: winv_def)
  with p assms(5,6) show "pc_ok pc (w\<lparr>cam := c'\<rparr>)" by (cases pc) (auto simp: reading_ok_def)
qed

lemma core_move: "core ll w H (insert x T) \<Longrightarrow> x \<notin> T \<Longrightarrow> core ll w (insert x H) T"
  by (auto simp: core_def intro: own_move)

lemma queued_foreign:
  assumes "core ll w H T" and "Some x \<in> set (fbq_items (cam w))"
  shows "\<not> en (frames (cam w) ! x)" and "x \<notin> T" and "x < frame_cnt (cam w)"
  using assms by (auto simp: core_def own_def)

text \<open>What the application may rely on for a frame it got.\<close>

definition frame_good :: "cam_obj_t \<Rightarrow> cam_frame_t \<Rightarrow> bool" where
  "frame_good c f \<longleftrightarrow> fb_len (fb f) \<le> length (fb_mem (fb f)) \<and>
     (jpeg_mode c \<longrightarrow> at (fb_mem (fb f)) 0 JPEG_SOI_MARKER \<and> 3 \<le> fb_len (fb f) \<and>
        at (fb_mem (fb f)) (fb_len (fb f) - 2) JPEG_EOI_MARKER)"

lemma take_ok:
  assumes i: "winv ll w pc H" and r: "fbq_receive (cam w) = Some ((True, Some x), c)"
  shows "\<exists>r. cam_take_frame ll x (w\<lparr>cam := c\<rparr>) = Some r \<and>
    (case r of Inr w' \<Rightarrow> winv ll w' pc (insert x H) \<and> x \<notin> H \<and> frame_good (cam w') (frames (cam w') ! x)
             | Inl w' \<Rightarrow> winv ll w' pc H)"
proof -
  have core: "core ll w H (task_owns pc w)" using i by (simp add: winv_def)
  from core_fbq_ok [OF core] r obtain q where q: "q_ok q" "fbq_items (cam w) = Some x # q_items q"
    and c: "c = (cam w)\<lparr>frame_buffer_queue := Some q\<rparr>"
    by (cases rule: fbq_receive_cases) auto
  have inq: "Some x \<in> set (fbq_items (cam w))" using q(2) by simp
  note x = queued_foreign [OF core inq]
  have len: "length (frames (cam w)) = frame_cnt (cam w)" using core by (simp add: core_def own_def)
  let ?w = "w\<lparr>cam := c\<rparr>"
  have c1: "core ll ?w H (insert x (task_owns pc w))" and xH: "x \<notin> H"
    using core_dequeued [OF core q] by (auto simp: c)
  note c2 = core_move [OF c1 x(2)]
  note up = foreign_update [OF i x(1,2)]
  let ?f = "frames (cam w) ! x"
  have b: "fb_size (cam w) \<le> length (fb_mem (fb ?f))" "fb_len (fb ?f) \<le> fb_size (cam w)"
    using core_bufs [OF core x(3)] by simp_all
  have ps: "\<not> psram_mode (cam w)" using core by (simp add: core_def cfg_ok_def)
  show ?thesis
  proof (cases "jpeg_mode (cam w)")
    case False
    have "winv ll ?w pc (insert x H)" using c2 up [of c ?f] by (simp add: winv_def c)
    with False ps x(3) len b xH show ?thesis by (simp add: cam_take_frame_def c frame_good_def)
  next
    case j: True
    have soi: "soi_ok ?f" using core x(1,3) len j by (auto simp: core_def)
    then have "fb_len (fb ?f) - 2 + 2 \<le> length (fb_mem (fb ?f))" unfolding soi_ok_def using b by linarith
    from eoi_from_total [OF this] obtain e where e: "cam_verify_jpeg_eoi (fb_mem (fb ?f)) (fb_len (fb ?f)) = Some e"
      by (auto simp: cam_verify_jpeg_eoi_def)
    show ?thesis
    proof (cases "e \<ge> 0")
      case True
      with eoi_from_spec [OF e [unfolded cam_verify_jpeg_eoi_def]] obtain k where
        k: "e = int k" "0 < k" "k + 2 \<le> fb_len (fb ?f)" "at (fb_mem (fb ?f)) k JPEG_EOI_MARKER" by auto
      let ?c' = "c\<lparr>frames := (frames c)[x := fb_update (fb_len_update (\<lambda>_. k + 2)) ?f]\<rparr>"
      have "core ll (w\<lparr>cam := ?c'\<rparr>) (insert x H) (task_owns pc w)"
        using core_frame [OF c2, of x ?f "fb_update (fb_len_update (\<lambda>_. k + 2)) ?f"] x(3) b k
        by (simp add: c soi_ok_def)
      moreover note up [of ?c']
      ultimately have "winv ll (w\<lparr>cam := ?c'\<rparr>) pc (insert x H)" by (simp add: winv_def c)
      with True j e k x(3) len b soi xH show ?thesis
        by (simp add: cam_take_frame_def c frame_good_def soi_ok_def)
    next
      case False
      let ?c' = "c\<lparr>frames := (frames c)[x := ?f\<lparr>en := True\<rparr>]\<rparr>"
      have "core ll (w\<lparr>cam := ?c'\<rparr>) H (task_owns pc w)"
        using core_drop [OF c1, of x] x(2) by (simp add: c)
      moreover note up [of ?c']
      ultimately have "winv ll (w\<lparr>cam := ?c'\<rparr>) pc H" by (simp add: winv_def c)
      with False j e x(3) len show ?thesis by (simp add: cam_take_frame_def c cam_give_eq)
    qed
  qed
qed

lemma give_ok:
  assumes i: "winv ll w pc H" and "x \<in> H"
  shows "\<exists>c. cam_give (Some x) (cam w) = Some c \<and> winv ll (w\<lparr>cam := c\<rparr>) pc (H - {x})"
proof -
  have core: "core ll w H (task_owns pc w)" using i by (simp add: winv_def)
  then have x: "\<not> en (frames (cam w) ! x)" "x \<notin> task_owns pc w" "x < frame_cnt (cam w)"
    "length (frames (cam w)) = frame_cnt (cam w)" using assms(2) by (auto simp: core_def own_def)
  let ?c = "(cam w)\<lparr>frames := (frames (cam w))[x := (frames (cam w) ! x)\<lparr>en := True\<rparr>]\<rparr>"
  have "core ll (w\<lparr>cam := ?c\<rparr>) (H - {x}) (task_owns pc w)"
    using core_release [OF core, of x] assms(2) x(2) by simp
  moreover note foreign_update [OF i x(1,2), of ?c]
  ultimately have "winv ll (w\<lparr>cam := ?c\<rparr>) pc (H - {x})" by (simp add: winv_def)
  with x show ?thesis by (simp add: cam_give_eq)
qed


lemma owns_update [simp]:
  "task_owns pc (w\<lparr>cw_hw := h\<rparr>) = task_owns pc w"
  "task_owns pc (ll_stop ll w) = task_owns pc w"
  "task_owns pc (w\<lparr>cam := c\<lparr>cam_state := st\<rparr>\<rparr>) = task_owns pc (w\<lparr>cam := c\<rparr>)"
  "task_owns pc (w\<lparr>cam := c\<lparr>event_queue := eq\<rparr>\<rparr>) = task_owns pc (w\<lparr>cam := c\<rparr>)"
  "task_owns pc (w\<lparr>cam := c\<lparr>dma_buffer := db\<rparr>\<rparr>) = task_owns pc (w\<lparr>cam := c\<rparr>)"
  by (cases pc; simp add: ll_stop_def)+

lemma winv_hw [simp]:
  "winv ll (w\<lparr>cw_hw := h\<rparr>) pc H = winv ll w pc H"
  "winv ll (w\<lparr>cw_hw := h, cam := c\<rparr>) pc H = winv ll (w\<lparr>cam := c\<rparr>) pc H"
  by (cases pc; simp add: winv_def reading_ok_def core_def)+

lemma winv_evq:
  assumes "winv ll w pc H" and "q_ok q"
  shows "winv ll (w\<lparr>cam := (cam w)\<lparr>event_queue := Some q\<rparr>\<rparr>) pc H"
  using assms by (cases pc) (simp_all add: winv_def reading_ok_def core_def)

lemma winv_idle:
  assumes "winv ll w pc H"
  shows "winv ll (w\<lparr>cam := (cam w)\<lparr>cam_state := CAM_STATE_IDLE\<rparr>\<rparr>) pc H"
  using assms by (cases pc) (simp_all add: winv_def reading_ok_def core_def)

lemma send_event_ok:
  assumes i: "winv ll w pc H"
  shows "\<exists>w'. ll_cam_send_event ll ev w = Some w' \<and> winv ll w' pc H"
proof -
  obtain q where q: "event_queue (cam w) = Some q" "q_ok q"
    using i by (auto simp: winv_def core_def evq_ok_def)
  from q(2) show ?thesis
  proof (cases rule: fq.send_cases [where x = ev])
    case (room q')
    with q winv_evq [OF i] show ?thesis by (simp add: ll_cam_send_event_def Let_def)
  next
    case full
    with q winv_idle [OF winv_evq [OF i q(2)]] show ?thesis
      by (simp add: ll_cam_send_event_def Let_def ll_stop_def)
  qed
qed

lemma ppd_dma: "pixels_per_dma (c\<lparr>dma_buffer := db\<rparr>) = pixels_per_dma c"
  by (simp add: pixels_per_dma_def Let_def)

lemma winv_dma:
  assumes "winv ll w pc H" and "dma_buffer (cam w) = Some (a, d)" and "length d' = length d"
  shows "winv ll (w\<lparr>cam := (cam w)\<lparr>dma_buffer := Some (a, d')\<rparr>\<rparr>) pc H"
proof -
  have "cfg_ok ll (cam w)" using assms(1) by (simp add: winv_def core_def)
  then have "cfg_ok ll ((cam w)\<lparr>dma_buffer := Some (a, d')\<rparr>)"
    using assms(2,3) by (simp add: cfg_ok_def ppd_dma)
  with assms(1) show ?thesis by (cases pc) (simp_all add: winv_def reading_ok_def core_def)
qed

lemma recv_event_ok:
  assumes "winv ll w pc H" and "event_queue (cam w) = Some q"
    and "xQueueReceiveFromISR ev0 q = ((b, ev), q')"
  shows "winv ll (w\<lparr>cam := (cam w)\<lparr>event_queue := Some q'\<rparr>\<rparr>) pc H"
proof (rule winv_evq [OF assms(1)])
  have q: "q_ok q" using assms(1,2) by (auto simp: winv_def core_def evq_ok_def)
  then show "q_ok q'" using assms(3) q by (cases rule: fq.recv_cases [where buf = ev0]) auto
qed

lemma cam_step_inv:
  assumes "cam_step ll s s'" and "sys_inv ll s"
  shows "sys_inv ll s'"
  using assms
proof (induction rule: cam_step.induct)
  case (isr ev s w)
  with send_event_ok [of ll "sys_w s" "sys_pc s" "held s" ev] show ?case by (auto simp: sys_inv_def)
next
  case (dma s a d d')
  then show ?case by (simp add: sys_inv_def winv_dma)
next
  case (hardware s h)
  then show ?case by (simp add: sys_inv_def)
next
  case (event s q ev0 ev q' w pc)
  with recv_event_ok [of ll "sys_w s" PC_wait "held s" q ev0 True ev q']
    dispatch_ok [of ll "upd_cam (event_queue_update (\<lambda>_. Some q')) (sys_w s)" "held s" ev]
  show ?case by (auto simp: sys_inv_def)
next
  case (frag s w pc)
  with frag_ok [of ll "sys_w s" "sys_pc s" "held s"] show ?case by (auto simp: sys_inv_def)
next
  case (take s x c w)
  with take_ok [of ll "sys_w s" "sys_pc s" "held s" x c] show ?case by (auto simp: sys_inv_def)
next
  case (discard s x c w)
  with take_ok [of ll "sys_w s" "sys_pc s" "held s" x c] show ?case by (auto simp: sys_inv_def)
next
  case (give x s c)
  with give_ok [of ll "sys_w s" "sys_pc s" "held s" x] show ?case by (auto simp: sys_inv_def)
qed

lemma cam_steps_inv: "cam_steps ll s s' \<Longrightarrow> sys_inv ll s \<Longrightarrow> sys_inv ll s'"
  by (induction rule: rtranclp_induct) (auto intro: cam_step_inv)


subsection \<open>What the steps leave alone\<close>

text \<open>\<open>keeps_held S w w'\<close>: the frames that are not free and not in \<open>S\<close> are the same in both.\<close>

definition keeps_held :: "nat set \<Rightarrow> 'e cam_world \<Rightarrow> 'e cam_world \<Rightarrow> bool" where
  "keeps_held S w w' \<longleftrightarrow>
     (\<forall>y. \<not> en (frames (cam w) ! y) \<and> y \<notin> S \<longrightarrow> frames (cam w') ! y = frames (cam w) ! y)"

lemma set_frame_nth:
  "set_frame x f c = Some c' \<Longrightarrow> y \<noteq> x \<Longrightarrow> frames c' ! y = frames c ! y"
  by (auto simp: set_frame_def split: if_splits)

lemma set_frame_other:
  "set_frame x f c = Some c' \<Longrightarrow> en (frames c ! x) \<Longrightarrow> \<not> en (frames c ! y) \<Longrightarrow> frames c' ! y = frames c ! y"
  by (metis set_frame_nth)

lemma start_keeps:
  assumes "cam_start_frame ll w = Some (b, w')"
  shows "keeps_held S w w'" and "b \<Longrightarrow> en (frames (cam w) ! ct_frame_pos w')"
proof -
  have e: "en (frames (cam w) ! q)" if "cam_get_next_frame (ct_frame_pos w) (cam w) = Some (True, q)" for q
  proof -
    have *: "first_enabled c xs = Some (Some y) \<Longrightarrow> en (frames c ! y)" for c xs y
      by (induction xs) (auto simp: frame_at_def split: if_splits bind_splits)
    from that show ?thesis
      by (auto simp: cam_get_next_frame_def frame_at_def split: if_splits bind_splits option.splits dest: *)
  qed
  show "keeps_held S w w'" "b \<Longrightarrow> en (frames (cam w) ! ct_frame_pos w')"
    using assms by (auto simp: cam_start_frame_def keeps_held_def Let_def dest!: e
        split: bind_splits if_splits prod.splits dest: set_frame_other)
qed


lemma start_then_keeps:
  assumes "keeps_held S w w1" and "b \<Longrightarrow> en (frames (cam w) ! p)"
    and "\<And>y. y \<noteq> p \<or> \<not> b \<Longrightarrow> frames (cam w') ! y = frames (cam w1) ! y"
  shows "keeps_held S w w'"
  unfolding keeps_held_def
proof (intro allI impI)
  fix y assume y: "\<not> en (frames (cam w) ! y) \<and> y \<notin> S"
  then have "y \<noteq> p \<or> \<not> b" using assms(2) by blast
  with assms(1,3) y show "frames (cam w') ! y = frames (cam w) ! y" by (simp add: keeps_held_def)
qed

lemma copy_half_nth: "copy_half ll w = Some w' \<Longrightarrow> y \<noteq> ct_frame_pos w \<Longrightarrow>
    frames (cam w') ! y = frames (cam w) ! y"
  by (auto simp: set_frame_def copy_half_def Let_def split: bind_splits if_splits)

lemma copy_half_pos: "copy_half ll w = Some w' \<Longrightarrow> ct_frame_pos w' = ct_frame_pos w"
  by (auto simp: copy_half_def Let_def split: bind_splits if_splits)

lemma idle_keeps:
  assumes "cam_task_idle ll ev w = Some (w', pc)"
  shows "keeps_held S w w'"
proof (cases "ev = CAM_VSYNC_EVENT")
  case False
  with assms show ?thesis by (simp add: cam_task_idle_def keeps_held_def)
next
  case True
  with assms obtain b w1 where b: "cam_start_frame ll w = Some (b, w1)"
    by (auto simp: cam_task_idle_def split: bind_splits)
  note k = start_keeps [OF b]
  from True assms b have "y \<noteq> ct_frame_pos w1 \<or> \<not> b \<Longrightarrow> frames (cam w') ! y = frames (cam w1) ! y" for y
    by (auto simp: set_frame_def cam_task_idle_def set_len_def split: bind_splits if_splits)
  with k show ?thesis by (rule start_then_keeps)
qed

lemma eof_keeps:
  assumes "cam_task_eof ll w = Some (w', pc)" and "en (frames (cam w) ! ct_frame_pos w)"
  shows "keeps_held S w w'"
proof -
  from assms(1) have "y \<noteq> ct_frame_pos w \<Longrightarrow> frames (cam w') ! y = frames (cam w) ! y" for y
    by (auto simp: cam_task_eof_def Let_def split: bind_splits if_splits intro: copy_half_nth)
  with assms(2) show ?thesis unfolding keeps_held_def by metis
qed

lemma vsync_keeps:
  assumes "cam_task_vsync ll w = Some (w', pc)" and "en (frames (cam w) ! ct_frame_pos w)"
  shows "keeps_held S w w'"
proof -
  have t: "frames (cam w2) ! y = frames (cam w1) ! y \<and> ct_frame_pos w2 = ct_frame_pos w1"
    if "cam_vsync_tail ll ppd w1 = Some w2" "y \<noteq> ct_frame_pos w1" for ppd and w1 w2 :: "'a cam_world" and y
    using that by (auto simp: cam_vsync_tail_def split: bind_splits if_splits
        intro: copy_half_nth copy_half_pos)
  have c: "frames (cam w2) ! y = frames (cam w1) ! y"
    if "cam_vsync_claim w1 = Some w2" "y \<noteq> ct_frame_pos w1" for w1 w2 :: "'a cam_world" and y
    using that by (auto simp: cam_vsync_claim_def set_en_def set_len_def Let_def
        set_frame_def split: bind_splits if_splits)
  from assms(1) have "y \<noteq> ct_frame_pos w \<Longrightarrow> frames (cam w') ! y = frames (cam w) ! y" for y
    by (auto simp: cam_task_vsync_def Let_def split: bind_splits if_splits dest!: t [where y = y] c [where y = y])
  with assms(2) show ?thesis unfolding keeps_held_def by metis
qed

lemma dispatch_keeps:
  assumes "winv ll w PC_wait H" and "cam_task_dispatch ll ev w = Some (w', pc)"
  shows "keeps_held S w w'"
  using assms idle_keeps [of ll ev w w' pc S] eof_keeps [of ll w w' pc S] vsync_keeps [of ll w w' pc S]
  by (auto simp: cam_task_dispatch_def winv_wait reading_ok_def split: cam_state_t.splits cam_event_t.splits)

lemma frag_keeps:
  assumes i: "winv ll w pc H" and f: "cam_task_frag ll pc w = Some (w', pc')"
  shows "keeps_held (task_owns pc w) w w'"
proof (cases pc)
  case PC_start
  with f obtain b w1 where b: "cam_start_frame ll w = Some (b, w1)" by (auto split: bind_splits)
  from PC_start f b have "y \<noteq> ct_frame_pos w1 \<or> \<not> b \<Longrightarrow> frames (cam w') ! y = frames (cam w1) ! y" for y
    by (auto simp: set_frame_def set_len_def split: bind_splits if_splits)
  with start_keeps [OF b] show ?thesis by (rule start_then_keeps)
next
  case (PC_give p)
  with i obtain y where "p = Some y" "length (frames (cam w)) = frame_cnt (cam w)"
    by (auto simp: winv_def core_def own_def)
  with PC_give f show ?thesis
    by (auto simp: set_frame_def keeps_held_def cam_give_eq set_en_def split: bind_splits if_splits)
next
  case PC_pop
  with f show ?thesis
    by (auto simp: set_frame_def keeps_held_def fbq_receive_def set_en_def
        split: bind_splits if_splits prod.splits)
next
  case (PC_push p)
  with f show ?thesis
    by (auto simp: set_frame_def keeps_held_def fbq_send_def set_en_def
        split: bind_splits if_splits prod.splits)
qed (use f in \<open>auto simp: keeps_held_def fbq_send_def split: bind_splits if_splits prod.splits\<close>)


subsection \<open>Runs from an initial state\<close>

text \<open>A system as \<open>cam_config\<close> and the first lines of \<open>cam_task\<close> leave it.\<close>

definition sys_init :: "'e ll_cam \<Rightarrow> 'e sys \<Rightarrow> bool" where
  "sys_init ll s \<longleftrightarrow> (let w = sys_w s; c = cam w in
     cfg_ok ll c \<and> bufs_ok c \<and> length (frames c) = frame_cnt c \<and> (\<forall>f \<in> set (frames c). en f) \<and>
     fbq_ok c \<and> evq_ok c \<and> fbq_items c = [] \<and> cam_state c = CAM_STATE_IDLE \<and>
     sys_pc s = PC_wait \<and> held s = {} \<and> ct_frame_pos w = 0 \<and> ct_cnt w = 0)"

lemma sys_init_inv:
  assumes "sys_init ll s"
  shows "sys_inv ll s"
proof -
  have "own (cam (sys_w s)) {} {}" using assms by (auto simp: sys_init_def Let_def own_def)
  moreover have "0 < frame_cnt (cam (sys_w s))" using assms by (auto simp: sys_init_def Let_def cfg_ok_def)
  ultimately show ?thesis using assms
    by (auto simp: sys_init_def Let_def sys_inv_def winv_wait reading_ok_def core_def)
qed

lemma reach_inv: "sys_init ll s0 \<Longrightarrow> cam_steps ll s0 s \<Longrightarrow> winv ll (sys_w s) (sys_pc s) (held s)"
  using cam_steps_inv sys_init_inv unfolding sys_inv_def by blast

lemma reach_core: "sys_init ll s0 \<Longrightarrow> cam_steps ll s0 s \<Longrightarrow>
    core ll (sys_w s) (held s) (task_owns (sys_pc s) (sys_w s))"
  using reach_inv unfolding winv_def by blast

fun pc_rank :: "cam_pc \<Rightarrow> nat" where
  "pc_rank PC_wait = 0" | "pc_rank PC_start = 1" | "pc_rank (PC_give p) = 2"
| "pc_rank (PC_push p) = 3" | "pc_rank PC_pop = 4" | "pc_rank PC_send = 5"

lemma frag_rank: "cam_task_frag ll pc w = Some (w', pc') \<Longrightarrow> pc \<noteq> PC_wait \<Longrightarrow> pc_rank pc' < pc_rank pc"
  by (cases pc) (auto split: bind_splits if_splits)

lemma run_total:
  assumes "winv ll w pc H"
  shows "\<exists>w'. cam_task_run ll pc w = Some w' \<and> winv ll w' PC_wait H"
  using assms
proof (induction "pc_rank pc" arbitrary: pc w rule: less_induct)
  case less
  show ?case
  proof (cases "pc = PC_wait")
    case True
    with less.prems show ?thesis by (subst cam_task_run.simps) simp
  next
    case False
    from frag_ok [OF less.prems] obtain w1 pc1 where
      f: "cam_task_frag ll pc w = Some (w1, pc1)" "winv ll w1 pc1 H" by blast
    from less.hyps [OF frag_rank [OF f(1) False] f(2)] f(1) False show ?thesis
      by (subst cam_task_run.simps) simp
  qed
qed

lemma event_total:
  assumes "winv ll w PC_wait H"
  shows "\<exists>w'. cam_task_event ll ev w = Some w' \<and> winv ll w' PC_wait H"
  using dispatch_ok [OF assms, of ev] run_total by (fastforce simp: cam_task_event_def)

lemma take_frame_nth:
  assumes "cam_take_frame ll x w = Some r" and "y \<noteq> x" and "length (frames (cam w)) = frame_cnt (cam w)"
  shows "frames (cam (case r of Inl w' \<Rightarrow> w' | Inr w' \<Rightarrow> w')) ! y = frames (cam w) ! y"
  using assms by (auto simp: cam_take_frame_def cam_give_eq set_en_def set_len_def set_frame_def Let_def
      split: bind_splits if_splits)

lemma held_untouched:
  assumes "cam_step ll s s'" and "sys_inv ll s" and "x \<in> held s" and "x \<in> held s'"
  shows "frames (cam (sys_w s')) ! x = frames (cam (sys_w s)) ! x"
proof -
  have i: "winv ll (sys_w s) (sys_pc s) (held s)" using assms(2) by (simp add: sys_inv_def)
  then have core: "core ll (sys_w s) (held s) (task_owns (sys_pc s) (sys_w s))" by (simp add: winv_def)
  then have x: "\<not> en (frames (cam (sys_w s)) ! x)" "x \<notin> task_owns (sys_pc s) (sys_w s)"
    "Some x \<notin> set (fbq_items (cam (sys_w s)))"
    and len: "length (frames (cam (sys_w s))) = frame_cnt (cam (sys_w s))"
    using assms(3) by (auto simp: core_def own_def)
  have q: "y \<noteq> x \<and> frames c = frames (cam (sys_w s)) \<and> frame_cnt c = frame_cnt (cam (sys_w s))"
    if "fbq_receive (cam (sys_w s)) = Some ((True, Some y), c)" for y c
    using core_fbq_ok [OF core] that x(3) by (cases rule: fbq_receive_cases) auto
  from assms(1) show ?thesis
  proof cases
    case (isr ev w)
    then show ?thesis by (auto simp: ll_cam_send_event_def Let_def split: bind_splits if_splits)
  next
    case (event q ev0 ev q' w pc)
    with i have "winv ll (upd_cam (event_queue_update (\<lambda>_. Some q')) (sys_w s)) PC_wait (held s)"
      using recv_event_ok by fastforce
    from dispatch_keeps [OF this event(5)] x event(1) show ?thesis by (simp add: keeps_held_def)
  next
    case (frag w pc)
    with frag_keeps [OF i frag(3)] x show ?thesis by (simp add: keeps_held_def)
  next
    case (take y c w)
    with take_frame_nth [OF take(3), of x] q [OF take(2)] len show ?thesis by simp
  next
    case (discard y c w)
    with take_frame_nth [OF discard(3), of x] q [OF discard(2)] len show ?thesis by simp
  next
    case (give y c)
    with assms(4) len show ?thesis
      by (auto simp: cam_give_eq set_en_def set_frame_def split: if_splits)
  qed simp_all
qed


subsection \<open>Executing a schedule\<close>

text \<open>An action names a step; \<open>sys_exec\<close> runs the steps of a schedule, so that runs can be computed.\<close>

datatype action = A_isr cam_event_t | A_dma "u8 list" | A_event | A_frag | A_take | A_give nat

fun sys_act :: "'e ll_cam \<Rightarrow> action \<Rightarrow> 'e sys \<Rightarrow> 'e sys option" where
  "sys_act ll (A_isr ev) s = map_option (\<lambda>w. s\<lparr>sys_w := w\<rparr>) (ll_cam_send_event ll ev (sys_w s))"
| "sys_act ll (A_dma d') s = do {
     (a, d) \<leftarrow> dma_buffer (cam (sys_w s));
     if length d' = length d
     then Some (s\<lparr>sys_w := upd_cam (dma_buffer_update (\<lambda>_. Some (a, d'))) (sys_w s)\<rparr>) else None }"
| "sys_act ll A_event s =
     (if sys_pc s = PC_wait then do {
        q \<leftarrow> event_queue (cam (sys_w s));
        (case xQueueReceiveFromISR CAM_VSYNC_EVENT q of ((b, ev), q') \<Rightarrow>
           if b then do {
             (w, pc) \<leftarrow> cam_task_dispatch ll ev (upd_cam (event_queue_update (\<lambda>_. Some q')) (sys_w s));
             Some (s\<lparr>sys_w := w, sys_pc := pc\<rparr>) }
           else None) }
      else None)"
| "sys_act ll A_frag s =
     (if sys_pc s \<noteq> PC_wait then do {
        (w, pc) \<leftarrow> cam_task_frag ll (sys_pc s) (sys_w s);
        Some (s\<lparr>sys_w := w, sys_pc := pc\<rparr>) }
      else None)"
| "sys_act ll A_take s = do {
     ((b, p), c) \<leftarrow> fbq_receive (cam (sys_w s));
     (case (b, p) of
        (True, Some x) \<Rightarrow> do {
          r \<leftarrow> cam_take_frame ll x ((sys_w s)\<lparr>cam := c\<rparr>);
          Some (case r of Inr w \<Rightarrow> s\<lparr>sys_w := w, held := insert x (held s)\<rparr>
                        | Inl w \<Rightarrow> s\<lparr>sys_w := w\<rparr>) }
      | _ \<Rightarrow> None) }"
| "sys_act ll (A_give x) s =
     (if x \<in> held s then map_option (\<lambda>c. s\<lparr>sys_w := (sys_w s)\<lparr>cam := c\<rparr>, held := held s - {x}\<rparr>)
        (cam_give (Some x) (cam (sys_w s)))
      else None)"

fun sys_exec :: "'e ll_cam \<Rightarrow> action list \<Rightarrow> 'e sys \<Rightarrow> 'e sys option" where
  "sys_exec ll [] s = Some s"
| "sys_exec ll (a # as) s = do { s1 \<leftarrow> sys_act ll a s; sys_exec ll as s1 }"

lemma sys_act_step: "sys_act ll a s = Some s' \<Longrightarrow> cam_step ll s s'"
  by (cases a)
    (auto split: bind_splits if_splits prod.splits option.splits sum.splits bool.splits intro: cam_step.intros)

lemma sys_exec_steps: "sys_exec ll as s = Some s' \<Longrightarrow> cam_steps ll s s'"
  by (induction "as" arbitrary: s)
    (auto split: bind_splits dest!: sys_act_step intro: converse_rtranclp_into_rtranclp)

text \<open>A small configuration: two frame buffers of 16 bytes, a DMA buffer of two halves of 4 bytes.\<close>

definition fresh_queue :: "nat \<Rightarrow> 'a \<Rightarrow> 'a Queue_t" where
  "fresh_queue n x = \<lparr>pcHead = 0, pcWriteTo = 0, pcTail = int (n * 4), pcReadFrom = int ((n - 1) * 4),
     q_storage = (\<lambda>_. x), xTasksWaitingToSend = [], xTasksWaitingToReceive = [],
     uxMessagesWaiting = 0, uxLength = n, uxItemSize = 4\<rparr>"

definition demo_frame :: cam_frame_t where
  "demo_frame = \<lparr>fb = \<lparr>fb_buf = 0, fb_mem = replicate 16 0, fb_len = 0, fb_width = 0, fb_height = 0,
     fb_format = PIXFORMAT_JPEG, fb_tv_sec = 0, fb_tv_usec = 0\<rparr>, fr_dma = None, fb_offset = 0, en = True\<rparr>"

definition demo_cam :: "bool \<Rightarrow> cam_obj_t" where
  "demo_cam jpeg = \<lparr>dma_bytes_per_item = 1, dma_buffer_size = 8, dma_half_buffer_size = 4,
     dma_half_buffer_cnt = 2, dma_node_buffer_size = 4, dma_node_cnt = 2, frame_copy_cnt = 4,
     recv_size = 16, fb_size = 16, cam_width = 4, cam_height = 4, in_bytes_per_pixel = 1,
     fb_bytes_per_pixel = 1, frame_cnt = 2, jpeg_mode = jpeg, psram_mode = False, swap_data = False,
     vsync_pin = 25, vsync_invert = True, frames = [demo_frame, demo_frame], frames_ptr = Some 0,
     dma_buffer = Some (0, replicate 8 0), obj_dma = None,
     event_queue = Some (fresh_queue 2 CAM_VSYNC_EVENT),
     frame_buffer_queue = Some (fresh_queue 2 None), task_handle = True, cam_state = CAM_STATE_IDLE\<rparr>"

definition demo_ll :: "unit ll_cam" where
  "demo_ll = \<lparr>ll_cam_start = (\<lambda>_ h. (True, h)), ll_cam_stop = (\<lambda>h. h), ll_cam_do_vsync = (\<lambda>h. h),
     ll_cam_vsync_intr_enable = (\<lambda>_ h. h), ll_cam_memcpy = (\<lambda>bs. bs), esp_timer_get_time = (\<lambda>_. 1000),
     ll_cam_dma_reset = None\<rparr>"

definition demo_sys :: "bool \<Rightarrow> unit sys" where
  "demo_sys jpeg = \<lparr>sys_w = \<lparr>cam = demo_cam jpeg, cw_hw = (), ct_cnt = 0, ct_frame_pos = 0\<rparr>,
     sys_pc = PC_wait, held = {}\<rparr>"

text \<open>One JPEG image of two half buffers, taken by the application.\<close>

definition demo_schedule :: "action list" where
  "demo_schedule = [A_isr CAM_VSYNC_EVENT, A_event,
     A_dma [0xFF, 0xD8, 0xFF, 0xE0, 0, 0, 0, 0], A_isr CAM_IN_SUC_EOF_EVENT, A_event,
     A_dma [0xFF, 0xD8, 0xFF, 0xE0, 0x12, 0xFF, 0xD9, 0], A_isr CAM_VSYNC_EVENT, A_event,
     A_frag, A_take, A_frag]"

lemma fresh_queue_ok: "0 < n \<Longrightarrow> q_ok (fresh_queue n x)" "q_items (fresh_queue n x) = []"
proof -
  have "0 < n \<Longrightarrow> ring (fresh_queue n x) (n - 1)"
    by (simp add: ring_def fresh_queue_def slot_addr_def)
  then show "0 < n \<Longrightarrow> q_ok (fresh_queue n x)" by (rule ring_ok)
  show "q_items (fresh_queue n x) = []" by (simp add: q_items_def q_slots_def fresh_queue_def)
qed

lemma demo_init: "sys_init demo_ll (demo_sys jpeg)"
proof -
  have "pixels_per_dma (demo_cam jpeg) = Some 4" by (simp add: pixels_per_dma_def demo_cam_def sz_def)
  then have "cfg_ok demo_ll (demo_cam jpeg)" by (simp add: cfg_ok_def) (simp add: demo_cam_def demo_ll_def)
  moreover have "bufs_ok (demo_cam jpeg)" by (simp add: bufs_ok_def demo_cam_def demo_frame_def)
  moreover have "fbq_ok (demo_cam jpeg)" "evq_ok (demo_cam jpeg)" "fbq_items (demo_cam jpeg) = []"
    by (simp_all add: fbq_ok_def evq_ok_def fbq_items_def demo_cam_def fresh_queue_ok)
  ultimately show ?thesis
    by (simp add: sys_init_def demo_sys_def) (simp add: demo_cam_def demo_frame_def)
qed


lemma eoi_from_numeral: "eoi_from m (numeral k) = do {
     bs \<leftarrow> mem_read m (numeral k) 2;
     if bs = JPEG_EOI_MARKER then Some (numeral k) else eoi_from m (pred_numeral k) }"
proof -
  have k: "numeral k = Suc (pred_numeral k)" by (rule numeral_eq_Suc)
  show ?thesis unfolding k eoi_from.simps by (simp only: k [symmetric] of_nat_numeral)
qed

lemmas demo_eval = eoi_from_numeral demo_ll_def demo_sys_def demo_cam_def demo_frame_def fresh_queue_def
  ll_cam_send_event_def xQueueGenericSendFromISR_def xQueueReceiveFromISR_def prvCopyDataToQueue_def
  prvCopyDataFromQueue_def wake_receiver_def wake_sender_def Let_def ll_stop_def
  cam_task_dispatch_def cam_task_idle_def cam_start_frame_def cam_get_next_frame_def frame_at_def
  set_frame_def set_len_def set_en_def cam_task_eof_def pixels_per_dma_def sz_def copy_half_def
  mem_read_def mem_write_def cam_verify_jpeg_soi_def soi_from.simps JPEG_SOI_MARKER_def
  cam_task_vsync_def cam_vsync_tail_def cam_vsync_claim_def fbq_send_def fbq_receive_def
  cam_take_frame_def cam_verify_jpeg_eoi_def JPEG_EOI_MARKER_def cam_give_def upt_rec

lemma demo_run:
  "\<exists>s. sys_exec demo_ll demo_schedule (demo_sys True) = Some s \<and> 0 \<in> held s \<and>
     map (fb_len \<circ> fb) (frames (cam (sys_w s))) = [7, 0] \<and> frame_cnt (cam (sys_w s)) = 2 \<and>
     jpeg_mode (cam (sys_w s)) \<and> sys_pc s = PC_wait"
  by (simp add: demo_eval demo_schedule_def)

lemma demo_steps: "\<exists>s. cam_steps demo_ll (demo_sys True) s \<and> 0 \<in> held s \<and>
    frame_cnt (cam (sys_w s)) = 2 \<and> jpeg_mode (cam (sys_w s)) \<and> sys_pc s = PC_wait"
  using demo_run sys_exec_steps by blast

lemma demo_take: "\<exists>s s'. cam_steps demo_ll (demo_sys True) s \<and> cam_step demo_ll s s' \<and> 0 \<in> held s' \<and>
    0 \<notin> held s \<and> jpeg_mode (cam (sys_w s'))"
proof -
  have "\<exists>s s'. sys_exec demo_ll (take 9 demo_schedule) (demo_sys True) = Some s \<and>
      sys_act demo_ll A_take s = Some s' \<and> 0 \<in> held s' \<and> 0 \<notin> held s \<and> jpeg_mode (cam (sys_w s'))"
    by (simp add: demo_eval demo_schedule_def)
  then show ?thesis using sys_exec_steps sys_act_step by blast
qed

lemma demo_queued: "\<exists>s. cam_steps demo_ll (demo_sys True) s \<and> fbq_items (cam (sys_w s)) \<noteq> []"
proof -
  have "\<exists>s q. sys_exec demo_ll (take 9 demo_schedule) (demo_sys True) = Some s \<and>
      frame_buffer_queue (cam (sys_w s)) = Some q \<and> uxMessagesWaiting q = 1"
    by (simp add: demo_eval demo_schedule_def)
  then obtain s q where s: "sys_exec demo_ll (take 9 demo_schedule) (demo_sys True) = Some s"
    "frame_buffer_queue (cam (sys_w s)) = Some q" "length (q_items q) = 1" by auto
  have "q_items q \<noteq> []" using s(3) by (metis list.size(3) zero_neq_one)
  with sys_exec_steps [OF s(1)] s(2) show ?thesis by (intro exI [of _ s]) (simp add: fbq_items_def)
qed

subsection \<open>Properties\<close>

lemma frame_ownership_facts:
  assumes "sys_init ll s0" and "cam_steps ll s0 s"
  defines "w \<equiv> sys_w s" and "Q \<equiv> fbq_items (cam (sys_w s))" and "T \<equiv> task_owns (sys_pc s) (sys_w s)"
  shows "distinct Q"
    and "x < frame_cnt (cam w) \<Longrightarrow> \<not> en (frames (cam w) ! x) \<longleftrightarrow> Some x \<in> set Q \<or> x \<in> held s \<or> x \<in> T"
    and "\<not> (Some x \<in> set Q \<and> x \<in> held s) \<and> \<not> (Some x \<in> set Q \<and> x \<in> T) \<and> \<not> (x \<in> held s \<and> x \<in> T)"
    and "p \<in> set Q \<Longrightarrow> \<exists>y < frame_cnt (cam w). p = Some y"
    and "sys_pc s = PC_wait \<Longrightarrow> cam_state (cam w) = CAM_STATE_READ_BUF \<Longrightarrow>
      ct_frame_pos w < frame_cnt (cam w) \<and> Some (ct_frame_pos w) \<notin> set Q \<and> ct_frame_pos w \<notin> held s"
proof -
  have own: "own (cam w) (held s) T" and pos: "ct_frame_pos w < frame_cnt (cam w)"
    using reach_core [OF assms(1,2)] by (simp_all add: core_def w_def T_def)
  show "distinct Q" using own by (simp add: own_def Q_def w_def)
  show x: "\<not> en (frames (cam w) ! x) \<longleftrightarrow> Some x \<in> set Q \<or> x \<in> held s \<or> x \<in> T" if "x < frame_cnt (cam w)" for x
    using own that by (simp add: own_def Q_def w_def)
  show "\<not> (Some x \<in> set Q \<and> x \<in> held s) \<and> \<not> (Some x \<in> set Q \<and> x \<in> T) \<and> \<not> (x \<in> held s \<and> x \<in> T)"
    using own by (auto simp: own_def Q_def w_def)
  show "\<exists>y < frame_cnt (cam w). p = Some y" if "p \<in> set Q"
    using own that by (auto simp: own_def Q_def w_def)
  show "ct_frame_pos w < frame_cnt (cam w) \<and> Some (ct_frame_pos w) \<notin> set Q \<and> ct_frame_pos w \<notin> held s"
    if "sys_pc s = PC_wait" "cam_state (cam w) = CAM_STATE_READ_BUF"
    using that x [OF pos] pos reach_inv [OF assms(1,2)] by (auto simp: winv_def reading_ok_def w_def)
qed

text \<open>
  C1. Ownership of the frame buffers: in every state the system can reach, whatever the interleaving of
  interrupts, DMA, capture task and application, a buffer's \<open>en\<close> flag is clear exactly when the buffer
  is queued for the application, held by it, or in the hands of the capture task; it is in only one
  of these places, and at most once in the queue. So no buffer is lost and none has two owners. The
  buffer a capture writes to is neither queued nor held.
\<close>

theorem cam_frame_ownership:
  assumes "sys_init ll s0" and "cam_steps ll s0 s"
  shows "let w = sys_w s; Q = fbq_items (cam w); T = task_owns (sys_pc s) w in
    distinct Q \<and> set Q \<subseteq> Some ` {..< frame_cnt (cam w)} \<and>
    (\<forall>x < frame_cnt (cam w). \<not> en (frames (cam w) ! x) \<longleftrightarrow> Some x \<in> set Q \<or> x \<in> held s \<or> x \<in> T) \<and>
    (\<forall>x. \<not> (Some x \<in> set Q \<and> x \<in> held s) \<and> \<not> (Some x \<in> set Q \<and> x \<in> T) \<and> \<not> (x \<in> held s \<and> x \<in> T)) \<and>
    (sys_pc s = PC_wait \<and> cam_state (cam w) = CAM_STATE_READ_BUF \<longrightarrow>
      ct_frame_pos w < frame_cnt (cam w) \<and> Some (ct_frame_pos w) \<notin> set Q \<and> ct_frame_pos w \<notin> held s)"
  unfolding Let_def using frame_ownership_facts [OF assms] by (intro conjI allI impI subsetI) blast+

theorem cam_frame_ownership_witness:
  "\<exists>s. cam_steps demo_ll (demo_sys True) s \<and> 0 \<in> held s \<and> \<not> en (frames (cam (sys_w s)) ! 0) \<and>
     Some 0 \<notin> set (fbq_items (cam (sys_w s)))"
proof -
  from demo_steps obtain s where s: "cam_steps demo_ll (demo_sys True) s" "0 \<in> held s"
    "frame_cnt (cam (sys_w s)) = 2" by blast
  with cam_frame_ownership [OF demo_init s(1)] have "\<not> en (frames (cam (sys_w s)) ! 0)"
    "Some 0 \<notin> set (fbq_items (cam (sys_w s)))" unfolding Let_def by (simp_all, blast)
  with s(1,2) show ?thesis by blast
qed

text \<open>
  C10. The driver leaves the application's buffers alone: no step of the system changes a frame (its
  bytes, its length, its time stamp, its flag) that the application holds before and after the step.
\<close>

theorem cam_held_frames_untouched:
  assumes "sys_init ll s0" and "cam_steps ll s0 s" and "cam_step ll s s'"
    and "x \<in> held s" and "x \<in> held s'"
  shows "frames (cam (sys_w s')) ! x = frames (cam (sys_w s)) ! x"
  using held_untouched [OF assms(3)] cam_steps_inv [OF assms(2) sys_init_inv [OF assms(1)]] assms(4,5) by blast

theorem cam_held_frames_untouched_witness:
  "\<exists>s s'. cam_steps demo_ll (demo_sys True) s \<and> cam_step demo_ll s s' \<and> 0 \<in> held s \<and> 0 \<in> held s' \<and>
     frames (cam (sys_w s')) ! 0 = frames (cam (sys_w s)) ! 0"
proof -
  from demo_steps obtain s where s: "cam_steps demo_ll (demo_sys True) s" "0 \<in> held s" by blast
  from send_event_ok [OF reach_inv [OF demo_init s(1)], of CAM_VSYNC_EVENT] obtain w where
    "ll_cam_send_event demo_ll CAM_VSYNC_EVENT (sys_w s) = Some w" by blast
  then have "cam_step demo_ll s (s\<lparr>sys_w := w\<rparr>)" by (rule cam_step.isr)
  with s cam_held_frames_untouched [OF demo_init s(1) this, of 0] show ?thesis
    by (intro exI [of _ s] exI [of _ "s\<lparr>sys_w := w\<rparr>"]) simp
qed

lemma no_undefined_behaviour_facts:
  assumes "sys_init ll s0" and "cam_steps ll s0 s"
  shows "ll_cam_send_event ll ev (sys_w s) \<noteq> None"
    and "sys_pc s = PC_wait \<Longrightarrow> cam_task_dispatch ll ev (sys_w s) \<noteq> None"
    and "cam_task_frag ll (sys_pc s) (sys_w s) \<noteq> None"
    and "fbq_receive (cam (sys_w s)) = Some ((True, Some x), c) \<Longrightarrow>
      cam_take_frame ll x ((sys_w s)\<lparr>cam := c\<rparr>) \<noteq> None"
    and "fbq_receive (cam (sys_w s)) \<noteq> None"
    and "x \<in> held s \<Longrightarrow> cam_give (Some x) (cam (sys_w s)) \<noteq> None"
proof -
  note i = reach_inv [OF assms]
  show "ll_cam_send_event ll ev (sys_w s) \<noteq> None" using send_event_ok [OF i, of ev] by auto
  show "cam_task_dispatch ll ev (sys_w s) \<noteq> None" if "sys_pc s = PC_wait"
    using dispatch_ok [of ll "sys_w s" "held s" ev] i that by auto
  show "cam_task_frag ll (sys_pc s) (sys_w s) \<noteq> None" using frag_ok [OF i] by auto
  show "cam_take_frame ll x ((sys_w s)\<lparr>cam := c\<rparr>) \<noteq> None"
    if "fbq_receive (cam (sys_w s)) = Some ((True, Some x), c)" using take_ok [OF i that] by auto
  from reach_core [OF assms] show "fbq_receive (cam (sys_w s)) \<noteq> None"
    by (rule core_fbq_ok [THEN fbq_receive_cases]) auto
  show "cam_give (Some x) (cam (sys_w s)) \<noteq> None" if "x \<in> held s" using give_ok [OF i that] by auto
qed

text \<open>
  C11. No undefined behaviour: in every reachable state, each operation that can run next returns
  normally: an interrupt can post any event, the waiting task can handle any event, the task can
  run its next fragment, a queued frame can be taken and examined, a held frame can be given back.
  None of them accesses an array or a buffer outside its bounds, divides by zero or fails an assertion
  of the kernel.
\<close>

theorem cam_no_undefined_behaviour:
  assumes "sys_init ll s0" and "cam_steps ll s0 s"
  shows "(\<forall>ev. ll_cam_send_event ll ev (sys_w s) \<noteq> None) \<and>
    (sys_pc s = PC_wait \<longrightarrow> (\<forall>ev. cam_task_dispatch ll ev (sys_w s) \<noteq> None)) \<and>
    cam_task_frag ll (sys_pc s) (sys_w s) \<noteq> None \<and>
    fbq_receive (cam (sys_w s)) \<noteq> None \<and>
    (\<forall>x c. fbq_receive (cam (sys_w s)) = Some ((True, Some x), c) \<longrightarrow>
      cam_take_frame ll x ((sys_w s)\<lparr>cam := c\<rparr>) \<noteq> None) \<and>
    (\<forall>x \<in> held s. cam_give (Some x) (cam (sys_w s)) \<noteq> None)"
  using no_undefined_behaviour_facts [OF assms] by blast

theorem cam_no_undefined_behaviour_witness:
  "\<exists>s. cam_steps demo_ll (demo_sys True) s \<and> sys_pc s = PC_wait \<and>
     cam_task_dispatch demo_ll CAM_VSYNC_EVENT (sys_w s) \<noteq> None \<and>
     cam_give (Some 0) (cam (sys_w s)) \<noteq> None"
proof -
  from demo_steps obtain s where s: "cam_steps demo_ll (demo_sys True) s" "0 \<in> held s" "sys_pc s = PC_wait"
    by blast
  with cam_no_undefined_behaviour [OF demo_init s(1)] show ?thesis by metis
qed

lemma delivered_frames_facts:
  assumes "sys_init ll s0" and "cam_steps ll s0 s" and "cam_step ll s s'" and "x \<in> held s'" and "x \<notin> held s"
  defines "f \<equiv> fb (frames (cam (sys_w s')) ! x)"
  shows "fb_len f \<le> length (fb_mem f)"
    and "jpeg_mode (cam (sys_w s')) \<Longrightarrow> take 3 (fb_mem f) = [0xFF, 0xD8, 0xFF] \<and> 3 \<le> fb_len f \<and>
      take 2 (drop (fb_len f - 2) (fb_mem f)) = [0xFF, 0xD9]"
proof -
  note i = reach_inv [OF assms(1,2)]
  have "frame_good (cam (sys_w s')) (frames (cam (sys_w s')) ! x)"
    using assms(3)
  proof cases
    case (take y c w)
    with assms(4,5) have "y = x" by auto
    with take take_ok [OF i, of x c] show ?thesis by auto
  qed (use assms(4,5) in auto)
  then show "fb_len f \<le> length (fb_mem f)"
    and "jpeg_mode (cam (sys_w s')) \<Longrightarrow> take 3 (fb_mem f) = [0xFF, 0xD8, 0xFF] \<and> 3 \<le> fb_len f \<and>
      take 2 (drop (fb_len f - 2) (fb_mem f)) = [0xFF, 0xD9]"
    unfolding frame_good_def f_def at_def marker_length unfolding JPEG_SOI_MARKER_def JPEG_EOI_MARKER_def
    by auto
qed

text \<open>
  C7. What the application gets, outside PSRAM mode (always so on the ESP32): a frame that enters the application's hands fits its buffer, and in
  JPEG mode it starts with the start marker \<open>FF D8 FF\<close> and its length ends with the end marker
  \<open>FF D9\<close>, although the start marker is only looked for in the first half buffer and the end
  marker only when the frame is taken. (In PSRAM mode, which \<open>sys_init\<close> excludes, a JPEG frame is
  queued at the vertical sync without any look at its start.)
\<close>

theorem cam_delivered_frames:
  assumes "sys_init ll s0" and "cam_steps ll s0 s" and "cam_step ll s s'" and "x \<in> held s'" and "x \<notin> held s"
  shows "let f = fb (frames (cam (sys_w s')) ! x) in
    fb_len f \<le> length (fb_mem f) \<and>
    (jpeg_mode (cam (sys_w s')) \<longrightarrow> take 3 (fb_mem f) = [0xFF, 0xD8, 0xFF] \<and> 3 \<le> fb_len f \<and>
      take 2 (drop (fb_len f - 2) (fb_mem f)) = [0xFF, 0xD9])"
  unfolding Let_def using delivered_frames_facts [OF assms] by blast

theorem cam_delivered_frames_witness:
  "\<exists>s s'. cam_steps demo_ll (demo_sys True) s \<and> cam_step demo_ll s s' \<and> 0 \<in> held s' - held s \<and>
     take 3 (fb_mem (fb (frames (cam (sys_w s')) ! 0))) = [0xFF, 0xD8, 0xFF]"
proof -
  from demo_take obtain s s' where s: "cam_steps demo_ll (demo_sys True) s" "cam_step demo_ll s s'"
    "0 \<in> held s'" "0 \<notin> held s" "jpeg_mode (cam (sys_w s'))" by blast
  with cam_delivered_frames [OF demo_init s(1-4)] show ?thesis by (auto simp: Let_def)
qed


text \<open>
  C19. Handling an event ends: in every reachable state in which the capture task waits, the body of its
  loop runs to its end for any event, through at most five calls on the frame queue, and leaves the
  task waiting again with no buffer in its hands.
\<close>

theorem cam_task_event_terminates:
  assumes "sys_init ll s0" and "cam_steps ll s0 s" and "sys_pc s = PC_wait"
  shows "\<exists>w. cam_task_event ll ev (sys_w s) = Some w \<and> own (cam w) (held s) {}"
  using event_total [of ll "sys_w s" "held s" ev] reach_inv [OF assms(1,2)] assms(3)
  by (auto simp: winv_def core_def)

theorem cam_task_event_terminates_witness:
  "\<exists>w. cam_task_event demo_ll CAM_VSYNC_EVENT (sys_w (demo_sys False)) = Some w \<and> own (cam w) {} {}"
  using cam_task_event_terminates [OF demo_init, of False "demo_sys False" CAM_VSYNC_EVENT]
  by (simp add: demo_sys_def)

text \<open>
  C31. \<open>cam_give_all\<close> (\<open>esp_camera_return_all\<close>) breaks the ownership discipline: when frames are
  still queued for the application, it marks them free although they stay in the queue, so the
  capture task will fill a buffer that the application is about to be given.
\<close>

theorem cam_give_all_breaks_ownership:
  assumes "own c H T" and "fbq_items c \<noteq> []"
  shows "\<exists>c' x. cam_give_all c = Some c' \<and> Some x \<in> set (fbq_items c') \<and> x < frame_cnt c' \<and>
    en (frames c' ! x) \<and> (\<forall>H' T'. \<not> own c' H' T')"
proof -
  have g: "\<exists>c'. give_from xs c = Some c' \<and> fbq_items c' = fbq_items c \<and> frame_cnt c' = frame_cnt c \<and>
      length (frames c') = length (frames c) \<and>
      (\<forall>y < length (frames c). en (frames c' ! y) = (y \<in> set xs \<or> en (frames c ! y)))"
    if "\<forall>y \<in> set xs. y < length (frames c)" for xs c
    using that
  proof (induction xs arbitrary: c)
    case (Cons y ys)
    let ?c = "c\<lparr>frames := (frames c)[y := (frames c ! y)\<lparr>en := True\<rparr>]\<rparr>"
    from Cons.IH [of ?c] Cons.prems obtain c' where "give_from ys ?c = Some c'" "fbq_items c' = fbq_items c"
      "frame_cnt c' = frame_cnt c" "length (frames c') = length (frames c)"
      "\<forall>z < length (frames c). en (frames c' ! z) = (z \<in> set ys \<or> en (frames ?c ! z))" by auto
    with Cons.prems show ?case by (auto simp: nth_list_update)
  qed simp
  have len: "length (frames c) = frame_cnt c" using assms(1) by (simp add: own_def)
  from g [of "[0..<frame_cnt c]" c] len obtain c' where c': "cam_give_all c = Some c'"
    "fbq_items c' = fbq_items c" "frame_cnt c' = frame_cnt c" "\<forall>y < frame_cnt c. en (frames c' ! y)"
    by (auto simp: cam_give_all_def)
  obtain x where x: "Some x \<in> set (fbq_items c)" "x < frame_cnt c"
    using assms by (cases "fbq_items c") (auto simp: own_def)
  have "\<not> own c' H' T'" for H' T' using c' x by (auto simp: own_def)
  with c' x show ?thesis by metis
qed

theorem cam_give_all_breaks_ownership_witness:
  "\<exists>s c' x. cam_steps demo_ll (demo_sys True) s \<and> cam_give_all (cam (sys_w s)) = Some c' \<and>
     Some x \<in> set (fbq_items c') \<and> en (frames c' ! x)"
proof -
  from demo_queued obtain s where s: "cam_steps demo_ll (demo_sys True) s" "fbq_items (cam (sys_w s)) \<noteq> []"
    by blast
  have "own (cam (sys_w s)) (held s) (task_owns (sys_pc s) (sys_w s))"
    using reach_core [OF demo_init s(1)] by (simp add: core_def)
  from cam_give_all_breaks_ownership [OF this s(2)] s(1) show ?thesis by blast
qed

end
