(* ===== verification/CamRun.thy ===== *)
theory CamRun
  imports CamSys
begin

text \<open>
  Whole operations of the capture of \<open>driver/cam_hal.c\<close>: what the capture of a raw image puts into
  the frame buffer, and that \<open>cam_take\<close>, which calls itself whenever a JPEG image has no end
  marker, returns.
\<close>

subsection \<open>Capturing a raw image\<close>

text \<open>The DMA writes the half buffer that the task will read next; \<open>capture\<close> is a sequence of half
  buffers, each followed by its event.\<close>

definition dma_fill :: "u8 list \<Rightarrow> 'e cam_world \<Rightarrow> 'e cam_world" where
  "dma_fill d w =
     (let p = nat (ct_cnt w) mod dma_half_buffer_cnt (cam w) * dma_half_buffer_size (cam w)
      in upd_cam (dma_buffer_update (map_option (\<lambda>(a, m). (a, take p m @ d @ drop (p + length d) m)))) w)"

fun capture :: "'e ll_cam \<Rightarrow> u8 list list \<Rightarrow> 'e cam_world \<Rightarrow> 'e cam_world option" where
  "capture ll [] w = Some w"
| "capture ll (d # ds) w = do {
     w1 \<leftarrow> cam_task_event ll CAM_IN_SUC_EOF_EVENT (dma_fill d w);
     capture ll ds w1 }"


lemma dma_fill_simps [simp]:
  "frames (cam (dma_fill d w)) = frames (cam w)" "cam_state (cam (dma_fill d w)) = cam_state (cam w)"
  "jpeg_mode (cam (dma_fill d w)) = jpeg_mode (cam w)" "fb_size (cam (dma_fill d w)) = fb_size (cam w)"
  "ct_frame_pos (dma_fill d w) = ct_frame_pos w" "ct_cnt (dma_fill d w) = ct_cnt w"
  "fbq_items (cam (dma_fill d w)) = fbq_items (cam w)"
  "frame_buffer_queue (cam (dma_fill d w)) = frame_buffer_queue (cam w)"
  "pixels_per_dma (cam (dma_fill d w)) = pixels_per_dma (cam w)"
  "dma_half_buffer_size (cam (dma_fill d w)) = dma_half_buffer_size (cam w)"
  "dma_half_buffer_cnt (cam (dma_fill d w)) = dma_half_buffer_cnt (cam w)"
  by (simp_all add: dma_fill_def Let_def fbq_items_def pixels_per_dma_def)

lemma dma_fill_ok:
  assumes i: "winv ll w PC_wait H" and d: "length d = dma_half_buffer_size (cam w)"
  shows "winv ll (dma_fill d w) PC_wait H"
    and "\<exists>a m. dma_buffer (cam (dma_fill d w)) = Some (a, m) \<and>
      mem_read m (nat (ct_cnt w) mod dma_half_buffer_cnt (cam w) * dma_half_buffer_size (cam w))
        (dma_half_buffer_size (cam w)) = Some d"
proof -
  let ?p = "nat (ct_cnt w) mod dma_half_buffer_cnt (cam w) * dma_half_buffer_size (cam w)"
  from i obtain a m where m: "dma_buffer (cam w) = Some (a, m)"
    "length m = dma_half_buffer_cnt (cam w) * dma_half_buffer_size (cam w)" "0 < dma_half_buffer_cnt (cam w)"
    by (auto simp: winv_wait core_def cfg_ok_def)
  note r = half_in_range [OF m(3), of "nat (ct_cnt w)" "dma_half_buffer_size (cam w)"]
  let ?m = "take ?p m @ d @ drop (?p + length d) m"
  have eq: "dma_fill d w = w\<lparr>cam := (cam w)\<lparr>dma_buffer := Some (a, ?m)\<rparr>\<rparr>"
    using m(1) by (simp add: dma_fill_def Let_def)
  have len: "length ?m = length m" using r m(2) d by simp
  from winv_dma [OF i m(1) len] show "winv ll (dma_fill d w) PC_wait H" by (simp only: eq)
  show "\<exists>a m. dma_buffer (cam (dma_fill d w)) = Some (a, m) \<and>
      mem_read m ?p (dma_half_buffer_size (cam w)) = Some d"
    using r m(2) d len by (simp add: eq min_def)
qed

lemma eof_exact:
  assumes i: "winv ll w PC_wait H" and st: "cam_state (cam w) = CAM_STATE_READ_BUF"
    and raw: "\<not> jpeg_mode (cam w)" and f: "f = frames (cam w) ! ct_frame_pos w"
    and ppd: "pixels_per_dma (cam w) = Some ppd" and d: "length d = dma_half_buffer_size (cam w)"
    and out: "length (ll_cam_memcpy ll d) = ppd" and room: "fb_len (fb f) + ppd \<le> fb_size (cam w)"
  defines "f' \<equiv> fb_update (\<lambda>b. b\<lparr>fb_mem := take (fb_len (fb f)) (fb_mem (fb f)) @ ll_cam_memcpy ll d @
      drop (fb_len (fb f) + ppd) (fb_mem (fb f)), fb_len := fb_len (fb f) + ppd\<rparr>) f"
  shows "cam_task_event ll CAM_IN_SUC_EOF_EVENT (dma_fill d w) = Some ((dma_fill d w)\<lparr>
      cam := (cam (dma_fill d w))\<lparr>frames := (frames (cam w))[ct_frame_pos w := f']\<rparr>, ct_cnt := ct_cnt w + 1\<rparr>)"
proof -
  have c: "core ll w H {}" and ps: "\<not> psram_mode (cam (dma_fill d w))" and hc: "0 < dma_half_buffer_cnt (cam w)"
    using dma_fill_ok(1) [OF i d] i by (simp_all add: winv_wait core_def cfg_ok_def)
  note pl = core_frame_pos [OF c]
  have p: "ct_frame_pos w < frame_cnt (cam w)" using c by (simp add: core_def)
  have small: "fb_size (cam w) + ppd < 2 ^ 32"
    using c ppd cfg_ppd [of ll "cam w"] by (metis core_def option.inject)
  note b = core_bufs [OF c p, folded f]
  from dma_fill_ok(2) [OF i d] obtain a m where "dma_buffer (cam (dma_fill d w)) = Some (a, m)"
    "mem_read m (nat (ct_cnt w) mod dma_half_buffer_cnt (cam w) * dma_half_buffer_size (cam w))
        (dma_half_buffer_size (cam w)) = Some d" by blast
  with pl hc b room small out have "copy_half ll (dma_fill d w) =
      Some ((dma_fill d w)\<lparr>cam := (cam (dma_fill d w))\<lparr>frames := (frames (cam w))[ct_frame_pos w := f']\<rparr>\<rparr>)"
    by (simp add: copy_half_def Let_def f'_def sz_def f)
  with st raw ps pl ppd room small f show ?thesis
    by (simp add: cam_task_event_def cam_task_dispatch_def cam_task_eof_def Let_def sz_def
        cam_task_run.simps)
qed


lemma take_append_mid: "l \<le> length m \<Longrightarrow> take (l + length o1 + n) (take l m @ o1 @ r) = take l m @ o1 @ take n r"
  by simp

lemma capture_exact:
  assumes "winv ll w PC_wait H" and "cam_state (cam w) = CAM_STATE_READ_BUF" and "\<not> jpeg_mode (cam w)"
    and "pixels_per_dma (cam w) = Some ppd"
    and "\<forall>d \<in> set ds. length d = dma_half_buffer_size (cam w) \<and> length (ll_cam_memcpy ll d) = ppd"
    and "fb_len (fb (frames (cam w) ! ct_frame_pos w)) + length ds * ppd \<le> fb_size (cam w)"
  shows "\<exists>w'. capture ll ds w = Some w' \<and> winv ll w' PC_wait H \<and>
    cam_state (cam w') = CAM_STATE_READ_BUF \<and> \<not> jpeg_mode (cam w') \<and> fb_size (cam w') = fb_size (cam w) \<and>
    ct_frame_pos w' = ct_frame_pos w \<and> frame_buffer_queue (cam w') = frame_buffer_queue (cam w) \<and>
    (let b = fb (frames (cam w) ! ct_frame_pos w); b' = fb (frames (cam w') ! ct_frame_pos w)
     in fb_len b' = fb_len b + length ds * ppd \<and>
        take (fb_len b') (fb_mem b') = take (fb_len b) (fb_mem b) @ concat (map (ll_cam_memcpy ll) ds))"
  using assms
proof (induction ds arbitrary: w)
  case Nil
  then show ?case by simp
next
  case (Cons d ds)
  define f where "f = frames (cam w) ! ct_frame_pos w"
  let ?o = "ll_cam_memcpy ll d"
  let ?f' = "fb_update (\<lambda>b. b\<lparr>fb_mem := take (fb_len (fb f)) (fb_mem (fb f)) @ ?o @
      drop (fb_len (fb f) + ppd) (fb_mem (fb f)), fb_len := fb_len (fb f) + ppd\<rparr>) f"
  define w1 where "w1 = (dma_fill d w)\<lparr>
      cam := (cam (dma_fill d w))\<lparr>frames := (frames (cam w))[ct_frame_pos w := ?f']\<rparr>, ct_cnt := ct_cnt w + 1\<rparr>"
  have d: "length d = dma_half_buffer_size (cam w)" "length ?o = ppd"
    and rm: "fb_len (fb f) + ppd + length ds * ppd \<le> fb_size (cam w)"
    using Cons.prems(5,6) by (simp_all add: f_def)
  have ev: "cam_task_event ll CAM_IN_SUC_EOF_EVENT (dma_fill d w) = Some w1"
    unfolding w1_def by (rule eof_exact [OF Cons.prems(1-3) f_def Cons.prems(4) d]) (use rm in simp)
  have c: "core ll w H {}" using Cons.prems(1) by (simp add: winv_wait)
  note pl = core_frame_pos [OF c]
  have l: "fb_len (fb f) + ppd \<le> length (fb_mem (fb f))"
    using rm c core_bufs [OF c, of "ct_frame_pos w"] by (simp add: core_def f_def)
  from event_total [OF dma_fill_ok(1) [OF Cons.prems(1) d(1)], of CAM_IN_SUC_EOF_EVENT] ev
  have i1: "winv ll w1 PC_wait H" by simp
  have w1: "frames (cam w1) ! ct_frame_pos w1 = ?f'" "ct_frame_pos w1 = ct_frame_pos w"
    "pixels_per_dma (cam w1) = pixels_per_dma (cam w)"
    "dma_half_buffer_size (cam w1) = dma_half_buffer_size (cam w)"
    "cam_state (cam w1) = cam_state (cam w)" "jpeg_mode (cam w1) = jpeg_mode (cam w)"
    "fb_size (cam w1) = fb_size (cam w)" "frame_buffer_queue (cam w1) = frame_buffer_queue (cam w)"
    using pl by (simp_all add: w1_def pixels_per_dma_def dma_fill_def Let_def)
  from Cons.IH [OF i1] Cons.prems rm w1 obtain w' where w': "capture ll ds w1 = Some w'"
    "winv ll w' PC_wait H" "cam_state (cam w') = CAM_STATE_READ_BUF" "\<not> jpeg_mode (cam w')"
    "fb_size (cam w') = fb_size (cam w)" "ct_frame_pos w' = ct_frame_pos w"
    "frame_buffer_queue (cam w') = frame_buffer_queue (cam w)"
    "fb_len (fb (frames (cam w') ! ct_frame_pos w)) = fb_len (fb ?f') + length ds * ppd"
    "take (fb_len (fb (frames (cam w') ! ct_frame_pos w))) (fb_mem (fb (frames (cam w') ! ct_frame_pos w)))
       = take (fb_len (fb ?f')) (fb_mem (fb ?f')) @ concat (map (ll_cam_memcpy ll) ds)"
    by (auto simp: Let_def)
  have "take (fb_len (fb ?f')) (fb_mem (fb ?f')) = take (fb_len (fb f)) (fb_mem (fb f)) @ ?o"
    using l d(2) by simp
  with w' ev show ?case by (simp add: f_def Let_def)
qed

lemma start_fbq:
  "cam_task_frag ll PC_start w = Some (w', pc) \<Longrightarrow> frame_buffer_queue (cam w') = frame_buffer_queue (cam w)"
  by (auto simp: cam_start_frame_def set_len_def set_frame_def Let_def split: bind_splits if_splits prod.splits)

lemma vsync_exact:
  assumes i: "winv ll w PC_wait H" and st: "cam_state (cam w) = CAM_STATE_READ_BUF"
    and raw: "\<not> jpeg_mode (cam w)" and f: "f = frames (cam w) ! ct_frame_pos w"
    and full: "fb_len (fb f) = fb_size (cam w)"
    and q: "frame_buffer_queue (cam w) = Some q" "uxMessagesWaiting q < uxLength q"
  shows "\<exists>w' q'. cam_task_event ll CAM_VSYNC_EVENT w = Some w' \<and> winv ll w' PC_wait H \<and>
    fbq_items (cam w') = q_items q @ [Some (ct_frame_pos w)] \<and>
    frames (cam w') ! ct_frame_pos w = f\<lparr>en := False\<rparr>"
proof -
  have c: "core ll w H {}" and ps: "\<not> psram_mode (cam w)" using i by (simp_all add: winv_wait core_def cfg_ok_def)
  note pl = core_frame_pos [OF c]
  obtain ppd where ppd: "pixels_per_dma (cam w) = Some ppd"
    using c cfg_ppd [of ll "cam w"] by (metis core_def)
  define w1 where "w1 = (ll_stop ll w)\<lparr>cam := (cam w)\<lparr>frames := (frames (cam w))[ct_frame_pos w := f\<lparr>en := False\<rparr>]\<rparr>\<rparr>"
  have v: "cam_task_dispatch ll CAM_VSYNC_EVENT w = Some (w1, PC_send)"
    using ppd ps pl raw st full f
    by (simp add: cam_task_dispatch_def cam_task_vsync_def cam_vsync_tail_def cam_vsync_claim_def Let_def w1_def)
  from dispatch_ok [OF i, of CAM_VSYNC_EVENT] v have i1: "winv ll w1 PC_send H" by auto
  have "q_ok q" using c q(1) by (auto simp: core_def fbq_ok_def)
  with q(2) obtain q' where q': "xQueueGenericSendFromISR (Some (ct_frame_pos w)) queueSEND_TO_BACK q = Some (True, q')"
    "q_items q' = q_items q @ [Some (ct_frame_pos w)]"
    using fq.send_room [of q "Some (ct_frame_pos w)"] by auto
  define w2 where "w2 = w1\<lparr>cam := (cam w1)\<lparr>frame_buffer_queue := Some q'\<rparr>\<rparr>"
  have s: "cam_task_frag ll PC_send w1 = Some (w2, PC_start)"
    using pl q(1) q'(1) by (simp add: w1_def w2_def fbq_send_def)
  from frag_ok [OF i1] s have i2: "winv ll w2 PC_start H" by auto
  then obtain w' where w': "cam_task_frag ll PC_start w2 = Some (w', PC_wait)" "winv ll w' PC_wait H"
    using start_ok [of ll w2 H] by (auto simp: winv_def)
  have "frames (cam w') ! ct_frame_pos w = frames (cam w2) ! ct_frame_pos w"
    using frag_keeps [OF i2 w'(1)] pl by (simp add: keeps_held_def w1_def w2_def)
  moreover have "frames (cam w2) ! ct_frame_pos w = f\<lparr>en := False\<rparr>" using pl by (simp add: w1_def w2_def)
  moreover have "fbq_items (cam w') = q_items q @ [Some (ct_frame_pos w)]"
    using start_fbq [OF w'(1)] q'(2) by (simp add: fbq_items_def w2_def)
  moreover have "cam_task_run ll PC_send w1 = Some w'"
    using s w'(1) by (simp add: cam_task_run.simps [of ll PC_send] cam_task_run.simps [of ll PC_start]
        cam_task_run.simps [of ll PC_wait] del: cam_task_frag.simps)
  ultimately show ?thesis using v w'(2) by (simp add: cam_task_event_def)
qed


text \<open>
  C12. Capturing a raw image: if a frame has just been started in a reachable state, the DMA delivers
  as many half buffers as fill the frame, and the queue has room, then after the event of each half
  buffer and the vertical sync the frame is the last one in the queue, its length is the frame size
  and its bytes are the converted half buffers in the order in which they arrived, although they came
  through a ring of only \<open>dma_half_buffer_cnt\<close> halves.
\<close>

theorem cam_capture_raw:
  assumes "sys_init ll s0" and "cam_steps ll s0 s" and "sys_pc s = PC_wait" and "w = sys_w s"
    and "cam_state (cam w) = CAM_STATE_READ_BUF" and "ct_cnt w = 0" and "\<not> jpeg_mode (cam w)"
    and "pixels_per_dma (cam w) = Some ppd" and "length ds * ppd = fb_size (cam w)"
    and "\<And>d. d \<in> set ds \<Longrightarrow> length d = dma_half_buffer_size (cam w) \<and> length (ll_cam_memcpy ll d) = ppd"
    and "frame_buffer_queue (cam w) = Some q" and "uxMessagesWaiting q < uxLength q"
  shows "\<exists>w1 w2. capture ll ds w = Some w1 \<and> cam_task_event ll CAM_VSYNC_EVENT w1 = Some w2 \<and>
    fbq_items (cam w2) = q_items q @ [Some (ct_frame_pos w)] \<and>
    (let b = fb (frames (cam w2) ! ct_frame_pos w)
     in fb_len b = fb_size (cam w) \<and> take (fb_len b) (fb_mem b) = concat (map (ll_cam_memcpy ll) ds))"
proof -
  have i: "winv ll w PC_wait (held s)" using reach_inv [OF assms(1,2)] assms(3,4) by simp
  then have z: "fb_len (fb (frames (cam w) ! ct_frame_pos w)) = 0"
    using assms(5,6) by (simp add: winv_wait reading_ok_def)
  from capture_exact [OF i assms(5,7,8), of ds] assms(9,10) z obtain w1 where w1: "capture ll ds w = Some w1"
    "winv ll w1 PC_wait (held s)" "cam_state (cam w1) = CAM_STATE_READ_BUF" "\<not> jpeg_mode (cam w1)"
    "fb_size (cam w1) = fb_size (cam w)" "ct_frame_pos w1 = ct_frame_pos w" "frame_buffer_queue (cam w1) = Some q"
    "fb_len (fb (frames (cam w1) ! ct_frame_pos w)) = fb_size (cam w)"
    "take (fb_size (cam w)) (fb_mem (fb (frames (cam w1) ! ct_frame_pos w))) = concat (map (ll_cam_memcpy ll) ds)"
    using assms(11) by (auto simp: Let_def)
  from vsync_exact [OF w1(2-4) refl _ w1(7) assms(12)] w1 obtain w2 where
    "cam_task_event ll CAM_VSYNC_EVENT w1 = Some w2" "fbq_items (cam w2) = q_items q @ [Some (ct_frame_pos w)]"
    "frames (cam w2) ! ct_frame_pos w = (frames (cam w1) ! ct_frame_pos w)\<lparr>en := False\<rparr>" by auto
  with w1 show ?thesis by (simp add: Let_def)
qed

lemma demo_raw_start:
  "\<exists>s q. sys_exec demo_ll [A_isr CAM_VSYNC_EVENT, A_event] (demo_sys False) = Some s \<and>
     sys_pc s = PC_wait \<and> cam_state (cam (sys_w s)) = CAM_STATE_READ_BUF \<and> ct_cnt (sys_w s) = 0 \<and>
     \<not> jpeg_mode (cam (sys_w s)) \<and> pixels_per_dma (cam (sys_w s)) = Some 4 \<and> fb_size (cam (sys_w s)) = 16 \<and>
     dma_half_buffer_size (cam (sys_w s)) = 4 \<and> frame_buffer_queue (cam (sys_w s)) = Some q \<and>
     uxMessagesWaiting q = 0 \<and> uxLength q = 2 \<and> ct_frame_pos (sys_w s) = 0"
  by (simp add: demo_eval)

theorem cam_capture_raw_witness:
  "\<exists>w w1 w2. capture demo_ll [[1, 2, 3, 4], [5, 6, 7, 8], [9, 10, 11, 12], [13, 14, 15, 16]] w = Some w1 \<and>
     cam_task_event demo_ll CAM_VSYNC_EVENT w1 = Some w2 \<and>
     take 16 (fb_mem (fb (frames (cam w2) ! 0))) = [1, 2, 3, 4, 5, 6, 7, 8, 9, 10, 11, 12, 13, 14, 15, 16]"
proof -
  from demo_raw_start obtain s q where s: "sys_exec demo_ll [A_isr CAM_VSYNC_EVENT, A_event] (demo_sys False) = Some s"
    "sys_pc s = PC_wait" "cam_state (cam (sys_w s)) = CAM_STATE_READ_BUF" "ct_cnt (sys_w s) = 0"
    "\<not> jpeg_mode (cam (sys_w s))" "pixels_per_dma (cam (sys_w s)) = Some 4" "fb_size (cam (sys_w s)) = 16"
    "dma_half_buffer_size (cam (sys_w s)) = 4" "frame_buffer_queue (cam (sys_w s)) = Some q"
    "uxMessagesWaiting q = 0" "uxLength q = 2" "ct_frame_pos (sys_w s) = 0" by auto
  let ?ds = "[[1, 2, 3, 4], [5, 6, 7, 8], [9, 10, 11, 12], [13, 14, 15, 16]] :: u8 list list"
  have id: "ll_cam_memcpy demo_ll = (\<lambda>bs. bs)" by (simp add: demo_ll_def)
  have "\<exists>w1 w2. capture demo_ll ?ds (sys_w s) = Some w1 \<and> cam_task_event demo_ll CAM_VSYNC_EVENT w1 = Some w2 \<and>
    fbq_items (cam w2) = q_items q @ [Some (ct_frame_pos (sys_w s))] \<and>
    (let b = fb (frames (cam w2) ! ct_frame_pos (sys_w s))
     in fb_len b = fb_size (cam (sys_w s)) \<and> take (fb_len b) (fb_mem b) = concat (map (ll_cam_memcpy demo_ll) ?ds))"
    by (rule cam_capture_raw [OF demo_init sys_exec_steps [OF s(1)] s(2) refl s(3-6) _ _ s(9)])
      (use s id in auto)
  then show ?thesis using s(7,12) id
    by - (rule exI [of _ "sys_w s"], auto simp: Let_def simp del: capture.simps)
qed


subsection \<open>\<open>cam_take\<close> returns\<close>

text \<open>
  What the rest of the system does while \<open>cam_take\<close> is blocked for \<open>t\<close> ticks: it keeps the invariant and
  does not abort the delay; the caller runs again when the queue has a frame, possibly in the same
  tick, or after some time, at most \<open>J\<close> ticks late. \<open>vs\<close> reads the number of vertical syncs so far off
  the hardware: it grows at most by \<open>K\<close> per tick, and the queue by at most one frame per sync; resetting the DMA
  makes no sync.
\<close>

definition take_env :: "'e ll_cam \<Rightarrow> nat set \<Rightarrow> nat \<Rightarrow> nat \<Rightarrow> ('e \<Rightarrow> nat) \<Rightarrow> 'e cam_env \<Rightarrow> bool" where
  "take_env ll H K J vs env \<longleftrightarrow>
     (\<forall>reset h. ll_cam_dma_reset ll = Some reset \<longrightarrow> vs (reset h) = vs h) \<and>
     (\<forall>t k w pc. winv ll w pc H \<and> vs (cw_hw w) \<le> K * Suc (now k) \<longrightarrow> (case env t (k, w) of (k', w') \<Rightarrow>
        (\<exists>pc'. winv ll w' pc' H) \<and> (\<not> ucDelayAborted k \<longrightarrow> \<not> ucDelayAborted k') \<and>
        now k \<le> now k' \<and> now k' \<le> now k + unat t + J \<and> (now k < now k' \<or> fbq_items (cam w') \<noteq> []) \<and>
        vs (cw_hw w) \<le> vs (cw_hw w') \<and> vs (cw_hw w') \<le> K * Suc (now k') \<and>
        length (fbq_items (cam w')) \<le> length (fbq_items (cam w)) + (vs (cw_hw w') - vs (cw_hw w))))"

text \<open>The invariant of a wait that began with \<open>n\<close> frames queued after \<open>v\<close> syncs.\<close>

definition take_inv ::
    "'e ll_cam \<Rightarrow> nat set \<Rightarrow> nat \<Rightarrow> ('e \<Rightarrow> nat) \<Rightarrow> nat \<Rightarrow> nat \<Rightarrow> (fb_ptr, 'e cam_world) qworld \<Rightarrow> bool" where
  "take_inv ll H K vs n v = (\<lambda>(q, k, w). (\<exists>pc. winv ll (put_fbq q w) pc H) \<and>
     vs (cw_hw w) \<le> K * Suc (now k) \<and> length (q_items q) + v \<le> n + vs (cw_hw w))"

lemma winv_fbq: "winv ll w pc H \<Longrightarrow> \<exists>q. frame_buffer_queue (cam w) = Some q \<and> q_ok q"
  by (simp add: winv_def core_def fbq_ok_def)

lemma put_fbq_id: "frame_buffer_queue (cam w) = Some q \<Longrightarrow> put_fbq q w = w"
  by simp

lemma take_env_ticks:
  assumes "take_env ll H K J vs env"
  shows "env_ticks (take_inv ll H K vs n v) J (fbq_env env)"
  unfolding env_ticks_def
proof (intro allI impI)
  fix t q k and w :: "'a cam_world"
  assume "take_inv ll H K vs n v (q, k, w)"
  then obtain pc where i: "winv ll (put_fbq q w) pc H" and V: "vs (cw_hw w) \<le> K * Suc (now k)"
    and l: "length (q_items q) + v \<le> n + vs (cw_hw w)" by (auto simp: take_inv_def)
  obtain k' w' where e: "env t (k, put_fbq q w) = (k', w')" by fastforce
  from assms [unfolded take_env_def, THEN conjunct2, rule_format, of "put_fbq q w" pc k t] i V e obtain pc' where
    w': "winv ll w' pc' H" "\<not> ucDelayAborted k \<longrightarrow> \<not> ucDelayAborted k'" "now k \<le> now k'"
      "now k' \<le> now k + unat t + J" "now k < now k' \<or> fbq_items (cam w') \<noteq> []" "vs (cw_hw w) \<le> vs (cw_hw w')"
      "vs (cw_hw w') \<le> K * Suc (now k')"
      "length (fbq_items (cam w')) \<le> length (q_items q) + (vs (cw_hw w') - vs (cw_hw w))" by auto
  obtain q' where q': "frame_buffer_queue (cam w') = Some q'" using winv_fbq [OF w'(1)] by blast
  have "length (q_items q') + v \<le> n + vs (cw_hw w')" using l w'(6,8) q' by (simp add: fbq_items_def)
  moreover have "q_items q' \<noteq> [] \<Longrightarrow> 0 < uxMessagesWaiting q'" using length_q_items [of q'] by (cases "q_items q'") simp_all
  ultimately show "case fbq_env env t (q, k, w) of (q', k', e') \<Rightarrow>
      take_inv ll H K vs n v (q', k', e') \<and> (\<not> ucDelayAborted k \<longrightarrow> \<not> ucDelayAborted k') \<and>
      now k \<le> now k' \<and> now k' \<le> now k + unat t + J \<and> (now k < now k' \<or> 0 < uxMessagesWaiting q')"
    using w' q' e by (auto simp: fbq_env_def take_inv_def put_fbq_id fbq_items_def)
qed

lemma take_inv_step:
  assumes "take_env ll H K J vs env"
  shows "take_inv ll H K vs n v s \<Longrightarrow> take_inv ll H K vs n v (fbq_env env t s)"
    and "take_inv ll H K vs n v (q, k, w) \<Longrightarrow> take_inv ll H K vs n v (q, k\<lparr>ucDelayAborted := False\<rparr>, w)"
proof -
  show "take_inv ll H K vs n v s \<Longrightarrow> take_inv ll H K vs n v (fbq_env env t s)"
    using take_env_ticks [OF assms, of n v] unfolding env_ticks_def
    by (cases s; cases "fbq_env env t s") (fastforce split: prod.splits)
qed (simp add: take_inv_def now_def)

lemma take_frame_fbq:
  "cam_take_frame ll x w = Some (Inl w') \<Longrightarrow> length (frames (cam w)) = frame_cnt (cam w) \<Longrightarrow>
     frame_buffer_queue (cam w') = frame_buffer_queue (cam w) \<and> cw_hw w' = cw_hw w"
  by (auto simp: cam_take_frame_def cam_give_eq set_en_def set_frame_def Let_def
      split: bind_splits if_splits)

text \<open>The outcomes of one receive of \<open>cam_take\<close> with the examination of the frame.\<close>

definition take_post where
  "take_post ll H K vs timeout k w p k1 w1 \<longleftrightarrow> (case p of
     None \<Rightarrow> (\<exists>pc. winv ll w1 pc H) \<and> now k + unat timeout \<le> now k1
   | Some x \<Rightarrow> x \<notin> H \<and> (\<exists>r. cam_take_frame ll x w1 = Some r \<and> (case r of
       Inr w2 \<Rightarrow> (\<exists>pc. winv ll w2 pc (insert x H)) \<and> frame_good (cam w2) (frames (cam w2) ! x)
     | Inl w2 \<Rightarrow> (\<exists>pc. winv ll w2 pc H) \<and> vs (cw_hw w2) \<le> K * Suc (now k1) \<and>
         length (fbq_items (cam w2)) + vs (cw_hw w) < length (fbq_items (cam w)) + vs (cw_hw w2))))"

lemma take_received:
  assumes "take_inv ll H K vs (length (fbq_items (cam w))) (vs (cw_hw w)) (q0, k1, w1)"
    and "0 < uxMessagesWaiting q0" and q1: "xQueueReceiveFromISR None q0 = ((True, p), q1)"
  shows "take_post ll H K vs timeout k w p k1 (put_fbq q1 w1) \<and> p \<noteq> None"
proof -
  let ?w = "put_fbq q0 w1"
  from assms(1) obtain pc0 where q0: "winv ll ?w pc0 H" "vs (cw_hw w1) \<le> K * Suc (now k1)"
    "length (q_items q0) + vs (cw_hw w) \<le> length (fbq_items (cam w)) + vs (cw_hw w1)" by (auto simp: take_inv_def)
  have core: "core ll ?w H (task_owns pc0 ?w)" using q0(1) by (simp add: winv_def)
  then have ok: "q_ok q0" by (simp add: core_def)
  then have q: "q_ok q1" "q_items q0 = p # q_items q1"
    using q1 by (cases rule: fq.recv_cases [where buf = None]; auto)+
  then obtain x where x: "p = Some x" "x \<notin> H" using core_dequeued [OF core, of q1 p] by (auto simp: fbq_items_def)
  have "fbq_receive (cam ?w) = Some ((True, Some x), (cam w1)\<lparr>frame_buffer_queue := Some q1\<rparr>)"
    using q1 x(1) by (simp add: fbq_receive_def)
  from take_ok [OF q0(1) this] obtain r where r: "cam_take_frame ll x (put_fbq q1 w1) = Some r"
    "case r of Inr w' \<Rightarrow> winv ll w' pc0 (insert x H) \<and> x \<notin> H \<and> frame_good (cam w') (frames (cam w') ! x)
      | Inl w' \<Rightarrow> winv ll w' pc0 H" by auto
  have "vs (cw_hw w2) \<le> K * Suc (now k1) \<and>
      length (fbq_items (cam w2)) + vs (cw_hw w) < length (fbq_items (cam w)) + vs (cw_hw w2)" if "r = Inl w2" for w2
  proof -
    have "length (frames (cam w1)) = frame_cnt (cam w1)" using core by (simp add: core_def own_def)
    then have "frame_buffer_queue (cam w2) = Some q1" "cw_hw w2 = cw_hw w1"
      using take_frame_fbq [of ll x "put_fbq q1 w1" w2] r(1) that by simp_all
    then show ?thesis using q(2) q0(2,3) by (simp add: fbq_items_def)
  qed
  with r x show ?thesis by (auto simp: take_post_def split: sum.splits)
qed

lemma take_receive:
  assumes env: "take_env ll H K J vs env" and k: "\<not> ucDelayAborted k" and t: "unat timeout + J < 2 ^ 32 - 1"
    and P0: "take_inv ll H K vs (length (fbq_items (cam w))) (vs (cw_hw w)) (q, k, w0)"
  shows "\<exists>b p q1 k1 w1. xQueueReceive (fbq_env env) None timeout (q, k, w0) = Some ((b, p), q1, k1, w1) \<and>
    now k \<le> now k1 \<and> now k1 \<le> now k + (unat timeout + J) \<and> \<not> ucDelayAborted k1 \<and>
    take_post ll H K vs timeout k w p k1 (put_fbq q1 w1) \<and>
    (p = None \<longrightarrow> take_inv ll H K vs (length (fbq_items (cam w))) (vs (cw_hw w)) (q1, k1, w1))"
proof -
  let ?P = "take_inv ll H K vs (length (fbq_items (cam w))) (vs (cw_hw w))"
  from receive_returns [where buf = None, OF take_env_ticks [OF env] t k P0] obtain b p q1 k1 w1 where
    r: "xQueueReceive (fbq_env env) None timeout (q, k, w0) = Some ((b, p), q1, k1, w1)"
    "now k \<le> now k1" "now k1 \<le> now k + (unat timeout + J)" "\<not> ucDelayAborted k1"
    "\<not> b \<Longrightarrow> p = None \<and> now k + unat timeout \<le> now k1" by (auto simp: add.assoc)
  have post: "recv_post ?P None ((b, p), q1, k1, w1)"
    by (rule receive_post [where P = ?P, OF r(1) P0]) (use take_inv_step [OF env] in blast)+
  have "take_post ll H K vs timeout k w p k1 (put_fbq q1 w1) \<and> (p = None \<longrightarrow> ?P (q1, k1, w1))"
  proof (cases b)
    case False
    with post r show ?thesis by (auto simp: recv_post_def take_inv_def take_post_def)
  next
    case True
    with post take_received [of ll H K vs w _ k1 w1 p q1 timeout k] show ?thesis by (auto simp: recv_post_def)
  qed
  with r show ?thesis by blast
qed

text \<open>How often \<open>cam_take\<close> waits for a frame before it gives up.\<close>

definition waits :: "'e ll_cam \<Rightarrow> nat" where
  "waits ll = (case ll_cam_dma_reset ll of None \<Rightarrow> 1 | Some _ \<Rightarrow> 2)"

lemma take_wait:
  assumes env: "take_env ll H K J vs env" and i: "winv ll w pc H" and V: "vs (cw_hw w) \<le> K * Suc (now k)"
    and k: "\<not> ucDelayAborted k" and t: "waits ll * (unat timeout + J) < 2 ^ 32 - 1" and q: "frame_buffer_queue (cam w) = Some q"
  shows "\<exists>b p q1 k1 w1. cam_receive ll env timeout (q, k, w) = Some ((b, p), q1, k1, w1) \<and>
    now k \<le> now k1 \<and> now k1 \<le> now k + waits ll * (unat timeout + J) \<and> \<not> ucDelayAborted k1 \<and>
    take_post ll H K vs timeout k w p k1 (put_fbq q1 w1)"
proof -
  let ?P = "take_inv ll H K vs (length (fbq_items (cam w))) (vs (cw_hw w))"
  have t1: "unat timeout + J < 2 ^ 32 - 1" using t by (simp add: waits_def split: option.splits)
  have "\<exists>pc. winv ll (put_fbq q w) pc H" unfolding put_fbq_id [OF q] using i by blast
  with V q have P0: "?P (q, k, w)" by (simp add: take_inv_def fbq_items_def)
  from take_receive [OF env k t1 P0] obtain b p q1 k1 w1 where
    r: "xQueueReceive (fbq_env env) None timeout (q, k, w) = Some ((b, p), q1, k1, w1)" "now k \<le> now k1"
      "now k1 \<le> now k + (unat timeout + J)" "\<not> ucDelayAborted k1" "take_post ll H K vs timeout k w p k1 (put_fbq q1 w1)"
      "p = None \<longrightarrow> ?P (q1, k1, w1)" by blast
  show ?thesis
  proof (cases "p = None \<and> ll_cam_dma_reset ll \<noteq> None")
    case False
    with r show ?thesis by (auto simp: cam_receive_def waits_def split: option.splits)
  next
    case True
    then obtain reset where s: "p = None" "ll_cam_dma_reset ll = Some reset" by auto
    let ?w = "w1\<lparr>cw_hw := reset (cw_hw w1)\<rparr>"
    have "vs (reset (cw_hw w1)) = vs (cw_hw w1)" using env s(2) by (simp add: take_env_def)
    moreover have "winv ll (put_fbq q1 ?w) pc H = winv ll (put_fbq q1 w1) pc H" for pc
      by (cases pc) (simp_all add: winv_def core_def reading_ok_def)
    ultimately have "?P (q1, k1, ?w)" using r(6) s(1) by (simp add: take_inv_def)
    from take_receive [OF env r(4) t1 this] obtain b2 p2 q2 k2 w2 where
      r2: "xQueueReceive (fbq_env env) None timeout (q1, k1, ?w) = Some ((b2, p2), q2, k2, w2)" "now k1 \<le> now k2"
        "now k2 \<le> now k1 + (unat timeout + J)" "\<not> ucDelayAborted k2" "take_post ll H K vs timeout k1 w p2 k2 (put_fbq q2 w2)" by blast
    then have "take_post ll H K vs timeout k w p2 k2 (put_fbq q2 w2)" using r(2) by (auto simp: take_post_def split: option.splits)
    with r r2 s show ?thesis by (auto simp: cam_receive_def waits_def)
  qed
qed

lemma take_returns:
  assumes env: "take_env ll H K J vs env" and "winv ll w pc H" and "vs (cw_hw w) \<le> K * Suc (now k)"
    and "\<not> ucDelayAborted k" and "waits ll * (unat timeout + J) < 2 ^ 32 - 1"
  shows "\<exists>r k' w'. cam_take ll env timeout (k, w) = Some (r, k', w') \<and> now k \<le> now k' \<and>
    now k' \<le> now k + waits ll * (unat timeout + J) \<and>
    (case r of
       None \<Rightarrow> (\<exists>pc. winv ll w' pc H) \<and> now k + unat timeout \<le> now k'
     | Some x \<Rightarrow> x \<notin> H \<and> (\<exists>pc. winv ll w' pc (insert x H)) \<and> frame_good (cam w') (frames (cam w') ! x))"
  using assms(2-)
proof (induction "K * Suc (now k + waits ll * (unat timeout + J)) - vs (cw_hw w) + length (fbq_items (cam w))"
    arbitrary: w pc k timeout rule: less_induct)
  case less
  obtain q where q: "frame_buffer_queue (cam w) = Some q" using winv_fbq [OF less.prems(1)] by blast
  from take_wait [OF env less.prems q] obtain b p q1 k1 w1 where
    r: "cam_receive ll env timeout (q, k, w) = Some ((b, p), q1, k1, w1)"
    "now k \<le> now k1" "now k1 \<le> now k + waits ll * (unat timeout + J)" "\<not> ucDelayAborted k1" and
    c: "take_post ll H K vs timeout k w p k1 (put_fbq q1 w1)" by blast
  let ?s = "xTickCount k1 - xTickCount k"
  have spent: "unat ?s = now k1 - now k"
    using elapsed_small [of k1 "vTaskInternalSetTimeOutState k" "now k1 - now k"] r(2,3) less.prems(4)
    by (simp add: vTaskInternalSetTimeOutState_def armed_at_def now_def)
  consider (none) "p = None" | (good) x w2 where "p = Some x" "cam_take_frame ll x (put_fbq q1 w1) = Some (Inr w2)"
    | (bad) x w2 pc2 where "p = Some x" "cam_take_frame ll x (put_fbq q1 w1) = Some (Inl w2)" "winv ll w2 pc2 H"
        "vs (cw_hw w2) \<le> K * Suc (now k1)"
        "length (fbq_items (cam w2)) + vs (cw_hw w) < length (fbq_items (cam w)) + vs (cw_hw w2)"
  proof (cases p)
    case (Some x)
    with c obtain v where v: "cam_take_frame ll x (put_fbq q1 w1) = Some v" "case v of
        Inr w2 \<Rightarrow> (\<exists>pc. winv ll w2 pc (insert x H)) \<and> frame_good (cam w2) (frames (cam w2) ! x)
      | Inl w2 \<Rightarrow> (\<exists>pc. winv ll w2 pc H) \<and> vs (cw_hw w2) \<le> K * Suc (now k1) \<and>
          length (fbq_items (cam w2)) + vs (cw_hw w) < length (fbq_items (cam w)) + vs (cw_hw w2)"
      by (auto simp: take_post_def)
    show thesis using v that(2) [OF Some] that(3) [OF Some] by (cases v) auto
  qed (use that(1) in blast)
  then show ?case
  proof cases
    case none
    with r c q show ?thesis by (subst cam_take.simps) (simp add: take_post_def)
  next
    case good
    with r c q show ?thesis by (subst cam_take.simps) (simp add: take_post_def)
  next
    case bad
    show ?thesis
    proof (cases "timeout \<le> ?s")
      case True
      then have "now k + unat timeout \<le> now k1" using spent r(2) by (simp add: word_le_nat_alt)
      with True bad r q show ?thesis by (subst cam_take.simps) auto
    next
      case False
      then have lt: "now k1 - now k < unat timeout" using spent by (simp add: word_le_nat_alt)
      have u: "unat (timeout - ?s) = unat timeout - (now k1 - now k)"
        using False spent by (subst unat_sub) (simp_all add: word_le_nat_alt)
      have T: "now k1 + waits ll * (unat (timeout - ?s) + J) \<le> now k + waits ll * (unat timeout + J)"
        using u lt r(2) by (auto simp: waits_def split: option.splits)
      then have "K * Suc (now k1 + waits ll * (unat (timeout - ?s) + J)) \<le> K * Suc (now k + waits ll * (unat timeout + J))"
        by (intro mult_le_mono2) simp
      moreover have "K * Suc (now k1) \<le> K * Suc (now k1 + waits ll * (unat (timeout - ?s) + J))" by (intro mult_le_mono2) simp
      ultimately have m: "K * Suc (now k1 + waits ll * (unat (timeout - ?s) + J)) - vs (cw_hw w2) + length (fbq_items (cam w2))
          < K * Suc (now k + waits ll * (unat timeout + J)) - vs (cw_hw w) + length (fbq_items (cam w))"
        using bad(4,5) by linarith
      have "waits ll * (unat (timeout - ?s) + J) \<le> waits ll * (unat timeout + J)" unfolding u by (intro mult_le_mono2) simp
      then have "waits ll * (unat (timeout - ?s) + J) < 2 ^ 32 - 1" using less.prems(4) by linarith
      with less.hyps [OF m bad(3,4) r(4)] obtain r' k' w' where
        IH: "cam_take ll env (timeout - ?s) (k1, w2) = Some (r', k', w')" "now k1 \<le> now k'"
        "now k' \<le> now k1 + waits ll * (unat (timeout - ?s) + J)" "case r' of
           None \<Rightarrow> (\<exists>pc. winv ll w' pc H) \<and> now k1 + unat (timeout - ?s) \<le> now k'
         | Some x \<Rightarrow> x \<notin> H \<and> (\<exists>pc. winv ll w' pc (insert x H)) \<and> frame_good (cam w') (frames (cam w') ! x)"
        by blast
      have "cam_take ll env timeout (k, w) = Some (r', k', w')"
        using False bad r q IH(1) by (subst cam_take.simps) simp
      moreover have "now k1 + unat (timeout - ?s) = now k + unat timeout" using u lt r(2) by simp
      ultimately show ?thesis using IH T r(2) by (auto split: option.splits)
    qed
  qed
qed

text \<open>
  C9. \<open>cam_take\<close> returns in time, although it calls itself for every JPEG image without end marker:
  called in a reachable state, while the rest of the system keeps running, it ends at most \<open>J\<close> ticks
  after its time-out, where \<open>J\<close> bounds how late a blocked task runs again; on the ESP32-S3, where it waits a second
  time after resetting the DMA, after at most twice that. If it returns a frame, the
  application did not hold it before, owns it now, and the frame has its markers; if it returns NULL,
  the whole time-out has passed and all buffers are still accounted for. The assumptions on the rest
  of the system are that a wait ends only when a frame is queued (possibly in the same tick) or when
  time has passed, that at most \<open>K\<close> vertical syncs happen per tick, for some \<open>K\<close>, and that the time-out
  and \<open>J\<close> (twice, on the ESP32-S3) are less than a turn of the tick counter. The object is outside PSRAM mode.
\<close>

theorem cam_take_returns:
  assumes "sys_init ll s0" and "cam_steps ll s0 s" and "take_env ll (held s) K J vs env"
    and "vs (cw_hw (sys_w s)) \<le> K * Suc (now k)" and "\<not> ucDelayAborted k" and "waits ll * (unat timeout + J) < 2 ^ 32 - 1"
  shows "\<exists>r k' w' pc. cam_take ll env timeout (k, sys_w s) = Some (r, k', w') \<and>
    now k \<le> now k' \<and> now k' \<le> now k + waits ll * (unat timeout + J) \<and>
    (case r of
       None \<Rightarrow> own (cam w') (held s) (task_owns pc w') \<and> now k + unat timeout \<le> now k'
     | Some x \<Rightarrow> x \<notin> held s \<and> own (cam w') (insert x (held s)) (task_owns pc w') \<and>
         frame_good (cam w') (frames (cam w') ! x))"
proof -
  from take_returns [OF assms(3) reach_inv [OF assms(1,2)] assms(4-6)] obtain r k' w' where
    r: "cam_take ll env timeout (k, sys_w s) = Some (r, k', w')" "now k \<le> now k'"
    "now k' \<le> now k + waits ll * (unat timeout + J)" "case r of
       None \<Rightarrow> (\<exists>pc. winv ll w' pc (held s)) \<and> now k + unat timeout \<le> now k'
     | Some x \<Rightarrow> x \<notin> held s \<and> (\<exists>pc. winv ll w' pc (insert x (held s))) \<and> frame_good (cam w') (frames (cam w') ! x)"
    by blast
  have own: "winv ll w' pc H \<Longrightarrow> own (cam w') H (task_owns pc w')" for pc H by (simp add: winv_def core_def)
  show ?thesis
  proof (cases r)
    case None
    with r obtain pc where "winv ll w' pc (held s)" by auto
    with r None own show ?thesis by (intro exI [of _ r] exI [of _ k'] exI [of _ w'] exI [of _ pc]) simp
  next
    case (Some x)
    with r obtain pc where "winv ll w' pc (insert x (held s))" by auto
    with r Some own show ?thesis by (intro exI [of _ r] exI [of _ k'] exI [of _ w'] exI [of _ pc]) simp
  qed
qed

text \<open>A kernel in which time passes while a task waits, and nothing else happens.\<close>

definition idle_env :: "'e cam_env" where
  "idle_env t s = (case s of (k, w) \<Rightarrow> (xTaskIncrementTick k, w))"

lemma idle_take_env: "take_env ll H K 1 (\<lambda>_. 0) idle_env"
  using aborted_funpow [of 1] by (auto simp: take_env_def idle_env_def)

definition demo_kernel :: kernel where
  "demo_kernel = \<lparr>xTickCount = 0xffffff00, xNumOfOverflows = 0, ucDelayAborted = False\<rparr>"

lemma demo_waits [simp]: "waits demo_ll = 1"
  by (simp add: waits_def demo_ll_def)

lemma demo_cam_take:
  "\<exists>s w'. sys_exec demo_ll (take 9 demo_schedule) (demo_sys True) = Some s \<and> held s = {} \<and>
     cam_take demo_ll idle_env 400 (demo_kernel, sys_w s) = Some (Some 0, demo_kernel, w') \<and>
     jpeg_mode (cam w')"
  by (subst cam_take.simps, unfold cam_receive_def xQueueReceive_def, subst xQueueReceive_loop.simps)
    (simp add: demo_eval demo_schedule_def)

theorem cam_take_returns_witness:
  "\<exists>s k' w' pc. cam_steps demo_ll (demo_sys True) s \<and>
     cam_take demo_ll idle_env 400 (demo_kernel, sys_w s) = Some (Some 0, k', w') \<and>
     now k' \<le> now demo_kernel + 401 \<and> own (cam w') {0} (task_owns pc w') \<and>
     jpeg_mode (cam w') \<and> frame_good (cam w') (frames (cam w') ! 0)"
proof -
  from demo_cam_take obtain s w' where s: "sys_exec demo_ll (take 9 demo_schedule) (demo_sys True) = Some s"
    "held s = {}" "cam_take demo_ll idle_env 400 (demo_kernel, sys_w s) = Some (Some 0, demo_kernel, w')"
    "jpeg_mode (cam w')" by blast
  note st = sys_exec_steps [OF s(1)]
  have "\<not> ucDelayAborted demo_kernel" by (simp add: demo_kernel_def)
  from cam_take_returns [OF demo_init st idle_take_env _ this, of 0 400] s(2-) st
  show ?thesis by (auto simp: unsigned_numeral intro!: exI [of _ s])
qed

end
