(* ===== verification/CamConf.thy ===== *)
theory CamConf
  imports CamSys "HOL-Library.Multiset"
begin

text \<open>
  Building up and tearing down the capture, the rest of \<open>driver/cam_hal.c\<close>: \<open>cam_init\<close>,
  \<open>cam_config\<close> with the allocation of frame buffers, DMA buffer and DMA descriptors, and
  \<open>cam_deinit\<close>.

  \<open>hal\<close> is the static pointer \<open>cam_obj\<close> with the object it points to, the set \<open>live\<close> of the
  addresses of allocated blocks, the number of capture tasks that exist, and the hardware. The
  allocator, the task creation and the low-level driver are the fields of \<open>plat\<close>; so are the sizes
  the compiler gives the structures and the build options. \<open>None\<close> stands for undefined behaviour (NULL
  or out-of-bounds access, division by zero, \<open>free\<close> of a pointer that is not a live block) and for
  a failed assertion of the kernel.

  The lemmas keep the books on the heap: the multiset \<open>blocks\<close> of what the object points to and the
  set of live blocks change together, so every way out of \<open>cam_config\<close> and \<open>cam_deinit\<close> can be
  accounted for.
\<close>

subsection \<open>Configuration and platform\<close>

datatype camera_grab_mode_t = CAMERA_GRAB_WHEN_EMPTY | CAMERA_GRAB_LATEST

datatype camera_fb_location_t = CAMERA_FB_IN_PSRAM | CAMERA_FB_IN_DRAM

record camera_config_t =
  pin_pwdn :: int
  pin_reset :: int
  pin_xclk :: int
  pin_sccb_sda :: int
  pin_sccb_scl :: int
  pin_d7 :: int
  pin_d6 :: int
  pin_d5 :: int
  pin_d4 :: int
  pin_d3 :: int
  pin_d2 :: int
  pin_d1 :: int
  pin_d0 :: int
  pin_vsync :: int
  pin_href :: int
  pin_pclk :: int
  xclk_freq_hz :: int
  ledc_timer :: int
  ledc_channel :: int
  pixel_format :: pixformat_t
  frame_size :: framesize_t
  jpeg_quality :: int
  fb_count :: nat
  fb_location :: camera_fb_location_t
  grab_mode :: camera_grab_mode_t
  cfg_sccb_i2c_port :: int

text \<open>The capabilities asked of the allocator; \<open>portMALLOC\<close> is the kernel's own allocation.\<close>

datatype mem_caps =
  MALLOC_CAP_DEFAULT | MALLOC_CAP_DMA | MALLOC_CAP_8BIT_INTERNAL | MALLOC_CAP_8BIT_SPIRAM | portMALLOC

text \<open>
  \<open>heap_alloc\<close> is given the capabilities, the size, the live blocks and the hardware state.
  \<open>mem_init\<close> is the contents of fresh memory. \<open>jpeg_mode_frame_size\<close> is \<open>None\<close> for
  \<open>CONFIG_CAMERA_JPEG_MODE_FRAME_SIZE_AUTO\<close>.
\<close>

record 'e plat =
  heap_alloc :: "mem_caps \<Rightarrow> nat \<Rightarrow> int set \<Rightarrow> 'e \<Rightarrow> int option \<times> 'e"
  mem_init :: "int \<Rightarrow> u8"
  evq_init :: "int \<Rightarrow> cam_event_t"
  fbq_init :: "int \<Rightarrow> fb_ptr"
  sizeof_cam_obj_t :: nat
  sizeof_cam_frame_t :: nat
  sizeof_Queue_t :: nat
  target_esp32 :: bool
  jpeg_mode_frame_size :: "nat option"
  ll_cam_set_pin :: "camera_config_t \<Rightarrow> 'e \<Rightarrow> 'e"
  ll_cam_config :: "camera_config_t \<Rightarrow> cam_obj_t \<Rightarrow> 'e \<Rightarrow> esp_err_t \<times> cam_obj_t \<times> 'e"
  ll_cam_set_sample_mode :: "pixformat_t \<Rightarrow> int \<Rightarrow> u16 \<Rightarrow> cam_obj_t \<Rightarrow> 'e \<Rightarrow> esp_err_t \<times> cam_obj_t \<times> 'e"
  ll_cam_dma_sizes :: "cam_obj_t \<Rightarrow> 'e \<Rightarrow> bool \<times> cam_obj_t \<times> 'e"
  ll_cam_get_dma_align :: "cam_obj_t \<Rightarrow> u8"
  ll_cam_init_isr :: "cam_obj_t \<Rightarrow> 'e \<Rightarrow> esp_err_t \<times> 'e"
  ll_cam_deinit :: "'e \<Rightarrow> 'e"
  xTaskCreate :: "'e \<Rightarrow> bool \<times> 'e"
  vTaskDelete :: "'e \<Rightarrow> 'e"

record 'e hal =
  cam_obj :: "(int \<times> cam_obj_t) option"
  live :: "int set"
  tasks :: nat
  hal_hw :: 'e

definition put_obj :: "cam_obj_t \<Rightarrow> 'e hal \<Rightarrow> 'e hal" where
  "put_obj c h = h\<lparr>cam_obj := map_option (\<lambda>(a, _). (a, c)) (cam_obj h)\<rparr>"

subsection \<open>The heap\<close>

definition heap_malloc :: "'e plat \<Rightarrow> mem_caps \<Rightarrow> nat \<Rightarrow> 'e hal \<Rightarrow> int option \<times> 'e hal" where
  "heap_malloc pl caps n h =
     (case heap_alloc pl caps n (live h) (hal_hw h) of (p, e) \<Rightarrow>
        (p, h\<lparr>live := live h \<union> set_option p, hal_hw := e\<rparr>))"

definition heap_free :: "int \<Rightarrow> 'e hal \<Rightarrow> 'e hal option" where
  "heap_free p h =
     (if p = 0 then Some h
      else if p \<in> live h then Some (h\<lparr>live := live h - {p}\<rparr>)
      else None)"

text \<open>The bytes of a fresh block of \<open>n\<close> bytes at \<open>a\<close>.\<close>

definition fresh_bytes :: "'e plat \<Rightarrow> int \<Rightarrow> nat \<Rightarrow> u8 list" where
  "fresh_bytes pl a n = map (\<lambda>i. mem_init pl (a + int i)) [0..<n]"

text \<open>An address is NULL or a block.\<close>

abbreviation addr_of :: "int option \<Rightarrow> int" where
  "addr_of p \<equiv> (case p of None \<Rightarrow> 0 | Some a \<Rightarrow> a)"

subsection \<open>DMA descriptors\<close>

definition sizeof_lldesc_t :: nat where
  "sizeof_lldesc_t = 12"

text \<open>\<open>size\<close> and \<open>length\<close> are bit fields of 12 bits.\<close>

definition dma_descriptor :: "int \<Rightarrow> nat \<Rightarrow> nat \<Rightarrow> int \<Rightarrow> nat \<Rightarrow> lldesc_t" where
  "dma_descriptor dma cnt sze buffer x =
     \<lparr>ld_size = sze mod 2 ^ 12, ld_length = 0, ld_sosf = 0, ld_eof = 0, ld_owner = 1,
      ld_buf = buffer + int (sze * x),
      ld_empty = dma + int (sizeof_lldesc_t * ((x + 1) mod cnt))\<rparr>"

definition allocate_dma_descriptors ::
    "'e plat \<Rightarrow> nat \<Rightarrow> nat \<Rightarrow> int \<Rightarrow> 'e hal \<Rightarrow> ((int \<times> lldesc_t list) option \<times> 'e hal) option" where
  "allocate_dma_descriptors pl cnt size0 buffer h =
     (let n = sz (cnt * sizeof_lldesc_t); sze = size0 mod 2 ^ 16 in
      case heap_malloc pl MALLOC_CAP_DMA n h of
        (None, h1) \<Rightarrow> Some (None, h1)
      | (Some a, h1) \<Rightarrow>
          if n < cnt * sizeof_lldesc_t then None
          else Some (Some (a, map (dma_descriptor a cnt sze buffer) [0..<cnt]), h1))"

subsection \<open>Frame buffers and DMA buffer\<close>

text \<open>A frame as \<open>calloc\<close> leaves it.\<close>

definition zero_frame :: cam_frame_t where
  "zero_frame =
     \<lparr>fb = \<lparr>fb_buf = 0, fb_mem = [], fb_len = 0, fb_width = 0, fb_height = 0,
            fb_format = PIXFORMAT_RGB565, fb_tv_sec = 0, fb_tv_usec = 0\<rparr>,
      fr_dma = None, fb_offset = 0, en = False\<rparr>"

definition align_offset :: "u8 \<Rightarrow> int \<Rightarrow> nat" where
  "align_offset dma_align p = unat (ucast dma_align - (word_of_int p AND (ucast dma_align - 1)) :: u32)"

text \<open>The body of the loop over the frames, for frame \<open>x\<close>; the result says whether to go on.\<close>

definition alloc_frame :: "'e plat \<Rightarrow> mem_caps \<Rightarrow> u8 \<Rightarrow> nat \<Rightarrow> nat \<Rightarrow> 'e hal \<Rightarrow> (bool \<times> 'e hal) option" where
  "alloc_frame pl caps dma_align alloc_size x h = do {
     (_, c) \<leftarrow> cam_obj h;
     c1 \<leftarrow> set_frame x (\<lambda>f. f\<lparr>fr_dma := None, fb_offset := 0, en := False\<rparr>) c;
     let (p, h1) = heap_malloc pl caps alloc_size h;
     c2 \<leftarrow> set_frame x (fb_update (\<lambda>b. b\<lparr>fb_buf := addr_of p,
             fb_mem := (case p of None \<Rightarrow> [] | Some a \<Rightarrow> fresh_bytes pl a alloc_size)\<rparr>)) c1;
     (case p of
        None \<Rightarrow> Some (False, put_obj c2 h1)
      | Some a \<Rightarrow>
          if psram_mode c2 then do {
            let off = align_offset dma_align a;
            c3 \<leftarrow> set_frame x (\<lambda>f. f\<lparr>fb_offset := off, fb := (fb f)\<lparr>fb_buf := a + int off,
                    fb_mem := drop off (fb_mem (fb f))\<rparr>\<rparr>) c2;
            (d, h2) \<leftarrow> allocate_dma_descriptors pl (dma_node_cnt c3) (dma_node_buffer_size c3)
                         (a + int off) h1;
            c4 \<leftarrow> set_frame x (fr_dma_update (\<lambda>_. d)) c3;
            if d = None then Some (False, put_obj c4 h2)
            else do { c5 \<leftarrow> set_en x True c4; Some (True, put_obj c5 h2) } }
          else do { c3 \<leftarrow> set_en x True c2; Some (True, put_obj c3 h1) }) }"

fun alloc_frames ::
    "'e plat \<Rightarrow> mem_caps \<Rightarrow> u8 \<Rightarrow> nat \<Rightarrow> nat list \<Rightarrow> 'e hal \<Rightarrow> (bool \<times> 'e hal) option" where
  "alloc_frames pl caps dma_align alloc_size [] h = Some (True, h)"
| "alloc_frames pl caps dma_align alloc_size (x # xs) h = do {
     (ok, h1) \<leftarrow> alloc_frame pl caps dma_align alloc_size x h;
     if ok then alloc_frames pl caps dma_align alloc_size xs h1 else Some (False, h1) }"

text \<open>The DMA buffer of a driver that copies, and its descriptors.\<close>

definition alloc_dma_buffer :: "'e plat \<Rightarrow> 'e hal \<Rightarrow> (esp_err_t \<times> 'e hal) option" where
  "alloc_dma_buffer pl h = do {
     (_, c) \<leftarrow> cam_obj h;
     (case heap_malloc pl MALLOC_CAP_DMA (dma_buffer_size c) h of
        (None, h1) \<Rightarrow> Some (ESP_FAIL, h1)
      | (Some a, h1) \<Rightarrow> do {
          let c1 = c\<lparr>dma_buffer := Some (a, fresh_bytes pl a (dma_buffer_size c))\<rparr>;
          (d, h2) \<leftarrow> allocate_dma_descriptors pl (dma_node_cnt c1) (dma_node_buffer_size c1) a h1;
          let h3 = put_obj (c1\<lparr>obj_dma := d\<rparr>) h2;
          Some (if d = None then ESP_FAIL else ESP_OK, h3) }) }"

text \<open>The size of the block of each frame; DMA into external memory needs room for a whole reception and
  for the alignment.\<close>

definition frame_dma_align :: "'e plat \<Rightarrow> cam_obj_t \<Rightarrow> u8" where
  "frame_dma_align pl c = (if psram_mode c then ll_cam_get_dma_align pl c else 0)"

definition frame_alloc_size :: "'e plat \<Rightarrow> cam_obj_t \<Rightarrow> nat" where
  "frame_alloc_size pl c =
     sz ((if psram_mode c \<and> fb_size c < recv_size c then recv_size c else fb_size c) + unat (frame_dma_align pl c))"

text \<open>Everything \<open>cam_dma_config\<close> does once it has the array of frames.\<close>

definition alloc_buffers :: "'e plat \<Rightarrow> camera_config_t \<Rightarrow> 'e hal \<Rightarrow> (esp_err_t \<times> 'e hal) option" where
  "alloc_buffers pl config h = do {
     (_, c) \<leftarrow> cam_obj h;
     let caps = (if fb_location config = CAMERA_FB_IN_DRAM then MALLOC_CAP_8BIT_INTERNAL
                 else MALLOC_CAP_8BIT_SPIRAM);
     (ok, h1) \<leftarrow> alloc_frames pl caps (frame_dma_align pl c) (frame_alloc_size pl c) [0..<frame_cnt c] h;
     if \<not> ok then Some (ESP_FAIL, h1)
     else if \<not> psram_mode c then alloc_dma_buffer pl h1
     else Some (ESP_OK, h1) }"

definition cam_dma_config :: "'e plat \<Rightarrow> camera_config_t \<Rightarrow> 'e hal \<Rightarrow> (esp_err_t \<times> 'e hal) option" where
  "cam_dma_config pl config h = do {
     (_, c) \<leftarrow> cam_obj h;
     let (ok, c1, e) = ll_cam_dma_sizes pl c (hal_hw h);
     let h1 = put_obj c1 (h\<lparr>hal_hw := e\<rparr>);
     if \<not> ok then Some (ESP_FAIL, h1)
     else if dma_node_buffer_size c1 = 0 \<or> dma_half_buffer_size c1 = 0 then None
     else do {
       let c2 = c1\<lparr>dma_node_cnt := dma_buffer_size c1 div dma_node_buffer_size c1,
                   frame_copy_cnt := recv_size c1 div dma_half_buffer_size c1,
                   dma_buffer := None, obj_dma := None\<rparr>;
       let n = sz (frame_cnt c2 * sizeof_cam_frame_t pl);
       let (p, h2) = heap_malloc pl MALLOC_CAP_DEFAULT n h1;
       let c3 = c2\<lparr>frames_ptr := p,
                   frames := (case p of None \<Rightarrow> [] | Some _ \<Rightarrow> replicate (n div sizeof_cam_frame_t pl) zero_frame)\<rparr>;
       let h3 = put_obj c3 h2;
       if p = None then Some (ESP_FAIL, h3) else alloc_buffers pl config h3 } }"

subsection \<open>Set-up\<close>

text \<open>A driver object as \<open>calloc\<close> leaves it.\<close>

definition zero_obj :: cam_obj_t where
  "zero_obj =
     \<lparr>dma_bytes_per_item = 0, dma_buffer_size = 0, dma_half_buffer_size = 0, dma_half_buffer_cnt = 0,
      dma_node_buffer_size = 0, dma_node_cnt = 0, frame_copy_cnt = 0, recv_size = 0, fb_size = 0,
      cam_width = 0, cam_height = 0, in_bytes_per_pixel = 0, fb_bytes_per_pixel = 0, frame_cnt = 0,
      jpeg_mode = False, psram_mode = False, swap_data = False, vsync_pin = 0, vsync_invert = False,
      frames = [], frames_ptr = None, dma_buffer = None, obj_dma = None, event_queue = None,
      frame_buffer_queue = None, task_handle = False, cam_state = CAM_STATE_IDLE\<rparr>"

definition cam_init :: "'e plat \<Rightarrow> camera_config_t option \<Rightarrow> 'e hal \<Rightarrow> (esp_err_t \<times> 'e hal) option" where
  "cam_init pl config h = (case config of
     None \<Rightarrow> Some (ESP_ERR_INVALID_ARG, h)
   | Some cfg \<Rightarrow>
       (case heap_malloc pl MALLOC_CAP_DMA (sizeof_cam_obj_t pl) h of
          (None, h1) \<Rightarrow> Some (ESP_ERR_NO_MEM, h1\<lparr>cam_obj := None\<rparr>)
        | (Some a, h1) \<Rightarrow> do {
            let c = zero_obj\<lparr>swap_data := False, vsync_pin := pin_vsync cfg, vsync_invert := True\<rparr>;
            let (r, c1, e) = ll_cam_config pl cfg c (ll_cam_set_pin pl cfg (hal_hw h1));
            let h2 = h1\<lparr>cam_obj := Some (a, c1), hal_hw := e\<rparr>;
            if r = ESP_OK then Some (ESP_OK, h2)
            else do { h3 \<leftarrow> heap_free a h2; Some (ESP_FAIL, h3\<lparr>cam_obj := None\<rparr>) } }))"

text \<open>\<open>xQueueCreate\<close>: the allocation of the kernel and the initialisation of \<open>queue.c\<close>.\<close>

definition queue_create ::
    "'e plat \<Rightarrow> nat \<Rightarrow> nat \<Rightarrow> (int \<Rightarrow> 'a) \<Rightarrow> 'e hal \<Rightarrow> ('a Queue_t option \<times> 'e hal) option" where
  "queue_create pl len item_size mem h = do {
     let (p, h1) = heap_malloc pl portMALLOC (sizeof_Queue_t pl + len * item_size) h;
     q \<leftarrow> xQueueGenericCreate (sizeof_Queue_t pl) len item_size p mem;
     Some (q, h1) }"

text \<open>The handle of a queue is the address of its structure, which stands before its storage.\<close>

definition queue_handle :: "'e plat \<Rightarrow> 'a Queue_t \<Rightarrow> int" where
  "queue_handle pl q = pcHead q - int (sizeof_Queue_t pl)"

definition vQueueDelete :: "'e plat \<Rightarrow> 'a Queue_t \<Rightarrow> 'e hal \<Rightarrow> 'e hal option" where
  "vQueueDelete pl q h = heap_free (queue_handle pl q) h"

subsection \<open>Tear-down\<close>

text \<open>\<open>if (p) release(p);\<close>\<close>

definition if_some :: "('a \<Rightarrow> 'e hal \<Rightarrow> 'e hal option) \<Rightarrow> 'a option \<Rightarrow> 'e hal \<Rightarrow> 'e hal option" where
  "if_some rel p h = (case p of None \<Rightarrow> Some h | Some x \<Rightarrow> rel x h)"

fun free_frames :: "cam_frame_t list \<Rightarrow> nat list \<Rightarrow> 'e hal \<Rightarrow> 'e hal option" where
  "free_frames fs [] h = Some h"
| "free_frames fs (x # xs) h =
     (if x < length fs then do {
        h1 \<leftarrow> heap_free (fb_buf (fb (fs ! x)) - int (fb_offset (fs ! x))) h;
        h2 \<leftarrow> if_some (\<lambda>d. heap_free (fst d)) (fr_dma (fs ! x)) h1;
        free_frames fs xs h2 }
      else None)"

definition cam_deinit :: "'e ll_cam \<Rightarrow> 'e plat \<Rightarrow> 'e hal \<Rightarrow> (esp_err_t \<times> 'e hal) option" where
  "cam_deinit ll pl h = (case cam_obj h of
     None \<Rightarrow> Some (ESP_FAIL, h)
   | Some (a, c) \<Rightarrow> do {
       let h1 = h\<lparr>hal_hw := ll_cam_stop ll (ll_cam_vsync_intr_enable ll False (hal_hw h))\<rparr>;
       let h2 = (if task_handle c then h1\<lparr>tasks := tasks h1 - 1, hal_hw := vTaskDelete pl (hal_hw h1)\<rparr> else h1);
       h3 \<leftarrow> if_some (vQueueDelete pl) (event_queue c) h2;
       h4 \<leftarrow> if_some (vQueueDelete pl) (frame_buffer_queue c) h3;
       let h5 = h4\<lparr>hal_hw := ll_cam_deinit pl (hal_hw h4)\<rparr>;
       h6 \<leftarrow> if_some (\<lambda>d. heap_free (fst d)) (obj_dma c) h5;
       h7 \<leftarrow> if_some (\<lambda>d. heap_free (fst d)) (dma_buffer c) h6;
       h8 \<leftarrow> if_some (\<lambda>p g. do { g1 \<leftarrow> free_frames (frames c) [0..<frame_cnt c] g; heap_free p g1 }) (frames_ptr c) h7;
       h9 \<leftarrow> heap_free a h8;
       Some (ESP_OK, h9\<lparr>cam_obj := None\<rparr>) })"

subsection \<open>Configuration\<close>

text \<open>The sizes \<open>cam_config\<close> derives from the resolution; \<open>w\<close> and \<open>ht\<close> are width and height.\<close>

definition set_sizes :: "'e plat \<Rightarrow> nat \<Rightarrow> nat \<Rightarrow> cam_obj_t \<Rightarrow> cam_obj_t" where
  "set_sizes pl w ht c =
     (if jpeg_mode c then
        let n = (case jpeg_mode_frame_size pl of None \<Rightarrow> sz (w * ht) div 5 | Some k \<Rightarrow> k)
        in c\<lparr>cam_width := w, cam_height := ht, recv_size := n, fb_size := n\<rparr>
      else c\<lparr>cam_width := w, cam_height := ht,
             recv_size := sz (w * ht * in_bytes_per_pixel c), fb_size := sz (w * ht * fb_bytes_per_pixel c)\<rparr>)"

definition event_queue_len :: "cam_obj_t \<Rightarrow> nat" where
  "event_queue_len c = (let n = sz (dma_half_buffer_cnt c + (2 ^ 32 - 1)) in if n = 0 then 1 else n)"

definition frame_queue_len :: "camera_config_t \<Rightarrow> cam_obj_t \<Rightarrow> nat" where
  "frame_queue_len cfg c =
     (if grab_mode cfg = CAMERA_GRAB_LATEST \<and> frame_cnt c > 1 then frame_cnt c - 1 else frame_cnt c)"

text \<open>Everything of \<open>cam_config\<close> after the first failure check: the two queues, the interrupt and the
  task. A failed result is followed by \<open>cam_deinit\<close>.\<close>

definition cam_config_queues :: "'e plat \<Rightarrow> camera_config_t \<Rightarrow> 'e hal \<Rightarrow> (esp_err_t \<times> 'e hal) option" where
  "cam_config_queues pl cfg h = do {
     (_, c) \<leftarrow> cam_obj h;
     (q, h1) \<leftarrow> queue_create pl (event_queue_len c) 4 (evq_init pl) h;
     let c1 = c\<lparr>event_queue := q\<rparr>;
     let h2 = put_obj c1 h1;
     if q = None then Some (ESP_FAIL, h2)
     else do {
       (r, h3) \<leftarrow> queue_create pl (frame_queue_len cfg c1) 4 (fbq_init pl) h2;
       let c2 = c1\<lparr>frame_buffer_queue := r\<rparr>;
       let h4 = put_obj c2 h3;
       if r = None then Some (ESP_FAIL, h4)
       else do {
         let (ret, e) = ll_cam_init_isr pl c2 (hal_hw h4);
         let h5 = h4\<lparr>hal_hw := e\<rparr>;
         if ret \<noteq> ESP_OK then Some (ESP_FAIL, h5)
         else do {
           let (ok, e2) = xTaskCreate pl (hal_hw h5);
           let h6 = h5\<lparr>hal_hw := e2\<rparr>;
           Some (ESP_OK, if ok then (put_obj (c2\<lparr>task_handle := True\<rparr>) h6)\<lparr>tasks := tasks h6 + 1\<rparr> else h6) } } } }"

definition cam_config ::
    "'e ll_cam \<Rightarrow> 'e plat \<Rightarrow> camera_config_t option \<Rightarrow> framesize_t \<Rightarrow> u16 \<Rightarrow> 'e hal \<Rightarrow> (esp_err_t \<times> 'e hal) option"
  where
  "cam_config ll pl config fs sensor_pid h = (case config of
     None \<Rightarrow> Some (ESP_ERR_INVALID_ARG, h)
   | Some cfg \<Rightarrow> do {
       (_, c) \<leftarrow> cam_obj h;
       if fs = FRAMESIZE_INVALID then None
       else do {
         let (_, c1, e) = ll_cam_set_sample_mode pl (pixel_format cfg) (xclk_freq_hz cfg) sensor_pid c (hal_hw h);
         let c2 = c1\<lparr>jpeg_mode := (pixel_format cfg = PIXFORMAT_JPEG),
                     psram_mode := (\<not> target_esp32 pl \<and> xclk_freq_hz cfg = 16000000),
                     frame_cnt := fb_count cfg\<rparr>;
         let c3 = set_sizes pl (unat (ri_width (resolution_at fs))) (unat (ri_height (resolution_at fs))) c2;
         (r1, h1) \<leftarrow> cam_dma_config pl cfg (put_obj c3 (h\<lparr>hal_hw := e\<rparr>));
         (r2, h2) \<leftarrow> (if r1 = ESP_OK then cam_config_queues pl cfg h1 else Some (ESP_FAIL, h1));
         if r2 = ESP_OK then Some (ESP_OK, h2)
         else do { (_, h3) \<leftarrow> cam_deinit ll pl h2; Some (ESP_FAIL, h3) } } })"

subsection \<open>Accounting for the heap\<close>

text \<open>\<open>acct B M h\<close>: the live blocks are those of \<open>B\<close> and, besides, exactly those of the multiset \<open>M\<close>.\<close>

definition acct :: "int set \<Rightarrow> int multiset \<Rightarrow> 'e hal \<Rightarrow> bool" where
  "acct B M h \<longleftrightarrow> finite (live h) \<and> 0 \<notin> live h \<and> B \<subseteq> live h \<and> mset_set (live h - B) = M"

text \<open>What is assumed of the allocator: a block it returns is not NULL and not in use.\<close>

definition alloc_ok :: "'e plat \<Rightarrow> bool" where
  "alloc_ok pl \<longleftrightarrow> (\<forall>caps n L e a e'. heap_alloc pl caps n L e = (Some a, e') \<longrightarrow> a \<notin> L \<and> a \<noteq> 0)"

lemma acct_cong: "live h' = live h \<Longrightarrow> acct B M h' = acct B M h"
  by (simp add: acct_def)

lemma acct_simps [simp]:
  "acct B M (h\<lparr>cam_obj := o'\<rparr>) = acct B M h" "acct B M (h\<lparr>tasks := t\<rparr>) = acct B M h"
  "acct B M (h\<lparr>hal_hw := e\<rparr>) = acct B M h" "acct B M (put_obj c h) = acct B M h"
  by (simp_all add: acct_def put_obj_def)

lemma acct_empty: "acct B {#} h \<Longrightarrow> live h = B"
  by (auto simp: acct_def mset_set_empty_iff)

lemma acct_nonzero: "acct B M h \<Longrightarrow> p \<in># M \<Longrightarrow> p \<noteq> 0 \<and> p \<in> live h - B"
  by (auto simp: acct_def)

lemma acct_free:
  assumes "acct B (add_mset p M) h"
  shows "heap_free p h = Some (h\<lparr>live := live h - {p}\<rparr>) \<and> acct B M (h\<lparr>live := live h - {p}\<rparr>)"
proof -
  have p: "p \<in> live h - B" "p \<noteq> 0" using acct_nonzero [OF assms, of p] by simp_all
  have "finite (live h - B)" using assms by (simp add: acct_def)
  then have "mset_set (live h - B) = add_mset p (mset_set (live h - B - {p}))"
    using p(1) by (rule mset_set.remove)
  moreover have "live h - {p} - B = live h - B - {p}" by blast
  ultimately have "mset_set (live h - {p} - B) = M" using assms by (simp add: acct_def)
  then show ?thesis using assms p by (auto simp: acct_def heap_free_def)
qed

lemma acct_malloc:
  assumes "alloc_ok pl" and "acct B M h" and "heap_malloc pl caps n h = (p, h')"
  shows "acct B (M + (case p of None \<Rightarrow> {#} | Some a \<Rightarrow> {#a#})) h' \<and> tasks h' = tasks h \<and>
    cam_obj h' = cam_obj h \<and> p \<noteq> Some 0"
proof -
  obtain e where a: "heap_alloc pl caps n (live h) (hal_hw h) = (p, e)"
    "h' = h\<lparr>live := live h \<union> set_option p, hal_hw := e\<rparr>"
    using assms(3) by (auto simp: heap_malloc_def split: prod.splits)
  show ?thesis
  proof (cases p)
    case (Some x)
    then have x: "x \<notin> live h" "x \<noteq> 0" using assms(1) a(1) unfolding alloc_ok_def by blast+
    then have "insert x (live h) - B = insert x (live h - B)" using assms(2) by (auto simp: acct_def)
    then have "mset_set (insert x (live h) - B) = add_mset x M" using assms(2) x(1) by (simp add: acct_def)
    then show ?thesis using assms(2) x a(2) Some by (auto simp: acct_def)
  qed (use assms(2) a(2) in \<open>simp add: acct_def\<close>)
qed

subsection \<open>What the driver object points to\<close>

definition ptr_block :: "int \<Rightarrow> int multiset" where
  "ptr_block p = (if p = 0 then {#} else {#p#})"

definition opt_block :: "('a \<Rightarrow> int) \<Rightarrow> 'a option \<Rightarrow> int multiset" where
  "opt_block f p = (case p of None \<Rightarrow> {#} | Some x \<Rightarrow> {#f x#})"

definition frame_blocks :: "cam_frame_t \<Rightarrow> int multiset" where
  "frame_blocks f = ptr_block (fb_buf (fb f) - int (fb_offset f)) + opt_block fst (fr_dma f)"

definition blocks :: "'e plat \<Rightarrow> cam_obj_t \<Rightarrow> int multiset" where
  "blocks pl c = opt_block (queue_handle pl) (event_queue c) + opt_block (queue_handle pl) (frame_buffer_queue c) +
     opt_block fst (obj_dma c) + opt_block fst (dma_buffer c) +
     opt_block id (frames_ptr c) + sum_list (map frame_blocks (frames c))"

lemma opt_block_simps [simp]: "opt_block f None = {#}" "opt_block f (Some x) = {#f x#}"
  by (simp_all add: opt_block_def)

lemma ptr_block_simps [simp]: "ptr_block 0 = {#}" "p \<noteq> 0 \<Longrightarrow> ptr_block p = {#p#}"
  by (simp_all add: ptr_block_def)

lemma malloc_cases:
  assumes "alloc_ok pl" and "acct B M h"
  obtains (fail) h' where "heap_malloc pl caps n h = (None, h')" "acct B M h'" "tasks h' = tasks h"
      "cam_obj h' = cam_obj h"
    | (ok) a h' where "heap_malloc pl caps n h = (Some a, h')" "acct B (add_mset a M) h'" "tasks h' = tasks h"
      "cam_obj h' = cam_obj h" "a \<noteq> 0"
proof (cases "heap_malloc pl caps n h")
  case (Pair p h')
  with acct_malloc [OF assms Pair] show ?thesis by (cases p) (auto intro: fail ok)
qed

text \<open>The descriptors of \<open>allocate_dma_descriptors\<close> fit their block.\<close>

lemma descriptors_cases:
  assumes "alloc_ok pl" and "acct B M h" and "cnt * sizeof_lldesc_t < 2 ^ 32"
  obtains (fail) h' where "allocate_dma_descriptors pl cnt n buf h = Some (None, h')" "acct B M h'"
      "tasks h' = tasks h" "cam_obj h' = cam_obj h"
    | (ok) a h' where "allocate_dma_descriptors pl cnt n buf h
        = Some (Some (a, map (dma_descriptor a cnt (n mod 2 ^ 16) buf) [0..<cnt]), h')"
      "acct B (add_mset a M) h'" "tasks h' = tasks h" "cam_obj h' = cam_obj h"
proof -
  have [simp]: "sz (cnt * sizeof_lldesc_t) = cnt * sizeof_lldesc_t" using assms(3) by (simp add: sz_def)
  show ?thesis
    by (cases rule: malloc_cases [OF assms(1,2), where caps = MALLOC_CAP_DMA and n = "cnt * sizeof_lldesc_t"])
      (auto simp: allocate_dma_descriptors_def Let_def intro: fail ok)
qed

lemma put_obj_simps [simp]:
  "cam_obj (put_obj c h) = map_option (\<lambda>(a, _). (a, c)) (cam_obj h)" "live (put_obj c h) = live h"
  "tasks (put_obj c h) = tasks h" "hal_hw (put_obj c h) = hal_hw h"
  by (simp_all add: put_obj_def)

text \<open>What is known of a frame for which \<open>alloc_frame\<close> succeeded.\<close>

definition frame_made :: "nat \<Rightarrow> cam_obj_t \<Rightarrow> cam_frame_t \<Rightarrow> bool" where
  "frame_made n c f \<longleftrightarrow> en f \<and> fb_len (fb f) = 0 \<and>
     (if psram_mode c then length (fb_mem (fb f)) = n - fb_offset f \<and>
        (\<exists>d. fr_dma f = Some (d, map (dma_descriptor d (dma_node_cnt c) (dma_node_buffer_size c mod 2 ^ 16)
                                   (fb_buf (fb f))) [0..<dma_node_cnt c]))
      else length (fb_mem (fb f)) = n \<and> fb_offset f = 0 \<and> fr_dma f = None)"

lemma alloc_frame_spec:
  assumes "alloc_ok pl" and "cam_obj h = Some (a, c)" and "x < length (frames c)" and "acct B M h"
    and "dma_node_cnt c * sizeof_lldesc_t < 2 ^ 32" and "fb_len (fb (frames c ! x)) = 0"
  shows "\<exists>ok h' f. alloc_frame pl caps al n x h = Some (ok, h') \<and>
    cam_obj h' = Some (a, c\<lparr>frames := (frames c)[x := f]\<rparr>) \<and> tasks h' = tasks h \<and>
    acct B (M + frame_blocks f) h' \<and> (ok \<longrightarrow> frame_made n c f)"
proof -
  define f0 where "f0 = (frames c ! x)\<lparr>fr_dma := None, fb_offset := 0, en := False\<rparr>"
  have result: ?thesis if "alloc_frame pl caps al n x h = Some (ok, put_obj (c\<lparr>frames := (frames c)[x := f]\<rparr>) h1)"
    "cam_obj h1 = cam_obj h" "tasks h1 = tasks h" "acct B (M + frame_blocks f) h1" "ok \<longrightarrow> frame_made n c f" for ok f h1
    using that assms(2) by (intro exI [of _ ok] exI [of _ "put_obj (c\<lparr>frames := (frames c)[x := f]\<rparr>) h1"] exI [of _ f]) simp
  note run = alloc_frame_def set_frame_def set_en_def assms(2,3)
  from assms(1,4) show ?thesis
  proof (cases rule: malloc_cases [where caps = caps and n = n])
    case (fail h1)
    show ?thesis
      by (rule result [of False "fb_update (\<lambda>b. b\<lparr>fb_buf := 0, fb_mem := []\<rparr>) f0" h1])
        (use fail in \<open>simp_all add: run f0_def frame_blocks_def\<close>)
  next
    case (ok p h1)
    note p = ok
    define f1 where "f1 = fb_update (\<lambda>b. b\<lparr>fb_buf := p, fb_mem := fresh_bytes pl p n\<rparr>) f0"
    show ?thesis
    proof (cases "psram_mode c")
      case False
      show ?thesis
        by (rule result [of True "f1\<lparr>en := True\<rparr>" h1])
          (use False p assms(6) in \<open>simp_all add: run f0_def f1_def frame_blocks_def frame_made_def fresh_bytes_def\<close>)
    next
      case True
      define o1 where "o1 = align_offset al p"
      define f2 where "f2 = f1\<lparr>fb_offset := o1, fb := (fb f1)\<lparr>fb_buf := p + int o1, fb_mem := drop o1 (fb_mem (fb f1))\<rparr>\<rparr>"
      from assms(1) p(2) assms(5) show ?thesis
      proof (cases rule: descriptors_cases [where n = "dma_node_buffer_size c" and buf = "p + int o1"])
        case (fail h2)
        show ?thesis
          by (rule result [of False "f2\<lparr>fr_dma := None\<rparr>" h2])
            (use fail True p in \<open>simp_all add: run f0_def f1_def f2_def o1_def frame_blocks_def Let_def\<close>)
      next
        case (ok d h2)
        show ?thesis
          by (rule result [of True "f2\<lparr>fr_dma := Some (d, map (dma_descriptor d (dma_node_cnt c)
                (dma_node_buffer_size c mod 2 ^ 16) (p + int o1)) [0..<dma_node_cnt c]), en := True\<rparr>" h2])
            (use ok True p assms(6) in \<open>simp_all add: run f0_def f1_def f2_def o1_def frame_blocks_def Let_def
               frame_made_def fresh_bytes_def\<close>)
      qed
    qed
  qed
qed


lemma sum_blocks_update:
  assumes "x < length fs" and "frame_blocks (fs ! x) = {#}"
  shows "sum_list (map frame_blocks (fs[x := f])) = sum_list (map frame_blocks fs) + frame_blocks f"
  using assms by (induction fs arbitrary: x) (auto simp: nth_Cons ac_simps split: nat.splits)

lemma frame_made_simps [simp]: "frame_made n (c\<lparr>frames := fs\<rparr>) f = frame_made n c f"
  by (simp add: frame_made_def)

lemma alloc_frames_spec:
  assumes "alloc_ok pl" and "cam_obj h = Some (a, c)" and "\<forall>x \<in> set xs. x < length (frames c) \<and> frames c ! x = zero_frame"
    and "acct B (M + sum_list (map frame_blocks (frames c))) h" and "distinct xs"
    and "dma_node_cnt c * sizeof_lldesc_t < 2 ^ 32"
  shows "\<exists>ok h' fs. alloc_frames pl caps al n xs h = Some (ok, h') \<and>
    cam_obj h' = Some (a, c\<lparr>frames := fs\<rparr>) \<and> tasks h' = tasks h \<and> length fs = length (frames c) \<and>
    acct B (M + sum_list (map frame_blocks fs)) h' \<and> (ok \<longrightarrow> (\<forall>x \<in> set xs. frame_made n c (fs ! x))) \<and>
    (\<forall>x. x \<notin> set xs \<longrightarrow> fs ! x = frames c ! x)"
  using assms(2-6)
proof (induction xs arbitrary: h c)
  case Nil
  then show ?case by (intro exI [of _ True] exI [of _ h] exI [of _ "frames c"]) simp
next
  case (Cons x xs)
  have z: "frame_blocks zero_frame = {#}" "fb_len (fb zero_frame) = 0"
    by (simp_all add: zero_frame_def frame_blocks_def)
  have x: "x < length (frames c)" "frames c ! x = zero_frame" using Cons.prems(2) by simp_all
  from alloc_frame_spec [OF assms(1) Cons.prems(1) x(1) Cons.prems(3,5), of caps al n] x(2) z obtain ok h1 f where
    1: "alloc_frame pl caps al n x h = Some (ok, h1)"
      "cam_obj h1 = Some (a, c\<lparr>frames := (frames c)[x := f]\<rparr>)" "tasks h1 = tasks h"
      "acct B (M + sum_list (map frame_blocks (frames c)) + frame_blocks f) h1" "ok \<longrightarrow> frame_made n c f" by auto
  let ?c = "c\<lparr>frames := (frames c)[x := f]\<rparr>"
  have a1: "acct B (M + sum_list (map frame_blocks (frames ?c))) h1"
    using 1(4) sum_blocks_update [OF x(1)] x(2) z by (simp add: add.assoc)
  show ?case
  proof (cases ok)
    case True
    have "\<exists>ok h' fs. alloc_frames pl caps al n xs h1 = Some (ok, h') \<and>
      cam_obj h' = Some (a, ?c\<lparr>frames := fs\<rparr>) \<and> tasks h' = tasks h1 \<and> length fs = length (frames ?c) \<and>
      acct B (M + sum_list (map frame_blocks fs)) h' \<and> (ok \<longrightarrow> (\<forall>x \<in> set xs. frame_made n ?c (fs ! x))) \<and>
      (\<forall>x. x \<notin> set xs \<longrightarrow> fs ! x = frames ?c ! x)"
      by (rule Cons.IH [OF 1(2) _ a1]) (use Cons.prems in \<open>auto simp: nth_list_update\<close>)
    then obtain ok' h' fs where 2: "alloc_frames pl caps al n xs h1 = Some (ok', h')"
      "cam_obj h' = Some (a, ?c\<lparr>frames := fs\<rparr>)" "tasks h' = tasks h1" "length fs = length (frames ?c)"
      "acct B (M + sum_list (map frame_blocks fs)) h'" "ok' \<longrightarrow> (\<forall>x \<in> set xs. frame_made n ?c (fs ! x))"
      "\<forall>y. y \<notin> set xs \<longrightarrow> fs ! y = frames ?c ! y" by blast
    have "fs ! x = f" using 2(7) Cons.prems(4) x(1) by simp
    then have "ok' \<longrightarrow> (\<forall>y \<in> set (x # xs). frame_made n c (fs ! y))" using 1(5) 2(6) True by simp
    moreover have "\<forall>y. y \<notin> set (x # xs) \<longrightarrow> fs ! y = frames c ! y" using 2(7) by simp
    ultimately show ?thesis using 1(1,3) 2(1-5) True
      by (intro exI [of _ ok'] exI [of _ h'] exI [of _ fs]) simp
  next
    case False
    with 1 a1 show ?thesis
      by (intro exI [of _ False] exI [of _ h1] exI [of _ "(frames c)[x := f]"]) (simp add: nth_list_update)
  qed
qed


text \<open>An object that points to nothing yet.\<close>

definition bare :: "cam_obj_t \<Rightarrow> bool" where
  "bare c \<longleftrightarrow> event_queue c = None \<and> frame_buffer_queue c = None \<and> obj_dma c = None \<and> dma_buffer c = None \<and>
     frames_ptr c = None \<and> frames c = [] \<and> \<not> task_handle c"

lemma blocks_bare: "bare c \<Longrightarrow> blocks pl c = {#}"
  by (simp add: bare_def blocks_def)

definition ring_of :: "cam_obj_t \<Rightarrow> int \<Rightarrow> int \<Rightarrow> lldesc_t list" where
  "ring_of c p d = map (dma_descriptor d (dma_node_cnt c) (dma_node_buffer_size c mod 2 ^ 16) p) [0..<dma_node_cnt c]"

lemma dma_buffer_spec:
  assumes "alloc_ok pl" and "cam_obj h = Some (a, c)" and "acct B M h" and "dma_node_cnt c * sizeof_lldesc_t < 2 ^ 32"
    and none: "dma_buffer c = None" "obj_dma c = None"
  shows "\<exists>r h' b d. alloc_dma_buffer pl h = Some (r, h') \<and> tasks h' = tasks h \<and>
    cam_obj h' = Some (a, c\<lparr>dma_buffer := b, obj_dma := d\<rparr>) \<and> acct B (M + opt_block fst b + opt_block fst d) h' \<and>
    (r = ESP_OK \<longrightarrow> (\<exists>p q. b = Some (p, fresh_bytes pl p (dma_buffer_size c)) \<and> d = Some (q, ring_of c p q))) \<and>
    (r = ESP_OK \<or> r = ESP_FAIL)"
proof -
  have self: "c\<lparr>dma_buffer := None, obj_dma := None\<rparr> = c" using none by simp
  from assms(1,3) show ?thesis
  proof (cases rule: malloc_cases [where caps = MALLOC_CAP_DMA and n = "dma_buffer_size c"])
    case (fail h1)
    then show ?thesis using assms(2) self
      by (intro exI [of _ "- 1"] exI [of _ h1] exI [of _ None]) (simp add: alloc_dma_buffer_def)
  next
    case (ok p h1)
    note p = ok
    let ?b = "Some (p, fresh_bytes pl p (dma_buffer_size c))"
    from assms(1) p(2) assms(4) show ?thesis
    proof (cases rule: descriptors_cases [where n = "dma_node_buffer_size c" and buf = p])
      case (fail h2)
      let ?h = "put_obj (c\<lparr>dma_buffer := ?b, obj_dma := None\<rparr>) h2"
      have "alloc_dma_buffer pl h = Some (- 1, ?h)" using assms(2) p(1) fail(1) by (simp add: alloc_dma_buffer_def)
      with fail p assms(2) show ?thesis
        by (intro exI [of _ "- 1"] exI [of _ ?h] exI [of _ ?b] exI [of _ None]) simp
    next
      case (ok q h2)
      let ?d = "Some (q, ring_of c p q)"
      let ?h = "put_obj (c\<lparr>dma_buffer := ?b, obj_dma := ?d\<rparr>) h2"
      have "alloc_dma_buffer pl h = Some (0, ?h)" using assms(2) p(1) ok(1) by (simp add: alloc_dma_buffer_def ring_of_def)
      with ok p assms(2) show ?thesis
        by (intro exI [of _ 0] exI [of _ ?h] exI [of _ ?b] exI [of _ ?d]) (simp add: add_mset_commute)
    qed
  qed
qed

text \<open>
  The contract of the low-level driver's configuration calls: they leave the allocations of the
  object alone, the DMA sizes are not zero when they succeed, and the arrays derived from them can be
  addressed.
\<close>

definition ll_conf_ok :: "'e plat \<Rightarrow> bool" where
  "ll_conf_ok pl \<longleftrightarrow>
     (\<forall>cfg c e r c' e'. bare c \<longrightarrow> ll_cam_config pl cfg c e = (r, c', e') \<longrightarrow> bare c') \<and>
     (\<forall>pf hz pid c e r c' e'. bare c \<longrightarrow> ll_cam_set_sample_mode pl pf hz pid c e = (r, c', e') \<longrightarrow> bare c') \<and>
     (\<forall>c e ok c' e'. bare c \<longrightarrow> ll_cam_dma_sizes pl c e = (ok, c', e') \<longrightarrow>
        bare c' \<and> frame_cnt c' = frame_cnt c \<and> psram_mode c' = psram_mode c \<and> jpeg_mode c' = jpeg_mode c \<and>
        fb_size c' = fb_size c \<and> recv_size c' = recv_size c \<and>
        (ok \<longrightarrow> 0 < dma_node_buffer_size c' \<and> 0 < dma_half_buffer_size c' \<and> 0 < dma_half_buffer_cnt c' \<and>
           dma_half_buffer_cnt c' * 4 \<le> SIZE_MAX - sizeof_Queue_t pl \<and> dma_buffer_size c' * sizeof_lldesc_t < 2 ^ 32))"

definition built :: "'e plat \<Rightarrow> cam_obj_t \<Rightarrow> bool" where
  "built pl c \<longleftrightarrow> (\<exists>n. \<forall>f \<in> set (frames c). frame_made n c f \<and> (\<not> psram_mode c \<longrightarrow> n = sz (fb_size c))) \<and>
     (\<not> psram_mode c \<longrightarrow> (\<exists>p q. dma_buffer c = Some (p, fresh_bytes pl p (dma_buffer_size c)) \<and>
        obj_dma c = Some (q, ring_of c p q)))"

text \<open>The settings of an object, apart from what \<open>cam_dma_config\<close> derives from them.\<close>

definition cfg_of :: "cam_obj_t \<Rightarrow> nat list \<times> bool \<times> bool" where
  "cfg_of c = ([dma_bytes_per_item c, dma_buffer_size c, dma_half_buffer_size c, dma_half_buffer_cnt c,
     dma_node_buffer_size c, recv_size c, fb_size c, in_bytes_per_pixel c, fb_bytes_per_pixel c, frame_cnt c],
     jpeg_mode c, psram_mode c)"

text \<open>The books of a driver object at \<open>a\<close>: it owns every live block outside \<open>B\<close>, and it has a task if
  there is one more than \<open>t\<close>.\<close>

definition books :: "'e plat \<Rightarrow> int set \<Rightarrow> nat \<Rightarrow> int \<Rightarrow> cam_obj_t \<Rightarrow> 'e hal \<Rightarrow> bool" where
  "books pl B t a c h \<longleftrightarrow> cam_obj h = Some (a, c) \<and> acct B (add_mset a (blocks pl c)) h \<and>
     tasks h = t + of_bool (task_handle c) \<and>
     (if frames_ptr c = None then frames c = [] else length (frames c) = frame_cnt c)"

definition dma_config_post where
  "dma_config_post pl B t a c1 ok r c' h' \<longleftrightarrow> books pl B t a c' h' \<and> cfg_of c' = cfg_of c1 \<and>
     event_queue c' = None \<and> frame_buffer_queue c' = None \<and> \<not> task_handle c' \<and>
     (r = ESP_OK \<longrightarrow> ok \<and> frames_ptr c' \<noteq> None \<and> built pl c') \<and> (r = ESP_OK \<or> r = ESP_FAIL)"

lemma sum_list_empty: "sum_list (replicate n {#}) = {#}"
  by (induction n) simp_all

lemma alloc_buffers_spec:
  assumes pl: "alloc_ok pl" and h: "books pl B t a c h" "dma_buffer c = None" "obj_dma c = None" "frames_ptr c = Some fp"
    and z: "\<forall>f \<in> set (frames c). f = zero_frame" and nc: "dma_node_cnt c * sizeof_lldesc_t < 2 ^ 32"
  shows "\<exists>r h' c'. alloc_buffers pl cfg h = Some (r, h') \<and> books pl B t a c' h' \<and> cfg_of c' = cfg_of c \<and>
    event_queue c' = event_queue c \<and> frame_buffer_queue c' = frame_buffer_queue c \<and> task_handle c' = task_handle c \<and>
    frames_ptr c' = frames_ptr c \<and> (r = ESP_OK \<longrightarrow> built pl c') \<and> (r = ESP_OK \<or> r = ESP_FAIL)"
proof -
  let ?caps = "if fb_location cfg = CAMERA_FB_IN_DRAM then MALLOC_CAP_8BIT_INTERNAL else MALLOC_CAP_8BIT_SPIRAM"
  let ?al = "frame_dma_align pl c" and ?as = "frame_alloc_size pl c" and ?xs = "[0..<frame_cnt c]"
  have obj: "cam_obj h = Some (a, c)" and len: "length (frames c) = frame_cnt c" and t: "tasks h = t + of_bool (task_handle c)"
    using h(1,4) by (simp_all add: books_def)
  let ?M = "add_mset a (opt_block (queue_handle pl) (event_queue c) + opt_block (queue_handle pl) (frame_buffer_queue c) +
     opt_block fst (obj_dma c) + opt_block fst (dma_buffer c) + opt_block id (frames_ptr c))"
  have M: "add_mset a (blocks pl c') = ?M + sum_list (map frame_blocks (frames c'))" if
    "c' = c\<lparr>frames := fs\<rparr>" for c' fs using that by (simp add: blocks_def)
  have "acct B (?M + sum_list (map frame_blocks (frames c))) h" using h(1) M [of c "frames c"] by (simp add: books_def)
  with z len have "\<exists>ok h' fs. alloc_frames pl ?caps ?al ?as ?xs h = Some (ok, h') \<and>
    cam_obj h' = Some (a, c\<lparr>frames := fs\<rparr>) \<and> tasks h' = tasks h \<and> length fs = length (frames c) \<and>
    acct B (?M + sum_list (map frame_blocks fs)) h' \<and> (ok \<longrightarrow> (\<forall>x \<in> set ?xs. frame_made ?as c (fs ! x))) \<and>
    (\<forall>x. x \<notin> set ?xs \<longrightarrow> fs ! x = frames c ! x)"
    by (intro alloc_frames_spec [OF pl obj]) (use nc in \<open>simp_all\<close>)
  then obtain ok h4 fs where f: "alloc_frames pl ?caps ?al ?as ?xs h = Some (ok, h4)"
    "cam_obj h4 = Some (a, c\<lparr>frames := fs\<rparr>)" "tasks h4 = tasks h" "length fs = length (frames c)"
    "acct B (?M + sum_list (map frame_blocks fs)) h4" "ok \<longrightarrow> (\<forall>x \<in> set ?xs. frame_made ?as c (fs ! x))" by blast
  have run: "alloc_buffers pl cfg h =
      (if \<not> ok then Some (- 1, h4) else if \<not> psram_mode c then alloc_dma_buffer pl h4 else Some (0, h4))"
    using obj f(1) by (simp add: alloc_buffers_def)
  let ?c4 = "c\<lparr>frames := fs\<rparr>"
  have b4: "books pl B t a ?c4 h4" using f(2-5) t len h(4) M [of ?c4 fs] by (auto simp: books_def)
  have made: "\<forall>f \<in> set fs. frame_made ?as c f \<and> (\<not> psram_mode c \<longrightarrow> ?as = sz (fb_size c))" if ok
    using f(4,6) that len by (auto simp: in_set_conv_nth frame_alloc_size_def frame_dma_align_def)
  show ?thesis
  proof (cases "ok \<and> \<not> psram_mode c")
    case False
    have "built pl ?c4" if ok using made that False unfolding built_def by auto
    with run False b4 show ?thesis
      by (intro exI [of _ "if ok then 0 else - 1"] exI [of _ h4] exI [of _ ?c4]) (auto simp: cfg_of_def)
  next
    case True
    have "\<exists>r h' b d. alloc_dma_buffer pl h4 = Some (r, h') \<and> tasks h' = tasks h4 \<and>
      cam_obj h' = Some (a, ?c4\<lparr>dma_buffer := b, obj_dma := d\<rparr>) \<and>
      acct B (add_mset a (blocks pl ?c4) + opt_block fst b + opt_block fst d) h' \<and>
      (r = ESP_OK \<longrightarrow> (\<exists>p q. b = Some (p, fresh_bytes pl p (dma_buffer_size ?c4)) \<and> d = Some (q, ring_of ?c4 p q))) \<and>
      (r = ESP_OK \<or> r = ESP_FAIL)"
      by (rule dma_buffer_spec [OF pl]) (use b4 nc h in \<open>simp_all add: books_def\<close>)
    then obtain r h5 b d where g: "alloc_dma_buffer pl h4 = Some (r, h5)" "tasks h5 = tasks h4"
      "cam_obj h5 = Some (a, ?c4\<lparr>dma_buffer := b, obj_dma := d\<rparr>)"
      "acct B (add_mset a (blocks pl ?c4) + opt_block fst b + opt_block fst d) h5"
      "r = ESP_OK \<longrightarrow> (\<exists>p q. b = Some (p, fresh_bytes pl p (dma_buffer_size ?c4)) \<and> d = Some (q, ring_of ?c4 p q))"
      "r = ESP_OK \<or> r = ESP_FAIL" by blast
    let ?c5 = "?c4\<lparr>dma_buffer := b, obj_dma := d\<rparr>"
    have "add_mset a (blocks pl ?c4) + opt_block fst b + opt_block fst d = add_mset a (blocks pl ?c5)"
      using h(2,3) by (simp add: blocks_def ac_simps)
    then have b5: "books pl B t a ?c5 h5" using b4 g(2-4) h(4) by (simp add: books_def)
    have "\<forall>f \<in> set fs. frame_made ?as ?c5 f \<and> (\<not> psram_mode ?c5 \<longrightarrow> ?as = sz (fb_size ?c5))"
      using made True by (simp add: frame_made_def)
    then have "built pl ?c5" if "r = ESP_OK"
      using g(5) that unfolding built_def by (auto simp: ring_of_def)
    with b5 run True g(1,6) show ?thesis
      by (intro exI [of _ r] exI [of _ h5] exI [of _ ?c5]) (auto simp: cfg_of_def)
  qed
qed

lemma dma_config_spec:
  assumes pl: "alloc_ok pl" "ll_conf_ok pl" "0 < sizeof_cam_frame_t pl"
    and h: "cam_obj h = Some (a, c)" "bare c" "acct B {#a#} h"
    and n: "frame_cnt c * sizeof_cam_frame_t pl < 2 ^ 32"
  shows "\<exists>r h' c' c1 e ok. cam_dma_config pl cfg h = Some (r, h') \<and> ll_cam_dma_sizes pl c (hal_hw h) = (ok, c1, e) \<and>
    dma_config_post pl B (tasks h) a c1 ok r c' h'"
proof -
  obtain ok c1 e where sizes: "ll_cam_dma_sizes pl c (hal_hw h) = (ok, c1, e)" by (metis prod_cases3)
  then have c1: "bare c1" "frame_cnt c1 = frame_cnt c" "psram_mode c1 = psram_mode c"
    "ok \<Longrightarrow> 0 < dma_node_buffer_size c1" "ok \<Longrightarrow> 0 < dma_half_buffer_size c1"
    "ok \<Longrightarrow> dma_buffer_size c1 * sizeof_lldesc_t < 2 ^ 32"
    using pl(2) h(2) unfolding ll_conf_ok_def by blast+
  let ?P = "dma_config_post pl B (tasks h) a c1 ok"
  let ?h1 = "put_obj c1 (h\<lparr>hal_hw := e\<rparr>)"
  let ?c2 = "c1\<lparr>dma_node_cnt := dma_buffer_size c1 div dma_node_buffer_size c1,
                frame_copy_cnt := recv_size c1 div dma_half_buffer_size c1, dma_buffer := None, obj_dma := None\<rparr>"
  let ?n = "frame_cnt c * sizeof_cam_frame_t pl"
  have "\<exists>r h' c'. cam_dma_config pl cfg h = Some (r, h') \<and> ?P r c' h'"
  proof (cases ok)
    case False
    have "cam_dma_config pl cfg h = Some (- 1, ?h1)" using h(1) sizes False by (simp add: cam_dma_config_def)
    moreover have "?P (- 1) c1 ?h1" using h c1(1) blocks_bare [OF c1(1), of pl]
      by (simp add: dma_config_post_def books_def bare_def)
    ultimately show ?thesis by blast
  next
    case True
    have "acct B {#a#} ?h1" using h(3) by simp
    with pl(1) show ?thesis
    proof (cases rule: malloc_cases [where caps = MALLOC_CAP_DEFAULT and n = ?n])
      case (fail h2)
      let ?c3 = "?c2\<lparr>frames_ptr := None, frames := []\<rparr>"
      have "cam_dma_config pl cfg h = Some (- 1, put_obj ?c3 h2)"
        using h(1) sizes True fail(1) c1(2,4,5) n by (simp add: cam_dma_config_def sz_def)
      moreover have "?P (- 1) ?c3 (put_obj ?c3 h2)" using fail h(1) c1(1)
        by (simp add: dma_config_post_def books_def bare_def cfg_of_def blocks_def)
      ultimately show ?thesis by blast
    next
      case (ok p h2)
      note p = ok
      let ?c3 = "?c2\<lparr>frames_ptr := Some p, frames := replicate (frame_cnt c) zero_frame\<rparr>"
      have "dma_buffer_size c1 div dma_node_buffer_size c1 * sizeof_lldesc_t \<le> dma_buffer_size c1 * sizeof_lldesc_t"
        by (intro mult_right_mono) simp_all
      then have "dma_buffer_size c1 div dma_node_buffer_size c1 * sizeof_lldesc_t < 2 ^ 32"
        using c1(6) [OF True] by (rule le_less_trans)
      then have nc: "dma_node_cnt ?c3 * sizeof_lldesc_t < 2 ^ 32" by simp
      have "frame_blocks zero_frame = {#}" by (simp add: frame_blocks_def zero_frame_def)
      then have "books pl B (tasks h) a ?c3 (put_obj ?c3 h2)" using p h(1) c1(1,2)
        by (simp add: books_def blocks_def bare_def add_mset_commute sum_list_empty)
      then have "\<exists>r h' c'. alloc_buffers pl cfg (put_obj ?c3 h2) = Some (r, h') \<and> books pl B (tasks h) a c' h' \<and>
        cfg_of c' = cfg_of ?c3 \<and> event_queue c' = event_queue ?c3 \<and> frame_buffer_queue c' = frame_buffer_queue ?c3 \<and>
        task_handle c' = task_handle ?c3 \<and> frames_ptr c' = frames_ptr ?c3 \<and> (r = ESP_OK \<longrightarrow> built pl c') \<and>
        (r = ESP_OK \<or> r = ESP_FAIL)"
        by (rule alloc_buffers_spec [OF pl(1)]) (use nc in simp_all)
      then obtain r h' c' where r: "alloc_buffers pl cfg (put_obj ?c3 h2) = Some (r, h')"
        "books pl B (tasks h) a c' h'" "cfg_of c' = cfg_of ?c3" "event_queue c' = event_queue ?c3"
        "frame_buffer_queue c' = frame_buffer_queue ?c3" "task_handle c' = task_handle ?c3"
        "frames_ptr c' = frames_ptr ?c3" "r = ESP_OK \<longrightarrow> built pl c'" "r = ESP_OK \<or> r = ESP_FAIL" by blast
      have "cam_dma_config pl cfg h = alloc_buffers pl cfg (put_obj ?c3 h2)"
        using h(1) sizes True p(1) c1(2,4,5) n pl(3) by (simp add: cam_dma_config_def sz_def)
      with r c1(1) True have "cam_dma_config pl cfg h = Some (r, h') \<and> ?P r c' h'"
        by (auto simp: dma_config_post_def bare_def cfg_of_def)
      then show ?thesis by blast
    qed
  qed
  then show ?thesis using sizes by blast
qed


lemma create_head: "xQueueGenericCreate szq n k (Some a) mem = Some (Some q) \<Longrightarrow> 0 < k \<Longrightarrow>
    pcHead q = a + int szq \<and> uxItemSize q = k"
  by (auto simp: xQueueGenericCreate_def prvInitialiseNewQueue_def xQueueGenericReset_def Let_def split: if_splits)

lemma queue_create_cases:
  assumes "alloc_ok pl" and "acct B M h" and n: "0 < n" "n * 4 \<le> SIZE_MAX - sizeof_Queue_t pl"
  obtains (fail) h' where "queue_create pl n 4 mem h = Some (None, h')" "acct B M h'" "tasks h' = tasks h"
      "cam_obj h' = cam_obj h"
    | (ok) q h' where "queue_create pl n 4 mem h = Some (Some q, h')" "acct B (add_mset (queue_handle pl q) M) h'"
      "tasks h' = tasks h" "cam_obj h' = cam_obj h" "q_ok q" "q_items q = []" "uxLength q * uxItemSize q \<le> SIZE_MAX"
  using assms(1,2)
proof (cases rule: malloc_cases [where caps = portMALLOC and n = "sizeof_Queue_t pl + n * 4"])
  case (fail h')
  have "4 \<le> SIZE_MAX div n" using n by (simp add: less_eq_div_iff_mult_less_eq)
  with fail n show ?thesis by (intro that(1) [of h']) (simp_all add: queue_create_def xQueueGenericCreate_def)
next
  case (ok a h')
  from q_create [OF n(1) _ n(2), of a mem] obtain q where
    q: "xQueueGenericCreate (sizeof_Queue_t pl) n 4 (Some a) mem = Some (Some q)" "q_ok q" "q_items q = []" "uxLength q = n"
    by auto
  then have "queue_handle pl q = a" "uxLength q * uxItemSize q \<le> SIZE_MAX"
    using create_head [OF q(1)] n(2) by (simp_all add: queue_handle_def)
  with ok q show ?thesis by (intro that(2) [of q h']) (simp_all add: queue_create_def)
qed

lemma config_queues_spec:
  assumes pl: "alloc_ok pl" and h: "books pl B t a c h" "event_queue c = None" "frame_buffer_queue c = None" "\<not> task_handle c"
    and n: "0 < dma_half_buffer_cnt c" "dma_half_buffer_cnt c * 4 \<le> SIZE_MAX - sizeof_Queue_t pl"
      "0 < frame_cnt c" "frame_cnt c * 4 \<le> SIZE_MAX - sizeof_Queue_t pl"
  shows "\<exists>r h' q1 q2 b. cam_config_queues pl cfg h = Some (r, h') \<and>
    books pl B t a (c\<lparr>event_queue := q1, frame_buffer_queue := q2, task_handle := b\<rparr>) h' \<and>
    (r = ESP_OK \<longrightarrow> (\<exists>p q. q1 = Some p \<and> q2 = Some q \<and> q_ok p \<and> q_ok q \<and> q_items q = [] \<and>
       uxLength p * uxItemSize p \<le> SIZE_MAX)) \<and> (r = ESP_OK \<or> r = ESP_FAIL)"
proof -
  let ?n1 = "event_queue_len c" and ?n2 = "frame_queue_len cfg c"
  let ?c = "\<lambda>q1 q2 b. c\<lparr>event_queue := q1, frame_buffer_queue := q2, task_handle := b\<rparr>"
  have obj: "cam_obj h = Some (a, c)" and acct: "acct B (add_mset a (blocks pl c)) h" and tk: "tasks h = t"
    using h by (simp_all add: books_def)
  have "dma_half_buffer_cnt c < 2 ^ 32" using n(2) by simp
  then have "sz (dma_half_buffer_cnt c + (2 ^ 32 - 1)) = dma_half_buffer_cnt c - 1"
    using n(1) by (cases "dma_half_buffer_cnt c") (simp_all add: sz_def)
  then have "event_queue_len c = (if dma_half_buffer_cnt c = 1 then 1 else dma_half_buffer_cnt c - 1)"
    using n(1) by (auto simp: event_queue_len_def)
  then have i1: "0 < ?n1" "?n1 * 4 \<le> SIZE_MAX - sizeof_Queue_t pl" using n(1,2) by (simp_all split: if_splits)
  have i2: "0 < ?n2" "?n2 * 4 \<le> SIZE_MAX - sizeof_Queue_t pl" using n(3,4) by (auto simp: frame_queue_len_def)
  have n1: "frame_queue_len cfg (c\<lparr>event_queue := p\<rparr>) = ?n2" for p by (simp add: frame_queue_len_def)
  have self: "c\<lparr>event_queue := p, frame_buffer_queue := None\<rparr> = c\<lparr>event_queue := p\<rparr>"
    "c\<lparr>event_queue := p, frame_buffer_queue := q, task_handle := False\<rparr> = c\<lparr>event_queue := p, frame_buffer_queue := q\<rparr>"
    "c\<lparr>event_queue := p, task_handle := False\<rparr> = c\<lparr>event_queue := p\<rparr>"
    for p q using h(3,4) by (cases c, simp)+
  from pl acct i1 show ?thesis
  proof (cases rule: queue_create_cases [where mem = "evq_init pl"])
    case (fail h1)
    have "cam_config_queues pl cfg h = Some (- 1, put_obj (?c None None False) h1)"
      using obj fail(1) n1 by (simp add: cam_config_queues_def Let_def self)
    moreover have "books pl B t a (?c None None False) (put_obj (?c None None False) h1)"
      using fail h by (simp add: books_def blocks_def)
    ultimately show ?thesis by (intro exI [of _ "- 1"] exI [of _ "put_obj (?c None None False) h1"] exI conjI) simp_all
  next
    case (ok q1 h1)
    note 1 = ok
    let ?h2 = "put_obj (c\<lparr>event_queue := Some q1\<rparr>) h1"
    have "acct B (add_mset (queue_handle pl q1) (add_mset a (blocks pl c))) ?h2" using 1(2) by simp
    with pl show ?thesis using i2
    proof (cases rule: queue_create_cases [where mem = "fbq_init pl"])
      case (fail h2)
      let ?h4 = "put_obj (?c (Some q1) None False) h2"
      have "cam_config_queues pl cfg h = Some (- 1, ?h4)"
        using obj 1(1) fail(1) n1 by (simp add: cam_config_queues_def Let_def self)
      moreover have "books pl B t a (?c (Some q1) None False) ?h4"
        using 1 fail h by (simp add: books_def blocks_def add_mset_commute)
      ultimately show ?thesis by (intro exI [of _ "- 1"] exI [of _ ?h4] exI conjI) simp_all
    next
      case (ok q2 h2)
      note 2 = ok
      let ?c2 = "?c (Some q1) (Some q2)" and ?h4 = "\<lambda>b. put_obj (?c (Some q1) (Some q2) b) h2"
      obtain ret e where isr: "ll_cam_init_isr pl (?c2 False) (hal_hw h2) = (ret, e)" by (metis surj_pair)
      obtain mk e2 where task: "xTaskCreate pl e = (mk, e2)" by (metis surj_pair)
      let ?h6 = "(?h4 mk)\<lparr>hal_hw := e2, tasks := t + of_bool mk\<rparr>"
      have o2: "cam_obj h2 = Some (a, c\<lparr>event_queue := Some q1\<rparr>)" using 1(4) 2(4) obj by simp
      have run: "cam_config_queues pl cfg h =
          (if ret \<noteq> 0 then Some (- 1, (?h4 False)\<lparr>hal_hw := e\<rparr>) else Some (0, ?h6))"
        using obj 1(1) 2(1) n1 h(2-4) isr task 1(3) 2(3) tk o2
        by (auto simp: cam_config_queues_def Let_def put_obj_def of_bool_def self)
      have b: "books pl B t a (?c2 b) ((?h4 b)\<lparr>hal_hw := x, tasks := t + of_bool b\<rparr>)" for b x
        using 1(2-4) 2(2-4) h by (simp add: books_def blocks_def add_mset_commute)
      show ?thesis
      proof (cases "ret = 0")
        case True
        with run b [of mk e2] 1 2 show ?thesis
          by (intro exI [of _ 0] exI [of _ ?h6] exI [of _ "Some q1"] exI [of _ "Some q2"] exI [of _ mk]) simp
      next
        case False
        have "books pl B t a (?c2 False) ((?h4 False)\<lparr>hal_hw := e\<rparr>)"
          using 1(2-4) 2(2-4) h by (simp add: books_def blocks_def add_mset_commute)
        with run False show ?thesis
          by (intro exI [of _ "- 1"] exI [of _ "(?h4 False)\<lparr>hal_hw := e\<rparr>"] exI [of _ "Some q1"]
              exI [of _ "Some q2"] exI [of _ False]) simp
      qed
    qed
  qed
qed


subsection \<open>Releasing\<close>

text \<open>Freeing accounted blocks succeeds and touches nothing but the heap.\<close>

definition frees :: "int set \<Rightarrow> int multiset \<Rightarrow> 'e hal \<Rightarrow> 'e hal option \<Rightarrow> bool" where
  "frees B M h r \<longleftrightarrow> (\<exists>h'. r = Some h' \<and> acct B M h' \<and> cam_obj h' = cam_obj h \<and> tasks h' = tasks h)"

lemma free_block: "acct B (add_mset p M) h \<Longrightarrow> frees B M h (heap_free p h)"
  using acct_free [of B p M h] by (simp add: frees_def)

lemma free_ptr: "acct B (ptr_block p + M) h \<Longrightarrow> frees B M h (heap_free p h)"
  using free_block [of B p M h] by (cases "p = 0") (simp_all add: frees_def heap_free_def)

lemma free_opt:
  assumes "acct B (opt_block f p + M) h" and "rel = (\<lambda>x. heap_free (f x))"
  shows "frees B M h (if_some rel p (h\<lparr>hal_hw := e\<rparr>))" and "frees B M h (if_some rel p h)"
  using assms free_block [of B _ M "h\<lparr>hal_hw := e\<rparr>"] free_block [of B _ M h]
  by (cases p; simp add: frees_def if_some_def)+

lemma frees_hw [simp]: "frees B M (h\<lparr>hal_hw := e\<rparr>) r = frees B M h r"
  by (simp add: frees_def)

lemma frees_bind:
  assumes "frees B M h r" and "\<And>h'. acct B M h' \<Longrightarrow> cam_obj h' = cam_obj h \<Longrightarrow> tasks h' = tasks h \<Longrightarrow> frees B M' h' (k h')"
  shows "frees B M' h (r \<bind> k)"
  using assms by (fastforce simp: frees_def)

lemma free_frames_spec:
  assumes "acct B (sum_list (map (\<lambda>x. frame_blocks (fs ! x)) xs) + M) h" and "\<forall>x \<in> set xs. x < length fs"
  shows "frees B M h (free_frames fs xs h)"
  using assms
proof (induction xs arbitrary: h)
  case (Cons x xs)
  let ?S = "sum_list (map (\<lambda>x. frame_blocks (fs ! x)) xs) + M"
  have "acct B (ptr_block (fb_buf (fb (fs ! x)) - int (fb_offset (fs ! x))) + (opt_block fst (fr_dma (fs ! x)) + ?S)) h"
    using Cons.prems(1) by (simp add: frame_blocks_def add.assoc)
  note 1 = free_ptr [OF this]
  have "frees B M h (heap_free (fb_buf (fb (fs ! x)) - int (fb_offset (fs ! x))) h \<bind> (\<lambda>h1.
      if_some (\<lambda>d. heap_free (fst d)) (fr_dma (fs ! x)) h1 \<bind> (\<lambda>h2. free_frames fs xs h2)))"
    by (intro frees_bind [OF 1] frees_bind [OF free_opt(2)] Cons.IH) (use Cons.prems(2) in auto)
  then show ?case using Cons.prems(2) by simp
qed (simp add: frees_def)

lemma deinit_spec:
  assumes "books pl B t a c h"
  shows "\<exists>h'. cam_deinit ll pl h = Some (ESP_OK, h') \<and> live h' = B \<and> cam_obj h' = None \<and> tasks h' = t"
proof -
  have obj: "cam_obj h = Some (a, c)" and acct: "acct B (add_mset a (blocks pl c)) h"
    and tk: "tasks h = t + of_bool (task_handle c)"
    and fr: "frames_ptr c \<noteq> None \<Longrightarrow> length (frames c) = frame_cnt c" "frames_ptr c = None \<Longrightarrow> frames c = []"
    using assms by (auto simp: books_def split: if_splits)
  let ?h1 = "h\<lparr>hal_hw := ll_cam_stop ll (ll_cam_vsync_intr_enable ll False (hal_hw h))\<rparr>"
  let ?h2 = "if task_handle c then ?h1\<lparr>tasks := tasks ?h1 - 1, hal_hw := vTaskDelete pl (hal_hw ?h1)\<rparr> else ?h1"
  have t2: "tasks ?h2 = t" "acct B (add_mset a (blocks pl c)) ?h2" using tk acct by simp_all
  let ?F = "sum_list (map frame_blocks (frames c))" and ?free = "\<lambda>d. heap_free (fst d)"
  let ?fr = "if_some (\<lambda>p g. free_frames (frames c) [0..<frame_cnt c] g \<bind> heap_free p) (frames_ptr c)"
  have frames: "frees B {#a#} g (?fr g)" if "acct B (opt_block id (frames_ptr c) + (?F + {#a#})) g" for g
  proof (cases "frames_ptr c")
    case None
    then show ?thesis using that fr(2) by (simp add: frees_def if_some_def)
  next
    case (Some p)
    then have "acct B (sum_list (map (\<lambda>x. frame_blocks (frames c ! x)) [0..<frame_cnt c]) + {#p, a#}) g"
      using that fr(1) map_nth [of "frames c"] by (simp add: map_map [symmetric, unfolded comp_def] add_mset_commute)
    with Some fr(1) show ?thesis by (auto simp: if_some_def intro!: frees_bind [OF free_frames_spec] free_block)
  qed
  have rel: "vQueueDelete pl = (\<lambda>q. heap_free (queue_handle pl q))" by (simp add: fun_eq_iff vQueueDelete_def)
  let ?R4 = "opt_block id (frames_ptr c) + (?F + {#a#})"
  let ?R3 = "opt_block fst (dma_buffer c) + ?R4" let ?R2 = "opt_block fst (obj_dma c) + ?R3"
  let ?R1 = "opt_block (queue_handle pl) (frame_buffer_queue c) + ?R2"
  have a0: "acct B (opt_block (queue_handle pl) (event_queue c) + ?R1) ?h2" using t2(2) by (simp add: blocks_def ac_simps)
  have "frees B {#} ?h2 (if_some (vQueueDelete pl) (event_queue c) ?h2 \<bind> (\<lambda>h3.
     if_some (vQueueDelete pl) (frame_buffer_queue c) h3 \<bind> (\<lambda>h4.
     if_some ?free (obj_dma c) (h4\<lparr>hal_hw := ll_cam_deinit pl (hal_hw h4)\<rparr>) \<bind> (\<lambda>h6.
     if_some ?free (dma_buffer c) h6 \<bind> (\<lambda>h7. ?fr h7 \<bind> heap_free a)))))"
    apply (rule frees_bind [OF free_opt(2) [OF a0 rel]])
    apply (rule frees_bind, erule free_opt(2) [OF _ rel])
    apply (rule frees_bind, erule free_opt(1) [OF _ refl])
    apply (rule frees_bind, erule free_opt(2) [OF _ refl])
    apply (rule frees_bind, erule frames)
    apply (rule free_block, assumption)
    done
  then obtain h9 where h9: "if_some (vQueueDelete pl) (event_queue c) ?h2 \<bind> (\<lambda>h3.
     if_some (vQueueDelete pl) (frame_buffer_queue c) h3 \<bind> (\<lambda>h4.
     if_some ?free (obj_dma c) (h4\<lparr>hal_hw := ll_cam_deinit pl (hal_hw h4)\<rparr>) \<bind> (\<lambda>h6.
     if_some ?free (dma_buffer c) h6 \<bind> (\<lambda>h7. ?fr h7 \<bind> heap_free a)))) = Some h9"
    "acct B {#} h9" "tasks h9 = t" using t2(1) by (auto simp: frees_def)
  have "cam_deinit ll pl h = Some h9 \<bind> (\<lambda>h9. Some (ESP_OK, h9\<lparr>cam_obj := None\<rparr>))"
    unfolding h9(1) [symmetric] using obj by (simp add: cam_deinit_def Let_def)
  with h9(2,3) acct_empty [OF h9(2)] show ?thesis by simp
qed


subsection \<open>Set-up is all or nothing\<close>

text \<open>The object after a successful \<open>cam_config\<close>: its buffers and queues exist, and its settings are those the
  low-level driver computed.\<close>

definition configured :: "'e plat \<Rightarrow> camera_config_t \<Rightarrow> cam_obj_t \<Rightarrow> bool" where
  "configured pl cfg c \<longleftrightarrow> frames_ptr c \<noteq> None \<and> built pl c \<and> frame_cnt c = fb_count cfg \<and>
     psram_mode c = (\<not> target_esp32 pl \<and> xclk_freq_hz cfg = 16000000) \<and>
     (\<exists>c0 e0 c1 e1. bare c0 \<and> ll_cam_dma_sizes pl c0 e0 = (True, c1, e1) \<and> cfg_of c = cfg_of c1) \<and>
     (\<exists>p q. event_queue c = Some p \<and> q_ok p \<and> frame_buffer_queue c = Some q \<and> q_ok q \<and> q_items q = [] \<and>
       uxLength p * uxItemSize p \<le> SIZE_MAX)"

text \<open>What the set-up relies on: the allocator, the low-level driver, and a number of frame buffers that is
  not zero and small enough for the arrays and queues of that length to exist.\<close>

definition plat_ok :: "'e plat \<Rightarrow> camera_config_t \<Rightarrow> bool" where
  "plat_ok pl cfg \<longleftrightarrow> alloc_ok pl \<and> ll_conf_ok pl \<and> 0 < sizeof_cam_frame_t pl \<and> 0 < fb_count cfg \<and>
     fb_count cfg * sizeof_cam_frame_t pl < 2 ^ 32 \<and> fb_count cfg * 4 \<le> SIZE_MAX - sizeof_Queue_t pl"

definition released :: "'e hal \<Rightarrow> 'e hal \<Rightarrow> bool" where
  "released h h' \<longleftrightarrow> live h' = live h \<and> tasks h' = tasks h \<and> cam_obj h' = None"

lemma init_spec:
  assumes "plat_ok pl cfg" and "acct B {#} h"
  shows "\<exists>r h'. cam_init pl (Some cfg) h = Some (r, h') \<and>
    (if r = ESP_OK then \<exists>a c. books pl B (tasks h) a c h' \<and> bare c
     else live h' = B \<and> tasks h' = tasks h \<and> cam_obj h' = None)"
proof -
  have pl: "alloc_ok pl" "ll_conf_ok pl" using assms(1) by (simp_all add: plat_ok_def)
  from pl(1) assms(2) show ?thesis
  proof (cases rule: malloc_cases [where caps = MALLOC_CAP_DMA and n = "sizeof_cam_obj_t pl"])
    case (fail h1)
    with acct_empty [OF fail(2)] show ?thesis by (simp add: cam_init_def)
  next
    case (ok a h1)
    let ?c = "zero_obj\<lparr>swap_data := False, vsync_pin := pin_vsync cfg, vsync_invert := True\<rparr>"
    obtain r c1 e where l: "ll_cam_config pl cfg ?c (ll_cam_set_pin pl cfg (hal_hw h1)) = (r, c1, e)"
      by (metis prod_cases3)
    have "bare ?c" by (simp add: bare_def zero_obj_def)
    then have c1: "bare c1" using pl(2) l unfolding ll_conf_ok_def by blast
    have "acct B {#a#} (h1\<lparr>cam_obj := Some (a, c1), hal_hw := e\<rparr>)" using ok(2) by simp
    from acct_free [OF this] have f: "heap_free a (h1\<lparr>cam_obj := Some (a, c1), hal_hw := e\<rparr>)
        = Some (h1\<lparr>cam_obj := Some (a, c1), hal_hw := e, live := live h1 - {a}\<rparr>)"
      "live h1 - {a} = B" by (auto dest: acct_empty)
    show ?thesis
    proof (cases "r = 0")
      case True
      have "books pl B (tasks h) a c1 (h1\<lparr>cam_obj := Some (a, c1), hal_hw := e\<rparr>)"
        using ok c1 blocks_bare [OF c1, of pl] by (simp add: books_def bare_def)
      with True ok(1) l c1 show ?thesis by (auto simp: cam_init_def)
    next
      case False
      with ok(1,3) l f show ?thesis by (simp add: cam_init_def)
    qed
  qed
qed

lemma config_spec:
  assumes pl: "plat_ok pl cfg" and h: "books pl B t a c h" "bare c" and fs: "fs \<noteq> FRAMESIZE_INVALID"
  shows "\<exists>r h'. cam_config ll pl (Some cfg) fs pid h = Some (r, h') \<and> (r = ESP_OK \<or> r = ESP_FAIL) \<and>
    (if r = ESP_OK then \<exists>c'. books pl B t a c' h' \<and> configured pl cfg c'
     else live h' = B \<and> tasks h' = t \<and> cam_obj h' = None)"
proof -
  have p: "alloc_ok pl" "ll_conf_ok pl" "0 < sizeof_cam_frame_t pl" "0 < fb_count cfg"
    "fb_count cfg * sizeof_cam_frame_t pl < 2 ^ 32" "fb_count cfg * 4 \<le> SIZE_MAX - sizeof_Queue_t pl"
    using pl by (simp_all add: plat_ok_def)
  obtain r0 c1 e where l: "ll_cam_set_sample_mode pl (pixel_format cfg) (xclk_freq_hz cfg) pid c (hal_hw h) = (r0, c1, e)"
    by (metis prod_cases3)
  let ?c2 = "c1\<lparr>jpeg_mode := (pixel_format cfg = PIXFORMAT_JPEG),
                     psram_mode := (\<not> target_esp32 pl \<and> xclk_freq_hz cfg = 16000000), frame_cnt := fb_count cfg\<rparr>"
  define c3 where "c3 = set_sizes pl (unat (ri_width (resolution_at fs))) (unat (ri_height (resolution_at fs))) ?c2"
  let ?h = "put_obj c3 (h\<lparr>hal_hw := e\<rparr>)"
  have "bare c1" using pl h(2) l unfolding plat_ok_def ll_conf_ok_def by blast
  then have c3: "bare c3" "frame_cnt c3 = fb_count cfg"
    "psram_mode c3 = (\<not> target_esp32 pl \<and> xclk_freq_hz cfg = 16000000)" by (simp_all add: c3_def set_sizes_def bare_def Let_def)
  have o3: "cam_obj ?h = Some (a, c3)" "acct B {#a#} ?h" "tasks ?h = t"
    using h blocks_bare [OF h(2), of pl] by (simp_all add: books_def bare_def)
  obtain r1 h1 c' c4 e4 ok where d: "cam_dma_config pl cfg ?h = Some (r1, h1)"
    "ll_cam_dma_sizes pl c3 (hal_hw ?h) = (ok, c4, e4)" "dma_config_post pl B (tasks ?h) a c4 ok r1 c' h1"
    using dma_config_spec [OF p(1-3) o3(1) c3(1) o3(2), where cfg = cfg] p(5) c3(2) by auto
  have c4: "frame_cnt c4 = fb_count cfg" "ok \<Longrightarrow> 0 < dma_half_buffer_cnt c4"
    "ok \<Longrightarrow> dma_half_buffer_cnt c4 * 4 \<le> SIZE_MAX - sizeof_Queue_t pl" "psram_mode c4 = psram_mode c3"
    using p(2) c3 d(2) unfolding ll_conf_ok_def by metis+
  note d3 = d(3) [unfolded dma_config_post_def o3(3)]
  have b1: "books pl B t a c' h1" "cfg_of c' = cfg_of c4" using d3 by simp_all
  have run: "cam_config ll pl (Some cfg) fs pid h = (do {
      (r2, h2) \<leftarrow> (if r1 = ESP_OK then cam_config_queues pl cfg h1 else Some (ESP_FAIL, h1));
      if r2 = ESP_OK then Some (ESP_OK, h2) else do { (_, h3) \<leftarrow> cam_deinit ll pl h2; Some (ESP_FAIL, h3) } })"
    using h(1) fs l d(1) by (simp add: cam_config_def books_def c3_def Let_def)
  show ?thesis
  proof (cases "r1 = 0")
    case False
    from deinit_spec [OF b1(1), of ll] obtain h3 where "cam_deinit ll pl h1 = Some (ESP_OK, h3)" "live h3 = B"
      "cam_obj h3 = None" "tasks h3 = t" by blast
    with run False show ?thesis by simp
  next
    case True
    then have ok "built pl c'" "frames_ptr c' \<noteq> None" "event_queue c' = None" "frame_buffer_queue c' = None"
      "\<not> task_handle c'" using d3 by simp_all
    have cfg: "dma_half_buffer_cnt c' = dma_half_buffer_cnt c4" "frame_cnt c' = frame_cnt c4"
      using b1(2) by (simp_all add: cfg_of_def)
    obtain r2 h2 q1 q2 b where q: "cam_config_queues pl cfg h1 = Some (r2, h2)"
      "books pl B t a (c'\<lparr>event_queue := q1, frame_buffer_queue := q2, task_handle := b\<rparr>) h2"
      "r2 = ESP_OK \<longrightarrow> (\<exists>p q. q1 = Some p \<and> q2 = Some q \<and> q_ok p \<and> q_ok q \<and> q_items q = [] \<and>
       uxLength p * uxItemSize p \<le> SIZE_MAX)"
      "r2 = ESP_OK \<or> r2 = ESP_FAIL"
      using config_queues_spec [OF p(1) b1(1), where cfg = cfg] \<open>ok\<close> c4 cfg p(4,6) \<open>event_queue c' = None\<close>
        \<open>frame_buffer_queue c' = None\<close> \<open>\<not> task_handle c'\<close> by auto
    let ?c = "c'\<lparr>event_queue := q1, frame_buffer_queue := q2, task_handle := b\<rparr>"
    show ?thesis
    proof (cases "r2 = 0")
      case False
      from deinit_spec [OF q(2), of ll] obtain h3 where "cam_deinit ll pl h2 = Some (ESP_OK, h3)" "live h3 = B"
        "cam_obj h3 = None" "tasks h3 = t" by blast
      with run True q(1) False show ?thesis by simp
    next
      case r2: True
      have "built pl ?c" using \<open>built pl c'\<close> by (auto simp: built_def frame_made_def ring_of_def)
      moreover have "psram_mode ?c = (\<not> target_esp32 pl \<and> xclk_freq_hz cfg = 16000000)"
        using b1(2) c4(4) c3(3) by (simp add: cfg_of_def)
      moreover have "cfg_of ?c = cfg_of c4" using b1(2) by (simp add: cfg_of_def)
      ultimately have "configured pl cfg ?c"
        unfolding configured_def using q(3) r2 cfg(2) c3(1) c4(1) d(2) \<open>ok\<close> \<open>frames_ptr c' \<noteq> None\<close> by auto
      with q(2) have "\<exists>c'. books pl B t a c' h2 \<and> configured pl cfg c'" by blast
      with run True q(1) r2 show ?thesis by simp
    qed
  qed
qed

end
