(* ===== verification/CamLife.thy ===== *)
theory CamLife
  imports CamConf CamRun
begin

text \<open>
  The whole life of the capture driver: \<open>cam_init\<close>, \<open>cam_config\<close>, the running system of
  \<open>CamSys\<close>, \<open>cam_deinit\<close>. The lemmas show that no step of the running system changes which blocks the
  driver object points to, so that tearing it down at any moment releases exactly what the set-up
  allocated, and that a successful set-up establishes the initial state from which \<open>CamSys\<close>
  starts.
\<close>

subsection \<open>The running system keeps the allocations\<close>

text \<open>The pointers of the driver object.\<close>

definition skel where
  "skel c = (map_option pcHead (event_queue c), map_option pcHead (frame_buffer_queue c), map_option fst (obj_dma c),
     map_option fst (dma_buffer c), frames_ptr c,
     map (\<lambda>f. (fb_buf (fb f), fb_offset f, map_option fst (fr_dma f))) (frames c), frame_cnt c, task_handle c)"

lemma opt_block_cong: "map_option f p = map_option f q \<Longrightarrow> (\<And>x. h x = k (f x)) \<Longrightarrow> opt_block h p = opt_block h q"
  by (cases p; cases q) simp_all

lemma frame_blocks_skel:
  "(fb_buf (fb f), fb_offset f, map_option fst (fr_dma f)) = (fb_buf (fb g), fb_offset g, map_option fst (fr_dma g)) \<Longrightarrow>
   frame_blocks f = frame_blocks g"
  using opt_block_cong [of fst "fr_dma f" "fr_dma g" fst id] by (simp add: frame_blocks_def)

lemma skel_blocks:
  assumes "skel c' = skel c"
  shows "blocks pl c' = blocks pl c" "frames_ptr c' = frames_ptr c" "task_handle c' = task_handle c"
    "frame_cnt c' = frame_cnt c" "length (frames c') = length (frames c)"
proof -
  let ?k = "\<lambda>f. (fb_buf (fb f), fb_offset f, map_option fst (fr_dma f))"
  have m: "map ?k (frames c') = map ?k (frames c)" using assms by (simp add: skel_def)
  then have l: "length (frames c') = length (frames c)" by (rule map_eq_imp_length_eq)
  have "frame_blocks (frames c' ! i) = frame_blocks (frames c ! i)" if "i < length (frames c)" for i
  proof (rule frame_blocks_skel)
    have "map ?k (frames c') ! i = map ?k (frames c) ! i" using m by simp
    then show "?k (frames c' ! i) = ?k (frames c ! i)" using l that by simp
  qed
  then have "map frame_blocks (frames c') = map frame_blocks (frames c)" using l by (intro nth_equalityI) simp_all
  moreover have "opt_block (queue_handle pl) (event_queue c') = opt_block (queue_handle pl) (event_queue c)"
    by (rule opt_block_cong [of pcHead _ _ _ "\<lambda>x. x - int (sizeof_Queue_t pl)"])
      (use assms in \<open>simp_all add: skel_def queue_handle_def\<close>)
  moreover have "opt_block (queue_handle pl) (frame_buffer_queue c') = opt_block (queue_handle pl) (frame_buffer_queue c)"
    by (rule opt_block_cong [of pcHead _ _ _ "\<lambda>x. x - int (sizeof_Queue_t pl)"])
      (use assms in \<open>simp_all add: skel_def queue_handle_def\<close>)
  moreover have "opt_block fst (obj_dma c') = opt_block fst (obj_dma c)"
    by (rule opt_block_cong [of fst _ _ _ id]) (use assms in \<open>simp_all add: skel_def\<close>)
  moreover have "opt_block fst (dma_buffer c') = opt_block fst (dma_buffer c)"
    by (rule opt_block_cong [of fst _ _ _ id]) (use assms in \<open>simp_all add: skel_def\<close>)
  ultimately show "blocks pl c' = blocks pl c" using assms by (simp add: blocks_def skel_def)
  show "length (frames c') = length (frames c)" by (rule l)
qed (use assms in \<open>simp_all add: skel_def\<close>)

lemma skel_update [simp]:
  "skel (c\<lparr>cam_state := st\<rparr>) = skel c"
  by (simp add: skel_def)

lemma set_frame_skel:
  assumes "set_frame x g c = Some c'"
    and "\<And>f. fb_buf (fb (g f)) = fb_buf (fb f)" "\<And>f. fb_offset (g f) = fb_offset f" "\<And>f. fr_dma (g f) = fr_dma f"
  shows "skel c' = skel c"
  using assms by (auto simp: set_frame_def skel_def map_update list_update_same_conv split: if_splits)

lemma set_en_skel: "set_en x b c = Some c' \<Longrightarrow> skel c' = skel c"
  unfolding set_en_def by (erule set_frame_skel) simp_all

lemma set_len_skel: "set_len x b c = Some c' \<Longrightarrow> skel c' = skel c"
  unfolding set_len_def by (erule set_frame_skel) simp_all

lemma send_head: "xQueueGenericSendFromISR x p q = Some (b, q') \<Longrightarrow> pcHead q' = pcHead q"
  by (auto simp: xQueueGenericSendFromISR_def prvCopyDataToQueue_def wake_receiver_def Let_def split: if_splits)

lemma receive_head: "xQueueReceiveFromISR x q = (r, q') \<Longrightarrow> pcHead q' = pcHead q"
  by (auto simp: xQueueReceiveFromISR_def prvCopyDataFromQueue_def wake_sender_def Let_def split: if_splits)

lemma fbq_send_skel: "fbq_send p c = Some (b, c') \<Longrightarrow> skel c' = skel c"
  by (auto simp: fbq_send_def skel_def dest: send_head split: bind_splits)

lemma fbq_receive_skel: "fbq_receive c = Some (r, c') \<Longrightarrow> skel c' = skel c"
  by (auto simp: fbq_receive_def skel_def dest: receive_head split: bind_splits prod.splits)

lemma cam_give_skel: "cam_give p c = Some c' \<Longrightarrow> skel c' = skel c"
  by (auto simp: cam_give_def dest: set_en_skel split: option.splits)


lemmas skel_dests = set_en_skel set_len_skel fbq_send_skel fbq_receive_skel cam_give_skel

lemma frame_update_skel:
  "set_frame x (fb_update (\<lambda>b. b\<lparr>fb_mem := m, fb_len := n\<rparr>)) c = Some c' \<Longrightarrow> skel c' = skel c"
  "set_frame x (fb_update (\<lambda>b. b\<lparr>fb_tv_sec := s, fb_tv_usec := u\<rparr>)) c = Some c' \<Longrightarrow> skel c' = skel c"
  by (erule set_frame_skel; simp)+

lemma copy_half_skel: "copy_half ll w = Some w' \<Longrightarrow> skel (cam w') = skel (cam w)"
  by (auto simp: copy_half_def Let_def dest: frame_update_skel split: bind_splits if_splits prod.splits)

lemma start_frame_skel: "cam_start_frame ll w = Some (b, w') \<Longrightarrow> skel (cam w') = skel (cam w)"
  by (auto simp: cam_start_frame_def Let_def dest: frame_update_skel split: bind_splits if_splits prod.splits)

lemma ll_stop_cam [simp]: "cam (ll_stop ll w) = cam w"
  by (simp add: ll_stop_def)

lemma send_event_skel: "ll_cam_send_event ll ev w = Some w' \<Longrightarrow> skel (cam w') = skel (cam w)"
  by (auto simp: ll_cam_send_event_def Let_def skel_def dest!: send_head split: bind_splits if_splits prod.splits)

lemma idle_skel: "cam_task_idle ll ev w = Some (w', pc) \<Longrightarrow> skel (cam w') = skel (cam w)"
  by (auto simp: cam_task_idle_def dest!: start_frame_skel set_len_skel split: bind_splits if_splits)

lemma eof_skel: "cam_task_eof ll w = Some (w', pc) \<Longrightarrow> skel (cam w') = skel (cam w)"
  by (auto simp: cam_task_eof_def Let_def dest!: copy_half_skel split: bind_splits if_splits)

lemma vsync_tail_skel: "cam_vsync_tail ll ppd w = Some w' \<Longrightarrow> skel (cam w') = skel (cam w)"
  by (auto simp: cam_vsync_tail_def dest!: copy_half_skel split: bind_splits if_splits)

lemma vsync_claim_skel: "cam_vsync_claim w = Some w' \<Longrightarrow> skel (cam w') = skel (cam w)"
  by (auto simp: cam_vsync_claim_def Let_def dest!: skel_dests split: bind_splits if_splits)

lemma vsync_skel: "cam_task_vsync ll w = Some (w', pc) \<Longrightarrow> skel (cam w') = skel (cam w)"
  by (auto simp: cam_task_vsync_def Let_def dest!: vsync_tail_skel vsync_claim_skel split: bind_splits if_splits)

lemma dispatch_skel: "cam_task_dispatch ll ev w = Some (w', pc) \<Longrightarrow> skel (cam w') = skel (cam w)"
  by (auto simp: cam_task_dispatch_def dest: idle_skel eof_skel vsync_skel split: cam_state_t.splits cam_event_t.splits)

lemma frag_skel: "cam_task_frag ll pc w = Some (w', pc') \<Longrightarrow> skel (cam w') = skel (cam w)"
  by (cases pc) (auto dest!: skel_dests start_frame_skel split: bind_splits if_splits)

lemma take_frame_skel:
  "cam_take_frame ll x w = Some (Inr w') \<Longrightarrow> skel (cam w') = skel (cam w)"
  "cam_take_frame ll x w = Some (Inl w') \<Longrightarrow> skel (cam w') = skel (cam w)"
  by (auto simp: cam_take_frame_def Let_def dest!: skel_dests frame_update_skel split: bind_splits if_splits)

lemma step_skel: "cam_step ll s s' \<Longrightarrow> skel (cam (sys_w s')) = skel (cam (sys_w s))"
proof (induction rule: cam_step.induct)
  case (event s q ev0 ev q' w pc)
  then have "skel (cam w) = skel ((cam (sys_w s))\<lparr>event_queue := Some q'\<rparr>)" by (auto dest: dispatch_skel)
  with event(2) receive_head [OF event(3)] show ?case by (simp add: skel_def)
next
  case (take s x c w)
  then show ?case using take_frame_skel(1) fbq_receive_skel by fastforce
next
  case (discard s x c w)
  then show ?case using take_frame_skel(2) fbq_receive_skel by fastforce
qed (auto simp: skel_def [of "_\<lparr>dma_buffer := _\<rparr>"] skel_def dest: send_event_skel frag_skel cam_give_skel)

lemma steps_skel: "cam_steps ll s s' \<Longrightarrow> skel (cam (sys_w s')) = skel (cam (sys_w s))"
  by (induction rule: rtranclp_induct) (auto dest: step_skel)


subsection \<open>Starting the capture task\<close>

lemma q_reset:
  assumes "q_ok q" and "uxLength q * uxItemSize q \<le> SIZE_MAX"
  shows "\<exists>q'. xQueueGenericReset False q = Some q' \<and> q_ok q' \<and> pcHead q' = pcHead q \<and> uxMessagesWaiting q' = 0"
proof -
  have r: "0 < uxItemSize q" "0 < uxLength q" using assms(1) by (auto simp: q_ok_def ring_def)
  let ?q1 = "q\<lparr>pcTail := pcHead q + int (uxLength q * uxItemSize q), uxMessagesWaiting := 0, pcWriteTo := pcHead q,
      pcReadFrom := pcHead q + int ((uxLength q - 1) * uxItemSize q)\<rparr>"
  have "ring (wake_sender ?q1) (uxLength q - 1)" using r by (simp add: ring_def slot_addr_def wake_sender_def)
  then have "q_ok (wake_sender ?q1)" by (rule ring_ok)
  moreover have "uxItemSize q \<le> SIZE_MAX div uxLength q"
    using r assms(2) by (subst less_eq_div_iff_mult_less_eq) (simp_all add: mult.commute)
  then have "xQueueGenericReset False q = Some (wake_sender ?q1)" using r(2) by (simp add: xQueueGenericReset_def Let_def)
  ultimately show ?thesis by (simp add: wake_sender_def)
qed

text \<open>The state in which the capture task starts to run: its local variables are not initialised yet.\<close>

definition task_entry :: "cam_obj_t \<Rightarrow> 'e \<Rightarrow> int \<Rightarrow> nat \<Rightarrow> 'e cam_world" where
  "task_entry c e i j = \<lparr>cam = c, cw_hw = e, ct_cnt = i, ct_frame_pos = j\<rparr>"

definition waiting :: "'e cam_world \<Rightarrow> 'e sys" where
  "waiting w = \<lparr>sys_w = w, sys_pc = PC_wait, held = {}\<rparr>"

lemma task_init_total:
  assumes "configured pl cfg c"
  shows "\<exists>q. cam_task_init (task_entry c e i j) = Some (task_entry (c\<lparr>cam_state := CAM_STATE_IDLE, event_queue := Some q\<rparr>) e 0 0) \<and>
    q_ok q \<and> uxMessagesWaiting q = 0 \<and> skel (c\<lparr>cam_state := CAM_STATE_IDLE, event_queue := Some q\<rparr>) = skel c"
proof -
  from assms obtain p where p: "event_queue c = Some p" "q_ok p" "uxLength p * uxItemSize p \<le> SIZE_MAX"
    by (auto simp: configured_def)
  from q_reset [OF p(2,3)] obtain q where "xQueueGenericReset False p = Some q" "q_ok q" "pcHead q = pcHead p"
    "uxMessagesWaiting q = 0" by blast
  with p(1) show ?thesis by (intro exI [of _ q]) (simp add: cam_task_init_def task_entry_def skel_def)
qed

text \<open>
  The sizes of a configured object that the copying relies on; they come from the low-level driver and the frame
  size: the DMA buffer consists of whole halves, copying a half yields at most as many bytes as the capture task
  reckons with, in JPEG mode at least three, and then a frame buffer has room for a half and a marker.
\<close>

definition sizes_fit :: "'e ll_cam \<Rightarrow> cam_obj_t \<Rightarrow> bool" where
  "sizes_fit ll c \<longleftrightarrow> dma_buffer_size c = dma_half_buffer_cnt c * dma_half_buffer_size c \<and>
     (\<exists>ppd. pixels_per_dma c = Some ppd \<and> fb_size c + ppd < 2 ^ 32 \<and>
        (\<forall>bs. length bs = dma_half_buffer_size c \<longrightarrow>
           length (ll_cam_memcpy ll bs) \<le> ppd \<and> (jpeg_mode c \<longrightarrow> 3 \<le> length (ll_cam_memcpy ll bs))) \<and>
        (jpeg_mode c \<longrightarrow> ppd + 2 \<le> fb_size c))"

text \<open>What the task finds when it starts to wait, whatever the sizes.\<close>

definition started :: "camera_config_t \<Rightarrow> cam_obj_t \<Rightarrow> 'e cam_world \<Rightarrow> bool" where
  "started cfg c w \<longleftrightarrow> length (frames (cam w)) = fb_count cfg \<and>
     (\<forall>f \<in> set (frames (cam w)). en f \<and> fb_len (fb f) = 0 \<and> length (fb_mem (fb f)) = fb_size c mod 2 ^ 32) \<and>
     (\<exists>a d. dma_buffer (cam w) = Some (a, d) \<and> length d = dma_buffer_size c) \<and>
     (\<exists>q. event_queue (cam w) = Some q \<and> uxMessagesWaiting q = 0) \<and> fbq_items (cam w) = [] \<and>
     cam_state (cam w) = CAM_STATE_IDLE \<and> ct_cnt w = 0 \<and> ct_frame_pos w = 0"

lemma configured_sys_init:
  assumes "plat_ok pl cfg" and "target_esp32 pl \<or> xclk_freq_hz cfg \<noteq> 16000000" and "configured pl cfg c"
    and "books pl B t a c h"
  shows "\<exists>w. cam_task_init (task_entry c e i j) = Some w \<and> skel (cam w) = skel c \<and> started cfg c w \<and>
    (sys_init ll (waiting w) \<longleftrightarrow> sizes_fit ll c)"
proof -
  from task_init_total [OF assms(3), of e i j] obtain q where
    q: "cam_task_init (task_entry c e i j) = Some (task_entry (c\<lparr>cam_state := CAM_STATE_IDLE, event_queue := Some q\<rparr>) e 0 0)"
      "q_ok q" "uxMessagesWaiting q = 0" "skel (c\<lparr>cam_state := CAM_STATE_IDLE, event_queue := Some q\<rparr>) = skel c" by blast
  let ?c = "c\<lparr>cam_state := CAM_STATE_IDLE, event_queue := Some q\<rparr>"
  from assms(3) obtain c0 e0 c1 e1 where d: "bare c0" "ll_cam_dma_sizes pl c0 e0 = (True, c1, e1)" "cfg_of c = cfg_of c1"
    by (auto simp: configured_def)
  have "0 < dma_half_buffer_cnt c1" using assms(1) d unfolding plat_ok_def ll_conf_ok_def by blast
  with d(3) have half: "0 < dma_half_buffer_cnt c" by (simp add: cfg_of_def)
  have ppd: "pixels_per_dma ?c = pixels_per_dma c" by (simp add: pixels_per_dma_def Let_def)
  have ps: "\<not> psram_mode c" "frame_cnt c = fb_count cfg" "0 < fb_count cfg"
    using assms(1-3) by (auto simp: configured_def plat_ok_def)
  obtain p r n where b: "dma_buffer c = Some (p, fresh_bytes pl p (dma_buffer_size c))"
    "\<forall>f \<in> set (frames c). frame_made n c f \<and> n = sz (fb_size c)"
    using assms(3) ps(1) unfolding configured_def built_def by blast
  then have fr: "\<forall>f \<in> set (frames c). en f \<and> fb_len (fb f) = 0 \<and> length (fb_mem (fb f)) = fb_size c mod 2 ^ 32"
    using ps(1) by (auto simp: frame_made_def sz_def)
  have len: "length (frames c) = frame_cnt c" using assms(3,4) by (auto simp: books_def configured_def)
  have qs: "fbq_ok ?c" "evq_ok ?c" "fbq_items ?c = []"
    using assms(3) q(2) by (auto simp: fbq_ok_def evq_ok_def fbq_items_def configured_def)
  have cfg: "cfg_ok ll ?c = sizes_fit ll c"
    unfolding cfg_ok_def sizes_fit_def ppd using ps half b(1) by (simp add: fresh_bytes_def)
  have "bufs_ok ?c" if "sizes_fit ll c"
  proof -
    from that have "fb_size c < 2 ^ 32" by (auto simp: sizes_fit_def)
    with fr show ?thesis by (simp add: bufs_ok_def)
  qed
  with qs cfg fr len have "sys_init ll (waiting (task_entry ?c e 0 0)) = sizes_fit ll c"
    by (auto simp: sys_init_def waiting_def task_entry_def)
  moreover have "started cfg c (task_entry ?c e 0 0)"
    using qs(3) fr len ps b(1) q(3) by (simp add: started_def task_entry_def fresh_bytes_def)
  ultimately show ?thesis using q by (simp add: task_entry_def)
qed


subsection \<open>From set-up to tear-down\<close>

text \<open>\<open>cam_init\<close> followed by \<open>cam_config\<close>, as \<open>esp_camera_init\<close> calls them.\<close>

definition cam_setup ::
    "'e ll_cam \<Rightarrow> 'e plat \<Rightarrow> camera_config_t \<Rightarrow> framesize_t \<Rightarrow> u16 \<Rightarrow> 'e hal \<Rightarrow> (esp_err_t \<times> 'e hal) option" where
  "cam_setup ll pl cfg fs pid h = do {
     (r, h1) \<leftarrow> cam_init pl (Some cfg) h;
     if r \<noteq> ESP_OK then Some (r, h1) else cam_config ll pl (Some cfg) fs pid h1 }"

lemma setup_spec:
  assumes "plat_ok pl cfg" and "fs \<noteq> FRAMESIZE_INVALID" and "finite (live h)" and "0 \<notin> live h"
  shows "\<exists>r h'. cam_setup ll pl cfg fs pid h = Some (r, h') \<and>
    (if r = ESP_OK then \<exists>a c. books pl (live h) (tasks h) a c h' \<and> configured pl cfg c else released h h')"
proof -
  have "acct (live h) {#} h" using assms(3,4) by (simp add: acct_def)
  from init_spec [OF assms(1) this] obtain r h1 where i: "cam_init pl (Some cfg) h = Some (r, h1)"
    "if r = ESP_OK then \<exists>a c. books pl (live h) (tasks h) a c h1 \<and> bare c
     else live h1 = live h \<and> tasks h1 = tasks h \<and> cam_obj h1 = None" by blast
  show ?thesis
  proof (cases "r = 0")
    case True
    with i(2) obtain a c where b: "books pl (live h) (tasks h) a c h1" "bare c" by auto
    from config_spec [OF assms(1) b assms(2), of ll pid] obtain r2 h2 where
      "cam_config ll pl (Some cfg) fs pid h1 = Some (r2, h2)"
      "if r2 = ESP_OK then \<exists>c'. books pl (live h) (tasks h) a c' h2 \<and> configured pl cfg c'
       else live h2 = live h \<and> tasks h2 = tasks h \<and> cam_obj h2 = None" by auto
    with i(1) True show ?thesis by (auto simp: cam_setup_def released_def split: if_splits)
  next
    case False
    with i show ?thesis by (simp add: cam_setup_def released_def)
  qed
qed

lemma books_run:
  assumes "books pl B t a c h" and "skel c' = skel c"
  shows "books pl B t a c' (h\<lparr>cam_obj := Some (a, c'), hal_hw := e\<rparr>)"
  using assms(1) skel_blocks(1) [OF assms(2), of pl] skel_blocks(2-5) [OF assms(2)]
  by (auto simp: books_def split: if_splits)

lemma run_skel:
  assumes "configured pl cfg c" and "cam_task_init (task_entry c e i j) = Some w" and "cam_steps ll (waiting w) s"
  shows "skel (cam (sys_w s)) = skel c"
proof -
  from task_init_total [OF assms(1), of e i j] assms(2) have "skel (cam w) = skel c" by (auto simp: task_entry_def)
  moreover have "skel (cam (sys_w s)) = skel (cam w)"
    using assms(3) steps_skel [of ll "waiting w" s] by (simp add: waiting_def)
  ultimately show ?thesis by simp
qed

subsection \<open>A concrete platform\<close>

text \<open>An allocator that hands out the first free of fifteen addresses, and a low-level driver for a DMA
  buffer of two halves of four bytes, as in \<open>demo_sys\<close>.\<close>

definition demo_plat :: "unit plat" where
  "demo_plat =
     \<lparr>heap_alloc = (\<lambda>_ _ L e. (find (\<lambda>a. a \<notin> L) (map (\<lambda>i. 4096 * int i) [1..<16]), e)),
      mem_init = (\<lambda>_. 0), evq_init = (\<lambda>_. CAM_VSYNC_EVENT), fbq_init = (\<lambda>_. None),
      sizeof_cam_obj_t = 120, sizeof_cam_frame_t = 48, sizeof_Queue_t = 80, target_esp32 = True,
      jpeg_mode_frame_size = Some 16, ll_cam_set_pin = (\<lambda>_ e. e), ll_cam_config = (\<lambda>_ c e. (0, c, e)),
      ll_cam_set_sample_mode = (\<lambda>_ _ _ c e.
        (0, c\<lparr>dma_bytes_per_item := 1, in_bytes_per_pixel := 1, fb_bytes_per_pixel := 1\<rparr>, e)),
      ll_cam_dma_sizes = (\<lambda>c e.
        (6 \<le> fb_size c \<and> fb_size c < 65536 \<and> dma_bytes_per_item c = 1 \<and> in_bytes_per_pixel c = 1 \<and> fb_bytes_per_pixel c = 1,
         c\<lparr>dma_buffer_size := 8, dma_half_buffer_size := 4, dma_half_buffer_cnt := 2, dma_node_buffer_size := 4\<rparr>, e)),
      ll_cam_get_dma_align = (\<lambda>_. 16), ll_cam_init_isr = (\<lambda>_ e. (0, e)), ll_cam_deinit = (\<lambda>e. e),
      xTaskCreate = (\<lambda>e. (True, e)), vTaskDelete = (\<lambda>e. e)\<rparr>"

definition demo_config :: camera_config_t where
  "demo_config =
     \<lparr>pin_pwdn = 32, pin_reset = - 1, pin_xclk = 0, pin_sccb_sda = 26, pin_sccb_scl = 27, pin_d7 = 35, pin_d6 = 34,
      pin_d5 = 39, pin_d4 = 36, pin_d3 = 21, pin_d2 = 19, pin_d1 = 18, pin_d0 = 5, pin_vsync = 25, pin_href = 23,
      pin_pclk = 22, xclk_freq_hz = 20000000, ledc_timer = 0, ledc_channel = 0, pixel_format = PIXFORMAT_JPEG,
      frame_size = FRAMESIZE_QVGA, jpeg_quality = 12, fb_count = 2, fb_location = CAMERA_FB_IN_DRAM,
      grab_mode = CAMERA_GRAB_WHEN_EMPTY, cfg_sccb_i2c_port = 0\<rparr>"

definition demo_hal :: "unit hal" where
  "demo_hal = \<lparr>cam_obj = None, live = {}, tasks = 0, hal_hw = ()\<rparr>"

lemma demo_plat_ok: "plat_ok demo_plat demo_config"
proof -
  have "alloc_ok demo_plat"
    unfolding alloc_ok_def demo_plat_def by (auto simp: find_Some_iff)
  moreover have "ll_conf_ok demo_plat"
    unfolding ll_conf_ok_def by (simp add: demo_plat_def bare_def sizeof_lldesc_t_def)
  ultimately show ?thesis by (simp add: plat_ok_def demo_config_def) (simp add: demo_plat_def)
qed

lemma demo_setup: "\<exists>h2 a c. cam_setup demo_ll demo_plat demo_config FRAMESIZE_QVGA 0x26 demo_hal = Some (ESP_OK, h2) \<and>
    cam_obj h2 = Some (a, c) \<and> sizes_fit demo_ll c"
  by (simp add: sizes_fit_def pixels_per_dma_def demo_ll_def cam_setup_def cam_init_def cam_config_def demo_hal_def demo_config_def heap_malloc_def
      demo_plat_def zero_obj_def set_sizes_def cam_dma_config_def put_obj_def alloc_buffers_def
      frame_dma_align_def frame_alloc_size_def sz_def upt_rec alloc_frame_def set_frame_def set_en_def
      alloc_dma_buffer_def allocate_dma_descriptors_def sizeof_lldesc_t_def cam_config_queues_def
      queue_create_def event_queue_len_def frame_queue_len_def xQueueGenericCreate_def
      prvInitialiseNewQueue_def xQueueGenericReset_def Let_def)

text \<open>
  C4. Nothing is leaked: setting up the capture either fails, and then leaves the heap, the tasks and the
  static pointer as if it had not been called, or it succeeds, and then \<open>cam_deinit\<close>, called after any run
  of the capture system, succeeds, frees every block the set-up allocated and only those, each
  once, and deletes the task.
\<close>

theorem cam_lifecycle_releases:
  assumes "plat_ok pl cfg" and "fs \<noteq> FRAMESIZE_INVALID" and "finite (live h)" and "0 \<notin> live h"
  shows "\<exists>r h2. cam_setup ll pl cfg fs pid h = Some (r, h2) \<and>
    (if r \<noteq> ESP_OK then released h h2
     else \<exists>a c. cam_obj h2 = Some (a, c) \<and>
       (\<forall>e i j w s e'. cam_task_init (task_entry c e i j) = Some w \<and> cam_steps ll (waiting w) s \<longrightarrow>
         (\<exists>h3. cam_deinit ll pl (h2\<lparr>cam_obj := Some (a, cam (sys_w s)), hal_hw := e'\<rparr>) = Some (ESP_OK, h3) \<and>
            released h h3)))"
proof -
  from setup_spec [OF assms, of ll pid] obtain r h2 where s: "cam_setup ll pl cfg fs pid h = Some (r, h2)"
    "if r = ESP_OK then \<exists>a c. books pl (live h) (tasks h) a c h2 \<and> configured pl cfg c else released h h2" by blast
  have "\<exists>a c. cam_obj h2 = Some (a, c) \<and>
       (\<forall>e i j w s e'. cam_task_init (task_entry c e i j) = Some w \<and> cam_steps ll (waiting w) s \<longrightarrow>
         (\<exists>h3. cam_deinit ll pl (h2\<lparr>cam_obj := Some (a, cam (sys_w s)), hal_hw := e'\<rparr>) = Some (ESP_OK, h3) \<and>
            released h h3))" if "r = ESP_OK"
  proof -
    from s(2) that obtain a c where b: "books pl (live h) (tasks h) a c h2" "configured pl cfg c" by auto
    show ?thesis
    proof (intro exI [of _ a] exI [of _ c] conjI allI impI)
      show "cam_obj h2 = Some (a, c)" using b(1) by (simp add: books_def)
    next
      fix e i j w s e'
      assume 2: "cam_task_init (task_entry c e i j) = Some w \<and> cam_steps ll (waiting w) s"
      have "skel (cam (sys_w s)) = skel c" by (rule run_skel [OF b(2) conjunct1 [OF 2] conjunct2 [OF 2]])
      from deinit_spec [OF books_run [OF b(1) this, of e'], of ll] show "\<exists>h3. cam_deinit ll pl
        (h2\<lparr>cam_obj := Some (a, cam (sys_w s)), hal_hw := e'\<rparr>) = Some (ESP_OK, h3) \<and> released h h3"
        by (auto simp: released_def)
    qed
  qed
  with s show ?thesis by (intro exI [of _ r] exI [of _ h2]) simp
qed

theorem cam_lifecycle_releases_witness:
  "\<exists>h2 a c w h3. cam_setup demo_ll demo_plat demo_config FRAMESIZE_QVGA 0x26 demo_hal = Some (ESP_OK, h2) \<and>
     cam_obj h2 = Some (a, c) \<and> cam_task_init (task_entry c () 7 9) = Some w \<and>
     cam_deinit demo_ll demo_plat (h2\<lparr>cam_obj := Some (a, cam w), hal_hw := ()\<rparr>) = Some (ESP_OK, h3) \<and>
     live h3 = {} \<and> tasks h3 = 0"
proof -
  note p = demo_plat_ok
  have d: "FRAMESIZE_QVGA \<noteq> FRAMESIZE_INVALID" "finite (live demo_hal)" "0 \<notin> live demo_hal"
    by (simp_all add: demo_hal_def)
  from demo_setup obtain h2 where
    h: "cam_setup demo_ll demo_plat demo_config FRAMESIZE_QVGA 0x26 demo_hal = Some (ESP_OK, h2)" by blast
  with setup_spec [OF p d, of demo_ll "0x26"] obtain a c where c: "cam_obj h2 = Some (a, c)" "configured demo_plat demo_config c"
    by (auto simp: books_def)
  from task_init_total [OF c(2), of "()" 7 9] obtain w where w: "cam_task_init (task_entry c () 7 9) = Some w" by blast
  have "cam_steps demo_ll (waiting w) (waiting w)" by simp
  with cam_lifecycle_releases [OF p d, of demo_ll "0x26"] h c(1) w obtain h3 where
    "cam_deinit demo_ll demo_plat (h2\<lparr>cam_obj := Some (a, cam (sys_w (waiting w))), hal_hw := ()\<rparr>) = Some (ESP_OK, h3)"
    "released demo_hal h3" by fastforce
  then show ?thesis using h c(1) w by (auto simp: released_def demo_hal_def waiting_def)
qed

text \<open>
  C8. A successful set-up leads to a correct start, outside PSRAM mode (on an ESP32, or with a clock other than 16
  MHz): when \<open>cam_init\<close> and \<open>cam_config\<close> succeed, the capture task, whatever its uninitialised local variables hold,
  starts with the configured number of frames, all free and empty, each with a buffer of the frame size (modulo
  $2^{32}$), a DMA buffer of the size the low-level driver chose, both queues empty, and idle. This state satisfies the
  precondition of the theorems on the running system exactly when the sizes the low-level driver chose fit the
  frame size and the copy routine (\<open>sizes_fit\<close>); nothing else is left to the platform.
\<close>

theorem cam_config_starts_system:
  assumes "plat_ok pl cfg" and "target_esp32 pl \<or> xclk_freq_hz cfg \<noteq> 16000000" and "fs \<noteq> FRAMESIZE_INVALID"
    and "finite (live h)" and "0 \<notin> live h"
  shows "\<exists>r h2. cam_setup ll pl cfg fs pid h = Some (r, h2) \<and>
    (r = ESP_OK \<longrightarrow> (\<exists>a c. cam_obj h2 = Some (a, c) \<and> frame_cnt c = fb_count cfg \<and>
       (\<forall>e i j. \<exists>w. cam_task_init (task_entry c e i j) = Some w \<and> started cfg c w \<and>
          (sys_init ll (waiting w) \<longleftrightarrow> sizes_fit ll c))))"
proof -
  from setup_spec [OF assms(1,3-5), of ll pid] obtain r h2 where s: "cam_setup ll pl cfg fs pid h = Some (r, h2)"
    "if r = ESP_OK then \<exists>a c. books pl (live h) (tasks h) a c h2 \<and> configured pl cfg c else released h h2" by blast
  have "\<exists>a c. cam_obj h2 = Some (a, c) \<and> frame_cnt c = fb_count cfg \<and>
       (\<forall>e i j. \<exists>w. cam_task_init (task_entry c e i j) = Some w \<and> started cfg c w \<and>
          (sys_init ll (waiting w) \<longleftrightarrow> sizes_fit ll c))" if "r = ESP_OK"
  proof -
    from s(2) that obtain a c where b: "books pl (live h) (tasks h) a c h2" "configured pl cfg c" by auto
    show ?thesis
    proof (intro exI [of _ a] exI [of _ c] conjI allI)
      show "cam_obj h2 = Some (a, c)" "frame_cnt c = fb_count cfg" using b by (simp_all add: books_def configured_def)
      show "\<exists>w. cam_task_init (task_entry c e i j) = Some w \<and> started cfg c w \<and>
          (sys_init ll (waiting w) \<longleftrightarrow> sizes_fit ll c)" for e i j
        using configured_sys_init [OF assms(1,2) b(2,1), where e = e and i = i and j = j and ll = ll] by auto
    qed
  qed
  with s show ?thesis by blast
qed

theorem cam_config_starts_system_witness:
  "\<exists>h2 a c w. cam_setup demo_ll demo_plat demo_config FRAMESIZE_QVGA 0x26 demo_hal = Some (ESP_OK, h2) \<and>
     cam_obj h2 = Some (a, c) \<and> cam_task_init (task_entry c () 7 9) = Some w \<and> length (frames (cam w)) = 2 \<and>
     sizes_fit demo_ll c \<and> sys_init demo_ll (waiting w)"
proof -
  from demo_setup obtain h2 a c where
    h: "cam_setup demo_ll demo_plat demo_config FRAMESIZE_QVGA 0x26 demo_hal = Some (ESP_OK, h2)"
      "cam_obj h2 = Some (a, c)" "sizes_fit demo_ll c" by blast
  have d: "target_esp32 demo_plat \<or> xclk_freq_hz demo_config \<noteq> 16000000" "FRAMESIZE_QVGA \<noteq> FRAMESIZE_INVALID"
    "finite (live demo_hal)" "0 \<notin> live demo_hal"
    by (simp_all add: demo_plat_def demo_hal_def)
  have "fb_count demo_config = 2" by (simp add: demo_config_def)
  moreover have "\<exists>w. cam_task_init (task_entry c () 7 9) = Some w \<and> started demo_config c w \<and>
      (sys_init demo_ll (waiting w) \<longleftrightarrow> sizes_fit demo_ll c)"
    using cam_config_starts_system [OF demo_plat_ok d, of demo_ll "0x26"] unfolding h(1) using h(2) by simp
  ultimately obtain w where "cam_task_init (task_entry c () 7 9) = Some w" "length (frames (cam w)) = 2"
    "sys_init demo_ll (waiting w)" using h(3) unfolding started_def by metis
  with h show ?thesis by blast
qed

end
