(* ===== verification/Camera.thy ===== *)
theory Camera
  imports Ov2640 Ov3660 CamLife
begin

text \<open>
  The public interface of the component, \<open>driver/esp_camera.c\<close>: probing for a sensor, setting up and
  tearing down the camera, handing out frames, and saving the settings to and loading them from
  non-volatile storage.

  \<open>camera\<close> puts together the capture driver (\<open>hal\<close>), the bus and sensor side (\<open>world\<close>, whose
  \<open>sensor\<close> is the structure \<open>s_state\<close> points to) and the static pointer \<open>s_state\<close> itself.
  \<open>board\<close> holds the parameters: the hardware interfaces, the clock generator (\<open>xclk.c\<close>, not in the
  repository), which sensors are compiled in, and the drivers of the sensors that are not
  modelled. The table \<open>g_sensors\<close> refers to the models of the OV2640 and OV3660 drivers. \<open>None\<close>
  stands for undefined behaviour, here also a call through a NULL function pointer. The code
  for \<open>CONFIG_CAMERA_CONVERTER_ENABLED\<close>, an option of the ESP32-S3 that is off by default, is
  left out.
\<close>

subsection \<open>State and parameters\<close>

record 'd sensor_func_t =
  sf_detect :: "u8 \<Rightarrow> ('d world, int) state"
  sf_init :: "('d world, int) state"

record ('e, 'd) board =
  bd_hw :: "'d hw"
  bd_ll :: "'e ll_cam"
  bd_pl :: "'e plat"
  camera_enable_out_clock :: "camera_config_t \<Rightarrow> 'd \<Rightarrow> 'd"
  camera_disable_out_clock :: "'d \<Rightarrow> 'd"
  config_support :: "camera_model_t \<Rightarrow> bool"
  other_func :: "camera_model_t \<Rightarrow> 'd sensor_func_t"
  other_call :: "camera_model_t \<Rightarrow> sensor_op \<Rightarrow> ('d world, int) state"
  sizeof_camera_state_t :: nat

record ('e, 'd) camera =
  cm_hal :: "'e hal"
  cm_w :: "'d world"
  s_state :: "int option"

definition on_dev :: "('d \<Rightarrow> 'd) \<Rightarrow> ('e, 'd) camera \<Rightarrow> ('e, 'd) camera" where
  "on_dev f cm = cm\<lparr>cm_w := (cm_w cm)\<lparr>dev := f (dev (cm_w cm))\<rparr>\<rparr>"

text \<open>The sensor structure in a block from \<open>calloc\<close>.\<close>

definition zero_sensor :: sensor_t where
  "zero_sensor =
     \<lparr>s_id = \<lparr>id_MIDH = 0, id_MIDL = 0, id_PID = 0, id_VER = 0\<rparr>, s_slv_addr = 0, s_pixformat = PIXFORMAT_RGB565,
      s_status = \<lparr>st_framesize = FRAMESIZE_96X96, st_scale = False, st_binning = False, st_quality = 0,
        st_brightness = 0, st_contrast = 0, st_saturation = 0, st_sharpness = 0, st_denoise = 0,
        st_special_effect = 0, st_wb_mode = 0, st_awb = 0, st_awb_gain = 0, st_aec = 0, st_aec2 = 0,
        st_ae_level = 0, st_aec_value = 0, st_agc = 0, st_agc_gain = 0, st_gainceiling = 0, st_bpc = 0,
        st_wpc = 0, st_raw_gma = 0, st_lenc = 0, st_hmirror = 0, st_vflip = 0, st_dcw = 0, st_colorbar = 0\<rparr>,
      s_xclk_freq_hz = 0, s_driver = No_driver\<rparr>"

abbreviation (input) ESP_ERR_CAMERA_NOT_DETECTED :: esp_err_t where
  "ESP_ERR_CAMERA_NOT_DETECTED \<equiv> 0x20001"

abbreviation (input) ESP_ERR_CAMERA_FAILED_TO_SET_FRAME_SIZE :: esp_err_t where
  "ESP_ERR_CAMERA_FAILED_TO_SET_FRAME_SIZE \<equiv> 0x20002"

subsection \<open>The sensor drivers\<close>

definition sensor_func :: "('e, 'd) board \<Rightarrow> camera_model_t \<Rightarrow> 'd sensor_func_t" where
  "sensor_func bd m =
     (if m = CAMERA_OV2640 then \<lparr>sf_detect = ov2640_detect (bd_hw bd), sf_init = ov2640_init\<rparr>
      else if m = CAMERA_OV3660 then \<lparr>sf_detect = ov3660_detect (bd_hw bd), sf_init = ov3660_init\<rparr>
      else other_func bd m)"

definition g_sensors :: "('e, 'd) board \<Rightarrow> 'd sensor_func_t list" where
  "g_sensors bd = map (sensor_func bd) (filter (config_support bd)
     [CAMERA_OV7725, CAMERA_OV7670, CAMERA_OV2640, CAMERA_OV3660, CAMERA_OV5640, CAMERA_NT99141, CAMERA_GC2145,
      CAMERA_GC032A, CAMERA_GC0308, CAMERA_BF3005, CAMERA_BF20A6, CAMERA_SC101IOT, CAMERA_SC030IOT, CAMERA_SC031GS])"

text \<open>A call through a function pointer of the sensor structure.\<close>

definition driver_call :: "('e, 'd) board \<Rightarrow> camera_model_t \<Rightarrow> sensor_op \<Rightarrow> ('d world, int) state" where
  "driver_call bd m op =
     (if m = CAMERA_OV2640 then ov2640_call (bd_hw bd) op
      else if m = CAMERA_OV3660 then ov3660_call (bd_hw bd) op
      else other_call bd m op)"

definition s_call :: "('e, 'd) board \<Rightarrow> sensor_op \<Rightarrow> ('e, 'd) camera \<Rightarrow> (int \<times> ('e, 'd) camera) option" where
  "s_call bd op cm = (case s_driver (sensor (cm_w cm)) of
     No_driver \<Rightarrow> None
   | Driver m \<Rightarrow> (case run_state (driver_call bd m op) (cm_w cm) of (r, w) \<Rightarrow> Some (r, cm\<lparr>cm_w := w\<rparr>)))"

text \<open>Calls whose results are ignored.\<close>

fun s_calls :: "('e, 'd) board \<Rightarrow> sensor_op list \<Rightarrow> ('e, 'd) camera \<Rightarrow> ('e, 'd) camera option" where
  "s_calls bd [] cm = Some cm"
| "s_calls bd (op # ops) cm = do { (_, cm1) \<leftarrow> s_call bd op cm; s_calls bd ops cm1 }"

subsection \<open>Probing\<close>

text \<open>Pulsing the power-down or the reset line: \<open>first\<close>, then the other level.\<close>

definition pulse_pin :: "'d hw \<Rightarrow> int \<Rightarrow> int \<Rightarrow> ('d world, unit) state" where
  "pulse_pin hw pin first = when_m (pin \<ge> 0) (do {
     modify (\<lambda>w. w\<lparr>dev := gpio_config_output hw pin (dev w)\<rparr>);
     modify (\<lambda>w. w\<lparr>dev := gpio_set_level hw pin first (dev w)\<rparr>);
     delay_ms hw 10;
     modify (\<lambda>w. w\<lparr>dev := gpio_set_level hw pin (1 - first) (dev w)\<rparr>);
     delay_ms hw 10 })"

fun detect_sensor :: "'d sensor_func_t list \<Rightarrow> u8 \<Rightarrow> ('d world, camera_model_t) state" where
  "detect_sensor [] slv_addr = ret CAMERA_NONE"
| "detect_sensor (f # fs) slv_addr = do {
     r \<leftarrow> sf_detect f slv_addr;
     if r \<noteq> 0 then do {
       i \<leftarrow> gets (\<lambda>w. s_id (sensor w));
       (case esp_camera_sensor_get_info i of
          Some info \<Rightarrow> do { _ \<leftarrow> sf_init f; ret (ci_model info) }
        | None \<Rightarrow> detect_sensor fs slv_addr) }
     else detect_sensor fs slv_addr }"

text \<open>\<open>camera_probe\<close> from the bus initialisation up to the reset of the sensor.\<close>

definition probe_bus :: "('e, 'd) board \<Rightarrow> camera_config_t \<Rightarrow> ('d world, esp_err_t \<times> camera_model_t) state" where
  "probe_bus bd cfg = do {
     let hw = bd_hw bd;
     r \<leftarrow> (if pin_sccb_sda cfg \<noteq> - 1 then SCCB_Init hw (pin_sccb_sda cfg) (pin_sccb_scl cfg)
            else SCCB_Use_Port hw (cfg_sccb_i2c_port cfg));
     if r \<noteq> ESP_OK then ret (r, CAMERA_NONE)
     else do {
       pulse_pin hw (pin_pwdn cfg) 1;
       pulse_pin hw (pin_reset cfg) 0;
       delay_ms hw 10;
       slv_addr \<leftarrow> SCCB_Probe hw;
       if slv_addr = 0 then ret (ESP_ERR_NOT_FOUND, CAMERA_NONE)
       else do {
         upd_sensor (\<lambda>s. s\<lparr>s_slv_addr := slv_addr, s_xclk_freq_hz := xclk_freq_hz cfg\<rparr>);
         m \<leftarrow> detect_sensor (g_sensors bd) slv_addr;
         if m = CAMERA_NONE then ret (ESP_ERR_NOT_SUPPORTED, CAMERA_NONE)
         else do { delay_ms hw 10; ret (ESP_OK, m) } } } }"

definition camera_probe ::
    "('e, 'd) board \<Rightarrow> camera_config_t \<Rightarrow> ('e, 'd) camera \<Rightarrow> (esp_err_t \<times> camera_model_t \<times> ('e, 'd) camera) option" where
  "camera_probe bd cfg cm =
     (if s_state cm \<noteq> None then Some (ESP_ERR_INVALID_STATE, CAMERA_NONE, cm)
      else case heap_malloc (bd_pl bd) MALLOC_CAP_DEFAULT (sizeof_camera_state_t bd) (cm_hal cm) of
        (None, h) \<Rightarrow> Some (ESP_ERR_NO_MEM, CAMERA_NONE, cm\<lparr>cm_hal := h\<rparr>)
      | (Some a, h) \<Rightarrow> do {
          let cm1 = cm\<lparr>cm_hal := h, s_state := Some a, cm_w := (cm_w cm)\<lparr>sensor := zero_sensor\<rparr>\<rparr>;
          let cm2 = (if pin_xclk cfg \<ge> 0 then on_dev (camera_enable_out_clock bd cfg) cm1 else cm1);
          let ((r, m), w) = run_state (probe_bus bd cfg) (cm_w cm2);
          let cm3 = cm2\<lparr>cm_w := w\<rparr>;
          if r \<noteq> ESP_OK then Some (r, m, on_dev (camera_disable_out_clock bd) cm3)
          else do { (r2, cm4) \<leftarrow> s_call bd Reset cm3; Some (r2, m, cm4) } })"

subsection \<open>Set-up and tear-down\<close>

definition esp_camera_deinit :: "('e, 'd) board \<Rightarrow> ('e, 'd) camera \<Rightarrow> (esp_err_t \<times> ('e, 'd) camera) option" where
  "esp_camera_deinit bd cm = do {
     (r, h) \<leftarrow> cam_deinit (bd_ll bd) (bd_pl bd) (cm_hal cm);
     let cm1 = on_dev (camera_disable_out_clock bd) (cm\<lparr>cm_hal := h\<rparr>);
     (case s_state cm1 of
        None \<Rightarrow> Some (r, cm1)
      | Some a \<Rightarrow> do {
          let (_, w) = run_state (SCCB_Deinit (bd_hw bd)) (cm_w cm1);
          h1 \<leftarrow> heap_free a (cm_hal cm1);
          Some (r, cm1\<lparr>cm_w := w, cm_hal := h1, s_state := None\<rparr>) }) }"

text \<open>The calls on a detected sensor once frame size and pixel format are set.\<close>

definition sensor_setup_ops :: "camera_config_t \<Rightarrow> u16 \<Rightarrow> sensor_op list" where
  "sensor_setup_ops cfg pid =
     (if pid = 0x26 then [Set_gainceiling 0, Set_bpc 0, Set_wpc 1, Set_lenc 1] else []) @
     (if pixel_format cfg = PIXFORMAT_JPEG then [Set_quality (jpeg_quality cfg)] else []) @
     [Init_status]"

text \<open>A frame size the sensor cannot deliver is replaced by its largest one.\<close>

definition allowed_size :: "camera_config_t \<Rightarrow> camera_sensor_info_t \<Rightarrow> framesize_t" where
  "allowed_size cfg info = (if frame_size cfg > ci_max_size info then ci_max_size info else frame_size cfg)"

text \<open>Frame size and pixel format noted in the sensor structure before the calls that set them.\<close>

definition note_mode :: "camera_config_t \<Rightarrow> framesize_t \<Rightarrow> ('e, 'd) camera \<Rightarrow> ('e, 'd) camera" where
  "note_mode cfg fs cm = cm\<lparr>cm_w := (cm_w cm)\<lparr>sensor :=
     (on_status (st_framesize_update (\<lambda>_. fs)) (sensor (cm_w cm)))\<lparr>s_pixformat := pixel_format cfg\<rparr>\<rparr>\<rparr>"

text \<open>\<open>esp_camera_init\<close> between the probe and the label \<open>fail\<close>.\<close>

definition init_detected ::
    "('e, 'd) board \<Rightarrow> camera_config_t \<Rightarrow> camera_model_t \<Rightarrow> ('e, 'd) camera \<Rightarrow> (esp_err_t \<times> ('e, 'd) camera) option" where
  "init_detected bd cfg m cm =
     (if length camera_sensor \<le> camera_model_index m then None
      else let info = camera_sensor ! camera_model_index m in
      if pixel_format cfg = PIXFORMAT_JPEG \<and> \<not> ci_support_jpeg info then Some (ESP_ERR_NOT_SUPPORTED, cm)
      else do {
        let fs = allowed_size cfg info;
        (r, h) \<leftarrow> cam_config (bd_ll bd) (bd_pl bd) (Some cfg) fs (id_PID (s_id (sensor (cm_w cm)))) (cm_hal cm);
        let cm1 = cm\<lparr>cm_hal := h\<rparr>;
        if r \<noteq> ESP_OK then Some (r, cm1)
        else do {
          (r2, cm3) \<leftarrow> s_call bd (Set_framesize fs) (note_mode cfg fs cm1);
          if r2 \<noteq> 0 then Some (ESP_ERR_CAMERA_FAILED_TO_SET_FRAME_SIZE, cm3)
          else do {
            (_, cm4) \<leftarrow> s_call bd (Set_pixformat (pixel_format cfg)) cm3;
            cm5 \<leftarrow> s_calls bd (sensor_setup_ops cfg (id_PID (s_id (sensor (cm_w cm4))))) cm4;
            Some (ESP_OK, cm5\<lparr>cm_hal := (cm_hal cm5)\<lparr>hal_hw :=
              ll_cam_vsync_intr_enable (bd_ll bd) True (hal_hw (cm_hal cm5))\<rparr>\<rparr>) } } })"

definition esp_camera_init ::
    "('e, 'd) board \<Rightarrow> camera_config_t option \<Rightarrow> ('e, 'd) camera \<Rightarrow> (esp_err_t \<times> ('e, 'd) camera) option" where
  "esp_camera_init bd config cm = do {
     (r, h) \<leftarrow> cam_init (bd_pl bd) config (cm_hal cm);
     let cm1 = cm\<lparr>cm_hal := h\<rparr>;
     if r \<noteq> ESP_OK then Some (r, cm1)
     else do {
       cfg \<leftarrow> config;
       (r1, m, cm2) \<leftarrow> camera_probe bd cfg cm1;
       (r2, cm3) \<leftarrow> (if r1 \<noteq> ESP_OK then Some (r1, cm2) else init_detected bd cfg m cm2);
       if r2 = ESP_OK then Some (ESP_OK, cm3)
       else do { (_, cm4) \<leftarrow> esp_camera_deinit bd cm3; Some (r2, cm4) } } }"

subsection \<open>Frames\<close>

text \<open>
  The calls by which an application gets and returns frames. They run against the capture system,
  \<open>sys_w\<close> of \<open>CamSys\<close>; \<open>cm\<close> is the camera they read the sensor structure from. \<open>tick_ms\<close> is
  \<open>portTICK_PERIOD_MS\<close>.
\<close>

definition FB_GET_TIMEOUT :: "nat \<Rightarrow> TickType_t" where
  "FB_GET_TIMEOUT tick_ms = of_nat (4000 div tick_ms)"

definition esp_camera_fb_get ::
    "('e, 'd) board \<Rightarrow> nat \<Rightarrow> 'e cam_env \<Rightarrow> ('e, 'd) camera \<Rightarrow> kernel \<times> 'e cam_world
     \<Rightarrow> (fb_ptr \<times> kernel \<times> 'e cam_world) option" where
  "esp_camera_fb_get bd tick_ms env cm s =
     (if s_state cm = None then Some (None, s)
      else do {
        (p, k, w) \<leftarrow> cam_take (bd_ll bd) env (FB_GET_TIMEOUT tick_ms) s;
        (case p of
           None \<Rightarrow> Some (None, k, w)
         | Some x \<Rightarrow> do {
             let se = sensor (cm_w cm);
             let fs = st_framesize (s_status se);
             if fs = FRAMESIZE_INVALID then None
             else do {
               c \<leftarrow> set_frame x (fb_update (\<lambda>b. b\<lparr>fb_width := unat (ri_width (resolution_at fs)),
                      fb_height := unat (ri_height (resolution_at fs)), fb_format := s_pixformat se\<rparr>)) (cam w);
               Some (Some x, k, w\<lparr>cam := c\<rparr>) } }) })"

definition esp_camera_fb_return :: "('e, 'd) camera \<Rightarrow> fb_ptr \<Rightarrow> 'e cam_world \<Rightarrow> 'e cam_world option" where
  "esp_camera_fb_return cm p w =
     (if s_state cm = None then Some w else do { c \<leftarrow> cam_give p (cam w); Some (w\<lparr>cam := c\<rparr>) })"

definition esp_camera_return_all :: "('e, 'd) camera \<Rightarrow> 'e cam_world \<Rightarrow> 'e cam_world option" where
  "esp_camera_return_all cm w =
     (if s_state cm = None then Some w else do { c \<leftarrow> cam_give_all (cam w); Some (w\<lparr>cam := c\<rparr>) })"

definition esp_camera_sensor_get :: "('e, 'd) camera \<Rightarrow> sensor_t option" where
  "esp_camera_sensor_get cm = (if s_state cm = None then None else Some (sensor (cm_w cm)))"

subsection \<open>Settings in non-volatile storage\<close>

text \<open>
  The storage library is a parameter: one function per call, on a storage state \<open>'n\<close>. Handles are integers;
  a blob is the status structure it holds.
\<close>

record 'n nvs =
  nvs_open :: "string \<Rightarrow> 'n \<Rightarrow> (esp_err_t \<times> int) \<times> 'n"
  nvs_close :: "int \<Rightarrow> 'n \<Rightarrow> 'n"
  nvs_set_blob :: "int \<Rightarrow> string \<Rightarrow> camera_status_t \<Rightarrow> 'n \<Rightarrow> esp_err_t \<times> 'n"
  nvs_set_u8 :: "int \<Rightarrow> string \<Rightarrow> u8 \<Rightarrow> 'n \<Rightarrow> esp_err_t \<times> 'n"
  nvs_get_blob :: "int \<Rightarrow> string \<Rightarrow> 'n \<Rightarrow> (esp_err_t \<times> camera_status_t) \<times> 'n"
  nvs_get_u8 :: "int \<Rightarrow> string \<Rightarrow> 'n \<Rightarrow> (esp_err_t \<times> u8) \<times> 'n"

definition CAMERA_SENSOR_NVS_KEY :: string where
  "CAMERA_SENSOR_NVS_KEY = ''sensor''"

definition CAMERA_PIXFORMAT_NVS_KEY :: string where
  "CAMERA_PIXFORMAT_NVS_KEY = ''pixformat''"

text \<open>Every path of \<open>esp_camera_save_to_nvs\<close> on which the storage was opened returns before \<open>nvs_close\<close>.\<close>

definition esp_camera_save_to_nvs :: "'n nvs \<Rightarrow> string \<Rightarrow> ('e, 'd) camera \<Rightarrow> 'n \<Rightarrow> esp_err_t \<times> 'n" where
  "esp_camera_save_to_nvs nv key cm n =
     (case nvs_open nv key n of ((r, handle), n1) \<Rightarrow>
        if r = ESP_OK then
          (case esp_camera_sensor_get cm of
             Some s \<Rightarrow>
               (case nvs_set_blob nv handle CAMERA_SENSOR_NVS_KEY (s_status s) n1 of (r1, n2) \<Rightarrow>
                  if r1 = ESP_OK
                  then nvs_set_u8 nv handle CAMERA_PIXFORMAT_NVS_KEY (of_nat (pixformat_index (s_pixformat s))) n2
                  else (r1, n2))
           | None \<Rightarrow> (ESP_ERR_CAMERA_NOT_DETECTED, n1))
        else (r, n1))"

text \<open>The setters \<open>esp_camera_load_from_nvs\<close> calls, in its order.\<close>

definition restore_ops :: "camera_status_t \<Rightarrow> sensor_op list" where
  "restore_ops st =
     [Set_ae_level (st_ae_level st), Set_aec2 (uint (st_aec2 st)), Set_aec_value (uint (st_aec_value st)),
      Set_agc_gain (uint (st_agc_gain st)), Set_awb_gain (uint (st_awb_gain st)), Set_bpc (uint (st_bpc st)),
      Set_brightness (st_brightness st), Set_colorbar (uint (st_colorbar st)), Set_contrast (st_contrast st),
      Set_dcw (uint (st_dcw st)), Set_denoise (uint (st_denoise st)), Set_exposure_ctrl (uint (st_aec st)),
      Set_framesize (st_framesize st), Set_gain_ctrl (uint (st_agc st)), Set_gainceiling (uint (st_gainceiling st)),
      Set_hmirror (uint (st_hmirror st)), Set_lenc (uint (st_lenc st)), Set_quality (uint (st_quality st)),
      Set_raw_gma (uint (st_raw_gma st)), Set_saturation (st_saturation st), Set_sharpness (st_sharpness st),
      Set_special_effect (uint (st_special_effect st)), Set_vflip (uint (st_vflip st)),
      Set_wb_mode (uint (st_wb_mode st)), Set_whitebal (uint (st_awb st)), Set_wpc (uint (st_wpc st))]"

text \<open>The enumerator with a given value; a stored byte that is none has no counterpart in the model.\<close>

definition pixformat_of :: "u8 \<Rightarrow> pixformat_t option" where
  "pixformat_of b = find (\<lambda>f. pixformat_index f = unat b)
     [PIXFORMAT_RGB565, PIXFORMAT_YUV422, PIXFORMAT_YUV420, PIXFORMAT_GRAYSCALE, PIXFORMAT_JPEG,
      PIXFORMAT_RGB888, PIXFORMAT_RAW, PIXFORMAT_RGB444, PIXFORMAT_RGB555]"

definition esp_camera_load_from_nvs ::
    "('e, 'd) board \<Rightarrow> 'n nvs \<Rightarrow> string \<Rightarrow> ('e, 'd) camera \<Rightarrow> 'n \<Rightarrow> (esp_err_t \<times> ('e, 'd) camera \<times> 'n) option" where
  "esp_camera_load_from_nvs bd nv key cm n =
     (case nvs_open nv key n of ((r, handle), n1) \<Rightarrow>
        if r \<noteq> ESP_OK then Some (r, cm, n1)
        else if esp_camera_sensor_get cm = None then Some (ESP_ERR_CAMERA_NOT_DETECTED, cm, n1)
        else (case nvs_get_blob nv handle CAMERA_SENSOR_NVS_KEY n1 of ((r1, st), n2) \<Rightarrow> do {
          cm1 \<leftarrow> (if r1 = ESP_OK then s_calls bd (restore_ops st) cm else Some cm);
          (case nvs_get_u8 nv handle CAMERA_PIXFORMAT_NVS_KEY n2 of ((r2, pf), n3) \<Rightarrow> do {
             cm2 \<leftarrow> (if r2 = ESP_OK then do {
                       f \<leftarrow> pixformat_of pf;
                       (_, cm2) \<leftarrow> s_call bd (Set_pixformat f) cm1;
                       Some cm2 }
                     else Some cm1);
             Some (r2, cm2, nvs_close nv handle n3) }) }))"


subsection \<open>The drivers keep the function pointers\<close>

abbreviation installed :: "'d world \<Rightarrow> sensor_driver" where
  "installed \<equiv> (\<lambda>w. s_driver (sensor w))"

lemma keeps_installed: "keeps sensor m \<Longrightarrow> keeps installed m"
  by (simp add: keeps_def)

lemma keeps_installed_upd [keeps_rules]:
  "keeps installed (upd_status f)" "keeps installed slv_addr_m" "keeps installed status_m"
  by (simp_all add: keeps_def)

lemma keeps_installed_assigns: "assigns f m \<Longrightarrow> (\<And>s. s_driver (f s) = s_driver s) \<Longrightarrow> keeps installed m"
  by (simp add: keeps_def assigns_def)

lemma keeps_installed_commits: "commits f m \<Longrightarrow> (\<And>s. s_driver (f s) = s_driver s) \<Longrightarrow> keeps installed m"
  by (rule keepsI) (metis commitsD)

lemma on_status_driver [simp]: "s_driver (on_status f s) = s_driver s"
  by (simp add: on_status_def)

lemma keeps_installed_xclk:
  "keeps installed (ov2640_set_xclk hw t x)" "keeps installed (ov3660_set_xclk hw t x)"
  by (simp_all add: keeps_def ov2640_set_xclk_def ov3660_set_xclk_def split: prod.split)

lemma keeps_installed_init2640: "keeps installed (ov2640_init_status hw)"
  unfolding ov2640_init_status_def
  by (intro keeps_rules; (rule keeps_installed)?; intro keeps_rules)

lemma keeps_ov3660_get: "keeps sensor (ov3660_get_denoise hw)" "keeps sensor (ov3660_get_agc_gain hw)"
  "keeps sensor (ov3660_get_aec_value hw)"
  by (simp_all add: ov3660_get_denoise_def ov3660_get_agc_gain_def ov3660_get_aec_value_def Let_def keeps_rules)

lemma keeps_installed_init3660: "keeps installed (ov3660_init_status hw)"
  unfolding ov3660_init_status_def
  by (intro keeps_rules keeps_ov3660_get [THEN keeps_installed]; (rule keeps_installed)?; intro keeps_rules)

lemma keeps_installed_ov2640: "keeps installed (ov2640_call hw op)"
proof (cases "ov2640_spec op")
  case None
  then show ?thesis by (cases op) (simp_all add: keeps_installed_xclk keeps_installed_init2640)
next
  case (Some f)
  have "s_driver (f s) = s_driver s" for s using Some by (cases op) (auto split: if_splits)
  then show ?thesis using assigns_ov2640 [OF Some] by (intro keeps_installed_assigns)
qed

lemma keeps_installed_ov3660_other:
  "keeps installed (ov3660_set_framesize hw fs)" "keeps installed (ov3660_set_hmirror hw e)"
  "keeps installed (ov3660_set_vflip hw e)"
  "keeps installed (ov3660_set_res_raw hw sx sy ex ey fx fy tx ty ox oy sc b)"
  "keeps installed (ov3660_set_aec_value hw v)"
  unfolding ov3660_set_aec_value_def ov3660_set_framesize_def ov3660_set_hmirror_def ov3660_set_vflip_def ov3660_set_res_raw_def Let_def
  by (auto intro!: keeps_rules keeps_ov3660_access [THEN keeps_installed] keeps_ov3660_set_image_options [THEN keeps_installed]
      keeps_ov3660_framesize_window [THEN keeps_installed] keeps_ov3660_framesize_pll [THEN keeps_installed])

lemma keeps_installed_ov3660: "keeps installed (ov3660_call hw op)"
proof (cases "ov3660_spec op")
  case None
  then show ?thesis
    by (cases op) (simp_all add: keeps_installed_xclk keeps_installed_init3660 keeps_installed_ov3660_other)
next
  case (Some f)
  then have "commits f (ov3660_call hw op)" by (cases op) (auto simp: commits_ov3660)
  moreover have "s_driver (f s) = s_driver s" for s using Some by (cases op) (auto split: if_splits)
  ultimately show ?thesis by (rule keeps_installed_commits)
qed


subsection \<open>Set-up is all or nothing\<close>

text \<open>A build with the drivers that are modelled, and a sensor structure filled by one of them.\<close>

definition modelled_build :: "('e, 'd) board \<Rightarrow> bool" where
  "modelled_build bd \<longleftrightarrow> (\<forall>m. config_support bd m \<longrightarrow> m = CAMERA_OV2640 \<or> m = CAMERA_OV3660)"

definition driven :: "'d world \<Rightarrow> bool" where
  "driven w \<longleftrightarrow> installed w = Driver CAMERA_OV2640 \<or> installed w = Driver CAMERA_OV3660"

lemma s_call_total:
  assumes "driven (cm_w cm)"
  shows "\<exists>r w. s_call bd op cm = Some (r, cm\<lparr>cm_w := w\<rparr>) \<and> driven w"
proof -
  from assms obtain m where m: "installed (cm_w cm) = Driver m" "m = CAMERA_OV2640 \<or> m = CAMERA_OV3660"
    by (auto simp: driven_def)
  obtain r w where r: "run_state (driver_call bd m op) (cm_w cm) = (r, w)" by (metis surj_pair)
  have "keeps installed (driver_call bd m op)"
    using m(2) by (auto simp: driver_call_def keeps_installed_ov2640 keeps_installed_ov3660)
  from keepsD [OF this r] have "driven w" using m by (auto simp: driven_def)
  with m(1) r show ?thesis by (intro exI [of _ r] exI [of _ w]) (simp add: s_call_def)
qed

lemma s_calls_total: "driven (cm_w cm) \<Longrightarrow> \<exists>w. s_calls bd ops cm = Some (cm\<lparr>cm_w := w\<rparr>) \<and> driven w"
proof (induction ops arbitrary: cm)
  case Nil
  then show ?case by (intro exI [of _ "cm_w cm"]) simp
next
  case (Cons op ops)
  from s_call_total [OF Cons.prems, of bd op] obtain r w where
    1: "s_call bd op cm = Some (r, cm\<lparr>cm_w := w\<rparr>)" "driven w" by blast
  with Cons.IH [of "cm\<lparr>cm_w := w\<rparr>"] show ?case by auto
qed

definition known_model :: "camera_model_t \<Rightarrow> bool" where
  "known_model m \<longleftrightarrow> camera_model_index m < length camera_sensor"

lemma info_known: "esp_camera_sensor_get_info i = Some info \<Longrightarrow> known_model (ci_model info)"
proof -
  assume "esp_camera_sensor_get_info i = Some info"
  then have "info \<in> set camera_sensor" by (auto simp: esp_camera_sensor_get_info_def find_Some_iff)
  then show ?thesis by (auto simp: camera_sensor_def known_model_def)
qed

lemma wp_seq: "(\<And>x v. wp (f x) Q v) \<Longrightarrow> wp (State_Monad.bind m f) Q w"
  by (simp add: wp_def split_beta)

lemma detect_spec:
  assumes "\<forall>f \<in> set fs. f = sensor_func bd CAMERA_OV2640 \<or> f = sensor_func bd CAMERA_OV3660"
  shows "wp (detect_sensor fs a) (\<lambda>m w. m = CAMERA_NONE \<or> driven w \<and> known_model m) w"
  using assms
proof (induction fs arbitrary: w)
  case (Cons f fs)
  have init: "wp (sf_init f) (\<lambda>_. driven) v" for v
    using Cons.prems by (auto simp: sensor_func_def ov2640_init_def ov3660_init_def driven_def)
  have rest: "wp (detect_sensor fs a) (\<lambda>m w. m = CAMERA_NONE \<or> driven w \<and> known_model m) v" for v
    using Cons by simp
  have "wp (case esp_camera_sensor_get_info i of Some info \<Rightarrow> do { _ \<leftarrow> sf_init f; ret (ci_model info) }
      | None \<Rightarrow> detect_sensor fs a) (\<lambda>m w. m = CAMERA_NONE \<or> driven w \<and> known_model m) v" for i v
  proof (cases "esp_camera_sensor_get_info i")
    case (Some info)
    have "wp (do { _ \<leftarrow> sf_init f; ret (ci_model info) }) (\<lambda>m w. m = CAMERA_NONE \<or> driven w \<and> known_model m) v"
      unfolding wp_bind wp_return by (rule wp_mono [OF init]) (simp add: info_known [OF Some])
    with Some show ?thesis by simp
  qed (simp add: rest)
  then show ?case unfolding detect_sensor.simps by (intro wp_seq) (simp add: rest)
qed simp

lemma probe_bus_spec:
  assumes "modelled_build bd"
  shows "wp (probe_bus bd cfg) (\<lambda>(r, m) w. r = ESP_OK \<longrightarrow> driven w \<and> known_model m) w"
proof -
  have "\<forall>f \<in> set (g_sensors bd). f = sensor_func bd CAMERA_OV2640 \<or> f = sensor_func bd CAMERA_OV3660"
    using assms unfolding g_sensors_def set_map set_filter modelled_build_def by blast
  from detect_spec [OF this] have d: "wp (detect_sensor (g_sensors bd) a) (\<lambda>m w. m = CAMERA_NONE \<or> driven w \<and> known_model m) v" for a v .
  let ?Q = "\<lambda>(r, m) w. r = ESP_OK \<longrightarrow> driven w \<and> known_model m"
  have k: "wp (do { m \<leftarrow> detect_sensor (g_sensors bd) a;
      if m = CAMERA_NONE then ret (ESP_ERR_NOT_SUPPORTED, CAMERA_NONE) else do { delay_ms hw 10; ret (ESP_OK, m) } }) ?Q v"
    for a v and hw :: "'b hw"
    unfolding wp_bind by (rule wp_mono [OF d]) (auto simp: wp_def driven_def)
  show ?thesis unfolding probe_bus_def Let_def
  proof (rule wp_seq, unfold wp_if, intro conjI impI)
    fix r :: int and v :: "'b world"
    show "wp (do {
       pulse_pin (bd_hw bd) (pin_pwdn cfg) 1;
       pulse_pin (bd_hw bd) (pin_reset cfg) 0;
       delay_ms (bd_hw bd) 10;
       slv_addr \<leftarrow> SCCB_Probe (bd_hw bd);
       if slv_addr = 0 then ret (ESP_ERR_NOT_FOUND, CAMERA_NONE)
       else do {
         upd_sensor (\<lambda>s. s\<lparr>s_slv_addr := slv_addr, s_xclk_freq_hz := xclk_freq_hz cfg\<rparr>);
         m \<leftarrow> detect_sensor (g_sensors bd) slv_addr;
         if m = CAMERA_NONE then ret (ESP_ERR_NOT_SUPPORTED, CAMERA_NONE)
         else do { delay_ms (bd_hw bd) 10; ret (ESP_OK, m) } } }) ?Q v"
      by (intro wp_seq) (simp add: k del: wp_bind, intro impI wp_seq k)
  qed simp
qed


text \<open>The camera side of the books: with \<open>s_state\<close> allocated, its block belongs to the camera.\<close>

definition base :: "int set \<Rightarrow> ('e, 'd) camera \<Rightarrow> int set" where
  "base B cm = B \<union> set_option (s_state cm)"

definition state_ok :: "int set \<Rightarrow> ('e, 'd) camera \<Rightarrow> bool" where
  "state_ok B cm \<longleftrightarrow> (\<forall>a. s_state cm = Some a \<longrightarrow> a \<notin> B \<and> a \<noteq> 0)"

definition idle_hal :: "int set \<Rightarrow> nat \<Rightarrow> 'e hal \<Rightarrow> bool" where
  "idle_hal B t h \<longleftrightarrow> live h = B \<and> tasks h = t \<and> cam_obj h = None"

lemma on_dev_simps [simp]:
  "cm_hal (on_dev f cm) = cm_hal cm" "s_state (on_dev f cm) = s_state cm"
  "sensor (cm_w (on_dev f cm)) = sensor (cm_w cm)"
  by (simp_all add: on_dev_def)

lemma base_cong: "s_state cm' = s_state cm \<Longrightarrow> base B cm' = base B cm" "s_state cm' = s_state cm \<Longrightarrow> state_ok B cm' = state_ok B cm"
  by (simp_all add: base_def state_ok_def)

lemma acct_absorb: "acct B (add_mset a M) h \<Longrightarrow> acct (insert a B) M h \<and> a \<notin> B \<and> a \<noteq> 0"
proof -
  assume a: "acct B (add_mset a M) h"
  then have p: "a \<in> live h - B" "a \<noteq> 0" using acct_nonzero by fastforce+
  have "mset_set (live h - B) = add_mset a (mset_set (live h - B - {a}))"
    using a p(1) by (intro mset_set.remove) (simp_all add: acct_def)
  moreover have "live h - B - {a} = live h - insert a B" by blast
  ultimately show ?thesis using a p by (simp add: acct_def)
qed

lemma sccb_deinit_owns: "run_state (SCCB_Deinit hw) w = (r, w') \<Longrightarrow> \<not> sccb_owns_i2c_port w'"
  by (auto simp: SCCB_Deinit_def split: if_splits prod.splits)

lemma deinit_camera:
  assumes "books (bd_pl bd) (base B cm) t a c (cm_hal cm) \<or> idle_hal (base B cm) t (cm_hal cm)" and "state_ok B cm"
  shows "\<exists>r cm'. esp_camera_deinit bd cm = Some (r, cm') \<and> idle_hal B t (cm_hal cm') \<and> s_state cm' = None \<and>
    (s_state cm \<noteq> None \<longrightarrow> \<not> sccb_owns_i2c_port (cm_w cm')) \<and>
    (s_state cm = None \<longrightarrow> sccb_owns_i2c_port (cm_w cm') = sccb_owns_i2c_port (cm_w cm)) \<and>
    (r = ESP_OK \<longleftrightarrow> cam_obj (cm_hal cm) \<noteq> None)"
proof -
  have "\<exists>r h. cam_deinit (bd_ll bd) (bd_pl bd) (cm_hal cm) = Some (r, h) \<and> idle_hal (base B cm) t h \<and>
      (r = ESP_OK \<longleftrightarrow> cam_obj (cm_hal cm) \<noteq> None)"
  proof (cases "cam_obj (cm_hal cm)")
    case None
    then show ?thesis using assms(1) by (auto simp: books_def cam_deinit_def)
  next
    case (Some x)
    with assms(1) have "books (bd_pl bd) (base B cm) t a c (cm_hal cm)" by (auto simp: idle_hal_def)
    from deinit_spec [OF this, of "bd_ll bd"] Some show ?thesis by (auto simp: idle_hal_def)
  qed
  then obtain r h where d: "cam_deinit (bd_ll bd) (bd_pl bd) (cm_hal cm) = Some (r, h)" "idle_hal (base B cm) t h"
    "r = ESP_OK \<longleftrightarrow> cam_obj (cm_hal cm) \<noteq> None" by blast
  show ?thesis
  proof (cases "s_state cm")
    case None
    with d show ?thesis by (simp add: esp_camera_deinit_def base_def) (simp add: on_dev_def)
  next
    case (Some s)
    obtain r' w where w: "run_state (SCCB_Deinit (bd_hw bd)) (cm_w (on_dev (camera_disable_out_clock bd) (cm\<lparr>cm_hal := h\<rparr>))) = (r', w)"
      by (metis surj_pair)
    have s: "s \<notin> B" "s \<noteq> 0" "live h = insert s B" using assms(2) Some d(2) by (simp_all add: state_ok_def idle_hal_def base_def)
    then have "heap_free s h = Some (h\<lparr>live := B\<rparr>)" by (simp add: heap_free_def)
    with d Some w show ?thesis using sccb_deinit_owns [OF w]
      by (simp add: esp_camera_deinit_def idle_hal_def Let_def)
  qed
qed

lemma probe_spec:
  assumes "modelled_build bd" and "alloc_ok (bd_pl bd)" and "s_state cm = None"
    and "books (bd_pl bd) B t a c (cm_hal cm)"
  shows "\<exists>r m cm'. camera_probe bd cfg cm = Some (r, m, cm') \<and> books (bd_pl bd) (base B cm') t a c (cm_hal cm') \<and>
    state_ok B cm' \<and> (r = ESP_OK \<longrightarrow> driven (cm_w cm') \<and> known_model m \<and> s_state cm' \<noteq> None) \<and>
    (s_state cm' = None \<longrightarrow> cm_w cm' = cm_w cm)"
proof -
  have b: "cam_obj (cm_hal cm) = Some (a, c)" "acct B (add_mset a (blocks (bd_pl bd) c)) (cm_hal cm)"
    using assms(4) by (simp_all add: books_def)
  have bk: "books (bd_pl bd) B' t a c h" if "acct B' (add_mset a (blocks (bd_pl bd) c)) h" "tasks h = tasks (cm_hal cm)"
    "cam_obj h = cam_obj (cm_hal cm)" for B' h using that assms(4) by (simp add: books_def)
  from assms(2) b(2) show ?thesis
  proof (cases rule: malloc_cases [where caps = MALLOC_CAP_DEFAULT and n = "sizeof_camera_state_t bd"])
    case (fail h)
    with bk [OF fail(2-4)] assms(3) show ?thesis by (simp add: camera_probe_def base_def state_ok_def)
  next
    case (ok s h)
    have ac: "acct (insert s B) (add_mset a (blocks (bd_pl bd) c)) h" "s \<notin> B" "s \<noteq> 0" using acct_absorb [OF ok(2)] by simp_all
    let ?cm1 = "cm\<lparr>cm_hal := h, s_state := Some s, cm_w := (cm_w cm)\<lparr>sensor := zero_sensor\<rparr>\<rparr>"
    define cm2 where "cm2 = (if pin_xclk cfg \<ge> 0 then on_dev (camera_enable_out_clock bd cfg) ?cm1 else ?cm1)"
    have cm2: "cm_hal cm2 = h" "s_state cm2 = Some s" by (simp_all add: cm2_def)
    obtain r m w where p: "run_state (probe_bus bd cfg) (cm_w cm2) = ((r, m), w)" by (metis prod.collapse)
    have dr: "r = ESP_OK \<Longrightarrow> driven w \<and> known_model m"
      using wpD [OF probe_bus_spec [OF assms(1)] p] by simp
    have final: "books (bd_pl bd) (base B cm') t a c (cm_hal cm') \<and> state_ok B cm' \<and> s_state cm' \<noteq> None"
      if "cm_hal cm' = h" "s_state cm' = Some s" for cm' :: "('a, 'b) camera"
      using that bk [OF ac(1) ok(3,4)] ac(2,3) by (simp add: base_def state_ok_def)
    show ?thesis
    proof (cases "r = ESP_OK")
      case False
      let ?cm = "on_dev (camera_disable_out_clock bd) (cm2\<lparr>cm_w := w\<rparr>)"
      have "camera_probe bd cfg cm = Some (r, m, ?cm)"
        using assms(3) ok(1) p False unfolding camera_probe_def by (simp add: cm2_def [symmetric] Let_def)
      with final [of ?cm] cm2 False show ?thesis by auto
    next
      case True
      from s_call_total [of "cm2\<lparr>cm_w := w\<rparr>" bd Reset] dr [OF True] obtain r2 w2 where
        s: "s_call bd Reset (cm2\<lparr>cm_w := w\<rparr>) = Some (r2, cm2\<lparr>cm_w := w2\<rparr>)" "driven w2" by auto
      have "camera_probe bd cfg cm = Some (r2, m, cm2\<lparr>cm_w := w2\<rparr>)"
        using assms(3) ok(1) p True s unfolding camera_probe_def by (simp add: cm2_def [symmetric] Let_def)
      with final [of "cm2\<lparr>cm_w := w2\<rparr>"] cm2 s(2) dr [OF True] show ?thesis by auto
    qed
  qed
qed


lemma max_size_valid: "known_model m \<Longrightarrow> ci_max_size (camera_sensor ! camera_model_index m) < FRAMESIZE_INVALID"
proof -
  have "\<forall>i \<in> set camera_sensor. ci_max_size i < FRAMESIZE_INVALID" by (simp add: camera_sensor_def less_framesize_t_def)
  then show "known_model m \<Longrightarrow> ?thesis" by (simp add: known_model_def)
qed

lemma init_detected_run:
  assumes w: "driven (cm_w cm)" "known_model m" and info: "info = camera_sensor ! camera_model_index m"
    and c: "cam_config (bd_ll bd) (bd_pl bd) (Some cfg) (allowed_size cfg info) (id_PID (s_id (sensor (cm_w cm)))) (cm_hal cm) =
      Some (r, h)"
  shows "\<exists>r2 u v. s_call bd (Set_framesize (allowed_size cfg info)) (note_mode cfg (allowed_size cfg info) (cm\<lparr>cm_hal := h\<rparr>)) =
      Some (r2, cm\<lparr>cm_hal := h, cm_w := u\<rparr>) \<and>
    init_detected bd cfg m cm =
     (if pixel_format cfg = PIXFORMAT_JPEG \<and> \<not> ci_support_jpeg info then Some (ESP_ERR_NOT_SUPPORTED, cm)
      else if r \<noteq> ESP_OK then Some (r, cm\<lparr>cm_hal := h\<rparr>)
      else if r2 \<noteq> 0 then Some (ESP_ERR_CAMERA_FAILED_TO_SET_FRAME_SIZE, cm\<lparr>cm_hal := h, cm_w := u\<rparr>)
      else Some (ESP_OK, cm\<lparr>cm_w := v, cm_hal := h\<lparr>hal_hw := ll_cam_vsync_intr_enable (bd_ll bd) True (hal_hw h)\<rparr>\<rparr>))"
proof -
  let ?fs = "allowed_size cfg info" and ?cm1 = "cm\<lparr>cm_hal := h\<rparr>"
  have "driven (cm_w (note_mode cfg ?fs ?cm1))" using w(1) by (simp add: driven_def note_mode_def)
  from s_call_total [OF this, of bd "Set_framesize ?fs"] obtain r2 u where
    3: "s_call bd (Set_framesize ?fs) (note_mode cfg ?fs ?cm1) = Some (r2, ?cm1\<lparr>cm_w := u\<rparr>)" "driven u"
    by (auto simp: note_mode_def)
  from s_call_total [of "?cm1\<lparr>cm_w := u\<rparr>" bd "Set_pixformat (pixel_format cfg)"] 3(2) obtain r4 x where
    4: "s_call bd (Set_pixformat (pixel_format cfg)) (?cm1\<lparr>cm_w := u\<rparr>) = Some (r4, ?cm1\<lparr>cm_w := x\<rparr>)" "driven x" by auto
  let ?ops = "sensor_setup_ops cfg (id_PID (s_id (sensor x)))"
  from s_calls_total [of "?cm1\<lparr>cm_w := x\<rparr>" bd ?ops] 4(2) obtain v where
    5: "s_calls bd ?ops (?cm1\<lparr>cm_w := x\<rparr>) = Some (?cm1\<lparr>cm_w := v\<rparr>)" by auto
  show ?thesis
    by (intro exI [of _ r2] exI [of _ u] exI [of _ v] conjI 3(1))
       (use w(2) c 3(1) 4(1) 5 in \<open>simp add: init_detected_def Let_def info [symmetric] known_model_def not_le\<close>)
qed

lemma init_detected_spec:
  assumes pl: "plat_ok (bd_pl bd) cfg" and b: "books (bd_pl bd) (base B cm) t a c (cm_hal cm)" "bare c"
    and w: "driven (cm_w cm)" "known_model m"
  shows "\<exists>r cm'. init_detected bd cfg m cm = Some (r, cm') \<and> s_state cm' = s_state cm \<and>
    (if r = ESP_OK then \<exists>c'. books (bd_pl bd) (base B cm) t a c' (cm_hal cm') \<and> configured (bd_pl bd) cfg c'
     else (\<exists>c'. books (bd_pl bd) (base B cm) t a c' (cm_hal cm')) \<or> idle_hal (base B cm) t (cm_hal cm'))"
proof -
  define info where info: "info = camera_sensor ! camera_model_index m"
  have "allowed_size cfg info \<noteq> FRAMESIZE_INVALID" using max_size_valid [OF w(2)] by (auto simp: allowed_size_def info)
  from config_spec [OF pl b this, of "bd_ll bd" "id_PID (s_id (sensor (cm_w cm)))"] obtain r h where
    c: "cam_config (bd_ll bd) (bd_pl bd) (Some cfg) (allowed_size cfg info) (id_PID (s_id (sensor (cm_w cm)))) (cm_hal cm) =
      Some (r, h)" and
    r: "if r = ESP_OK then \<exists>c'. books (bd_pl bd) (base B cm) t a c' h \<and> configured (bd_pl bd) cfg c'
        else idle_hal (base B cm) t h" unfolding idle_hal_def by blast
  from init_detected_run [OF w info c] obtain r2 :: int and u v where run: "init_detected bd cfg m cm =
     (if pixel_format cfg = PIXFORMAT_JPEG \<and> \<not> ci_support_jpeg info then Some (ESP_ERR_NOT_SUPPORTED, cm)
      else if r \<noteq> ESP_OK then Some (r, cm\<lparr>cm_hal := h\<rparr>)
      else if r2 \<noteq> 0 then Some (ESP_ERR_CAMERA_FAILED_TO_SET_FRAME_SIZE, cm\<lparr>cm_hal := h, cm_w := u\<rparr>)
      else Some (ESP_OK, cm\<lparr>cm_w := v, cm_hal := h\<lparr>hal_hw := ll_cam_vsync_intr_enable (bd_ll bd) True (hal_hw h)\<rparr>\<rparr>))" by blast
  have hw: "books (bd_pl bd) (base B cm) t a c' (h\<lparr>hal_hw := e\<rparr>) = books (bd_pl bd) (base B cm) t a c' h" for c' e
    by (simp add: books_def)
  show ?thesis using r b(1) unfolding run by (auto simp: hw)
qed


lemma init_camera:
  assumes bd: "modelled_build bd" "plat_ok (bd_pl bd) cfg" and cm: "s_state cm = None" "acct B {#} (cm_hal cm)"
  shows "\<exists>r cm'. esp_camera_init bd (Some cfg) cm = Some (r, cm') \<and>
    (if r = ESP_OK then s_state cm' \<noteq> None \<and> state_ok B cm' \<and>
       (\<exists>a c. books (bd_pl bd) (base B cm') (tasks (cm_hal cm)) a c (cm_hal cm') \<and> configured (bd_pl bd) cfg c)
     else s_state cm' = None \<and> idle_hal B (tasks (cm_hal cm)) (cm_hal cm') \<and>
       (\<not> sccb_owns_i2c_port (cm_w cm) \<longrightarrow> \<not> sccb_owns_i2c_port (cm_w cm')))"
proof -
  let ?t = "tasks (cm_hal cm)" and ?pl = "bd_pl bd"
  from init_spec [OF bd(2) cm(2)] obtain r h where i: "cam_init ?pl (Some cfg) (cm_hal cm) = Some (r, h)"
    "if r = ESP_OK then \<exists>a c. books ?pl B ?t a c h \<and> bare c else idle_hal B ?t h" unfolding idle_hal_def by blast
  let ?cm1 = "cm\<lparr>cm_hal := h\<rparr>"
  show ?thesis
  proof (cases "r = 0")
    case False
    then show ?thesis using i cm(1) by (simp add: esp_camera_init_def)
  next
    case True
    then obtain a c where b: "books ?pl B ?t a c (cm_hal ?cm1)" "bare c" using i(2) by auto
    have al: "alloc_ok ?pl" "s_state ?cm1 = None" using bd(2) cm(1) by (simp_all add: plat_ok_def)
    from probe_spec [OF bd(1) al b(1), of cfg] obtain r1 m cm2 where
      p: "camera_probe bd cfg ?cm1 = Some (r1, m, cm2)" "books ?pl (base B cm2) ?t a c (cm_hal cm2)" "state_ok B cm2"
        "r1 = ESP_OK \<Longrightarrow> driven (cm_w cm2) \<and> known_model m \<and> s_state cm2 \<noteq> None"
        "s_state cm2 = None \<Longrightarrow> cm_w cm2 = cm_w cm" by auto
    have "\<exists>r2 cm3. (if r1 \<noteq> ESP_OK then Some (r1, cm2) else init_detected bd cfg m cm2) = Some (r2, cm3) \<and>
        s_state cm3 = s_state cm2 \<and> (r1 \<noteq> ESP_OK \<longrightarrow> r2 = r1 \<and> cm3 = cm2) \<and>
        (if r2 = ESP_OK then \<exists>c'. books ?pl (base B cm2) ?t a c' (cm_hal cm3) \<and> configured ?pl cfg c'
         else (\<exists>c'. books ?pl (base B cm2) ?t a c' (cm_hal cm3)) \<or> idle_hal (base B cm2) ?t (cm_hal cm3))"
    proof (cases "r1 = ESP_OK")
      case True
      from init_detected_spec [OF bd(2) p(2) b(2)] p(4) [OF True] True show ?thesis by simp
    qed (use p(2) in auto)
    then obtain r2 cm3 where d:
      "(if r1 \<noteq> ESP_OK then Some (r1, cm2) else init_detected bd cfg m cm2) = Some (r2, cm3)"
      "s_state cm3 = s_state cm2" "r1 \<noteq> ESP_OK \<Longrightarrow> r2 = r1 \<and> cm3 = cm2"
      "if r2 = ESP_OK then \<exists>c'. books ?pl (base B cm2) ?t a c' (cm_hal cm3) \<and> configured ?pl cfg c'
         else (\<exists>c'. books ?pl (base B cm2) ?t a c' (cm_hal cm3)) \<or> idle_hal (base B cm2) ?t (cm_hal cm3)" by blast
    have run: "esp_camera_init bd (Some cfg) cm =
        (if r2 = ESP_OK then Some (ESP_OK, cm3) else do { (_, cm4) \<leftarrow> esp_camera_deinit bd cm3; Some (r2, cm4) })"
      using i(1) True p(1) d(1) unfolding esp_camera_init_def Let_def by simp
    note eq = base_cong [OF d(2)]
    show ?thesis
    proof (cases "r2 = 0")
      case r2: True
      have "r1 = 0" using d(3) r2 by auto
      with p(3,4) d(2,4) r2 run eq show ?thesis by auto
    next
      case False
      have so: "state_ok B cm3" using p(3) eq(2) by simp
      from False have "(\<exists>c'. books ?pl (base B cm3) ?t a c' (cm_hal cm3)) \<or> idle_hal (base B cm3) ?t (cm_hal cm3)"
        using d(4) eq by simp
      then obtain c' where "books ?pl (base B cm3) ?t a c' (cm_hal cm3) \<or> idle_hal (base B cm3) ?t (cm_hal cm3)" by blast
      from deinit_camera [OF this so] obtain r4 cm4 where
        4: "esp_camera_deinit bd cm3 = Some (r4, cm4)" "idle_hal B ?t (cm_hal cm4)" "s_state cm4 = None"
          "s_state cm3 \<noteq> None \<longrightarrow> \<not> sccb_owns_i2c_port (cm_w cm4)"
          "s_state cm3 = None \<longrightarrow> sccb_owns_i2c_port (cm_w cm4) = sccb_owns_i2c_port (cm_w cm3)" by (elim exE conjE)
      have "s_state cm3 = None \<Longrightarrow> cm_w cm3 = cm_w cm" using p(4,5) d(2,3) by metis
      with 4 run False show ?thesis by auto
    qed
  qed
qed

lemma released_idle: "released h h' \<longleftrightarrow> idle_hal (live h) (tasks h) h'"
  by (auto simp: released_def idle_hal_def)


text \<open>An ESP32 with an OV2640: a sensor at address 0x30 that acknowledges everything and reads as 0x26.\<close>

definition demo_cam_hw :: "unit hw" where
  "demo_cam_hw = sim_hw (\<lambda>bs n d. if bs = [] then (ESP_FAIL, [], d)
     else if hd bs = addr_write 0x30 \<or> hd bs = addr_read 0x30 then (ESP_OK, replicate n 0x26, d) else (ESP_FAIL, [], d))"

definition demo_board :: "(unit, unit) board" where
  "demo_board = \<lparr>bd_hw = demo_cam_hw, bd_ll = demo_ll, bd_pl = demo_plat,
     camera_enable_out_clock = (\<lambda>_ d. d), camera_disable_out_clock = (\<lambda>d. d),
     config_support = (\<lambda>m. m = CAMERA_OV2640 \<or> m = CAMERA_OV3660),
     other_func = (\<lambda>_. \<lparr>sf_detect = (\<lambda>_. ret 0), sf_init = ret 0\<rparr>),
     other_call = (\<lambda>_ _. ret 0), sizeof_camera_state_t = 200\<rparr>"

definition demo_camera :: "(unit, unit) camera" where
  "demo_camera = \<lparr>cm_hal = demo_hal, cm_w = \<lparr>sccb_i2c_port = 0, sccb_owns_i2c_port = False, sccb_write16_i = 0,
     reg_bank = 0xFF, sensor = zero_sensor, dev = ()\<rparr>, s_state = None\<rparr>"


definition acked :: "(unit world, int) state \<Rightarrow> bool" where
  "acked m \<longleftrightarrow> (\<forall>w. s_slv_addr (sensor w) = 0x30 \<longrightarrow> wp m (\<lambda>r v. r = 0 \<and> s_slv_addr (sensor v) = 0x30) w)"

lemma ackedD: "acked m \<Longrightarrow> s_slv_addr (sensor w) = 0x30 \<Longrightarrow> run_state m w = (r, v) \<Longrightarrow> r = 0 \<and> s_slv_addr (sensor v) = 0x30"
  by (auto simp: acked_def wp_def)

lemma acked_or_return: "acked m \<Longrightarrow> acked k \<Longrightarrow> acked (or_return m k)"
  unfolding acked_def wp_or_return by (intro allI impI, erule allE [of _ _], drule (1) mp, erule wp_mono) simp

lemma acked_ret: "acked (ret 0)"
  by (simp add: acked_def)

lemma demo_bus:
  "run_state (SCCB_Write demo_cam_hw 0x30 r v) w = (0, w)" "run_state (SCCB_Read demo_cam_hw 0x30 r) w = (0x26, w)"
  by (simp_all add: SCCB_Write_def SCCB_Read_def cmd_begin_def demo_cam_hw_def read_into_def)

lemma acked_write: "acked (do { slv \<leftarrow> slv_addr_m; SCCB_Write demo_cam_hw slv r v })"
  by (simp add: acked_def) (simp add: wp_def demo_bus)

lemma acked_bank: "acked (ov2640_set_bank demo_cam_hw b)"
  by (simp add: acked_def ov2640_set_bank_def) (simp add: wp_def demo_bus)

lemma acked_write_reg: "acked (ov2640_write_reg demo_cam_hw b r v)"
  by (simp only: ov2640_write_reg_def acked_or_return acked_bank acked_write)

lemma acked_write_regs: "acked (ov2640_write_regs demo_cam_hw rs)"
  by (induction rs rule: list.induct)
     (auto simp only: ov2640_write_regs.simps acked_or_return acked_bank acked_write acked_ret split: if_splits prod.splits)

lemma acked_delay: "acked m \<Longrightarrow> acked (do { delay_ms hw n; m })"
  by (simp add: acked_def)

lemma acked_reset: "acked (ov2640_reset demo_cam_hw)"
  by (simp only: ov2640_reset_def acked_or_return acked_write_reg acked_write_regs acked_delay)

lemma acked_pixformat: "acked (do { _ \<leftarrow> ov2640_set_pixformat demo_cam_hw f; ret 0 })"
  using assigns_ov2640_set_pixformat [of f demo_cam_hw]
  by (simp add: acked_def assigns_def wp_def split_beta)

lemma acked_gets: "(\<And>x. acked (m x)) \<Longrightarrow> acked (do { x \<leftarrow> gets f; m x })"
  by (simp add: acked_def)

lemma acked_framesize: "acked (ov2640_set_framesize demo_cam_hw fs)"
proof -
  have "acked (ov2640_set_window demo_cam_hw mode ox oy mx my x y)" for mode ox oy mx my x y
    unfolding ov2640_set_window_def Let_def case_prod_beta
    by (intro acked_gets acked_or_return acked_write_reg acked_write_regs acked_delay acked_pixformat)
  then show ?thesis unfolding ov2640_set_framesize_def Let_def case_prod_beta by (simp add: acked_def)
qed

lemmas demo_hal_eval = cam_init_def cam_config_def demo_hal_def demo_config_def heap_malloc_def
  demo_plat_def zero_obj_def set_sizes_def cam_dma_config_def put_obj_def alloc_buffers_def
  frame_dma_align_def frame_alloc_size_def sz_def upt_rec alloc_frame_def set_frame_def set_en_def
  alloc_dma_buffer_def allocate_dma_descriptors_def sizeof_lldesc_t_def cam_config_queues_def
  queue_create_def event_queue_len_def frame_queue_len_def xQueueGenericCreate_def
  prvInitialiseNewQueue_def xQueueGenericReset_def Let_def

text \<open>An object whose capture task, run through \<open>demo_schedule\<close>, has a JPEG image queued that \<open>cam_take\<close>
  returns.\<close>

definition demo_delivers :: "cam_obj_t \<Rightarrow> bool" where
  "demo_delivers c \<longleftrightarrow> sizes_fit demo_ll c \<and>
     (\<exists>w s w'. cam_task_init (task_entry c () 7 9) = Some w \<and>
        sys_exec demo_ll (take 9 demo_schedule) (waiting w) = Some s \<and> held s = {} \<and>
        cam_take demo_ll idle_env 400 (demo_kernel, sys_w s) = Some (Some 0, demo_kernel, w') \<and> jpeg_mode (cam w'))"

lemma demo_hal_up:
  "\<exists>h1 h2 h3 a b c. cam_init demo_plat (Some demo_config) demo_hal = Some (ESP_OK, h1) \<and>
     heap_malloc demo_plat MALLOC_CAP_DEFAULT 200 h1 = (Some a, h2) \<and>
     cam_config demo_ll demo_plat (Some demo_config) FRAMESIZE_QVGA 0x26 h2 = Some (ESP_OK, h3) \<and>
     cam_obj h3 = Some (b, c) \<and> demo_delivers c"
  unfolding demo_delivers_def
  by (subst cam_take.simps, unfold cam_receive_def xQueueReceive_def, subst xQueueReceive_loop.simps)
    (simp add: demo_hal_eval sizes_fit_def cam_task_init_def task_entry_def waiting_def demo_eval demo_schedule_def
      fresh_bytes_def)

lemma demo_probe:
  "wp (probe_bus demo_board demo_config) (\<lambda>(r, m) w. r = ESP_OK \<and> m = CAMERA_OV2640 \<and> s_slv_addr (sensor w) = 0x30 \<and>
     id_PID (s_id (sensor w)) = 0x26 \<and> installed w = Driver CAMERA_OV2640) w"
proof -
  have g: "g_sensors demo_board = [sensor_func demo_board CAMERA_OV2640, sensor_func demo_board CAMERA_OV3660]"
    by (simp add: g_sensors_def demo_board_def)
  have p: "run_state (SCCB_Probe demo_cam_hw) v = (0x30, v)" for v
    by (simp add: SCCB_Probe_def camera_sensor_def cmd_begin_def demo_cam_hw_def addr_write_def addr_read_def)
  have i: "run_state (SCCB_Init demo_cam_hw a b) v = (0, v\<lparr>sccb_i2c_port := SCCB_I2C_PORT_DEFAULT, sccb_owns_i2c_port := True\<rparr>)" for a b v
    by (simp add: SCCB_Init_def demo_cam_hw_def sim_hw_def)
  have l: "run_state (pulse_pin demo_cam_hw x y) v = ((), v)" for x y v
    by (simp add: pulse_pin_def demo_cam_hw_def sim_hw_def when_m_def delay_ms_def)
  show ?thesis
    unfolding probe_bus_def g Let_def
    by (simp add: wp_def i p l demo_board_def demo_config_def sensor_func_def ov2640_detect_def demo_bus ov2640_init_def
        esp_camera_sensor_get_info_def camera_sensor_def)
qed

lemma demo_camera_init: "\<exists>cm' b c. esp_camera_init demo_board (Some demo_config) demo_camera = Some (ESP_OK, cm') \<and>
    cam_obj (cm_hal cm') = Some (b, c) \<and> demo_delivers c"
proof -
  obtain h1 h2 h3 a b c where h: "cam_init demo_plat (Some demo_config) demo_hal = Some (ESP_OK, h1)"
    "heap_malloc demo_plat MALLOC_CAP_DEFAULT 200 h1 = (Some a, h2)"
    "cam_config demo_ll demo_plat (Some demo_config) FRAMESIZE_QVGA 0x26 h2 = Some (ESP_OK, h3)"
    "cam_obj h3 = Some (b, c)" "demo_delivers c" using demo_hal_up by blast
  have bd: "bd_pl demo_board = demo_plat" "bd_ll demo_board = demo_ll" "bd_hw demo_board = demo_cam_hw"
    "sizeof_camera_state_t demo_board = 200" "camera_enable_out_clock demo_board = (\<lambda>_ d. d)"
    by (simp_all add: demo_board_def)
  have cf: "pin_xclk demo_config = 0" "pixel_format demo_config = PIXFORMAT_JPEG" "frame_size demo_config = FRAMESIZE_QVGA"
    by (simp_all add: demo_config_def)
  have call: "s_call demo_board op cm = (case run_state (ov2640_call demo_cam_hw op) (cm_w cm) of (r, w) \<Rightarrow> Some (r, cm\<lparr>cm_w := w\<rparr>))"
    if "installed (cm_w cm) = Driver CAMERA_OV2640" for op cm using that by (simp add: s_call_def driver_call_def bd)
  let ?cm1 = "demo_camera\<lparr>cm_hal := h2, s_state := Some a, cm_w := (cm_w demo_camera)\<lparr>sensor := zero_sensor\<rparr>\<rparr>"
  obtain r m w where p0: "run_state (probe_bus demo_board demo_config) (cm_w ?cm1) = ((r, m), w)" by (metis prod.collapse)
  have w: "r = 0" "m = CAMERA_OV2640" "s_slv_addr (sensor w) = 0x30" "id_PID (s_id (sensor w)) = 0x26" "installed w = Driver CAMERA_OV2640"
    using wpD [OF demo_probe p0] by auto
  obtain r2 v where v0: "run_state (ov2640_reset demo_cam_hw) w = (r2, v)" by (metis surj_pair)
  have rs: "assigns (\<lambda>s. s) (ov2640_call demo_cam_hw Reset)" by (rule assigns_ov2640) simp
  have v: "r2 = 0" "sensor v = sensor w" using ackedD [OF acked_reset w(3) v0] rs v0 by (simp_all add: assigns_def) (metis snd_conv)
  let ?cm3 = "?cm1\<lparr>cm_w := v\<rparr>"
  have probe: "camera_probe demo_board demo_config (demo_camera\<lparr>cm_hal := h1\<rparr>) = Some (0, CAMERA_OV2640, ?cm3)"
    using p0 v0 w v(1) by (simp add: camera_probe_def bd h(2) cf on_dev_def call demo_camera_def)
  have idx: "ci_max_size (camera_sensor ! camera_model_index CAMERA_OV2640) = FRAMESIZE_UXGA"
    "ci_support_jpeg (camera_sensor ! camera_model_index CAMERA_OV2640)" "camera_model_index CAMERA_OV2640 < length camera_sensor"
    by (simp_all add: camera_sensor_def)
  have v3: "installed (cm_w ?cm3) = Driver CAMERA_OV2640" "s_slv_addr (sensor (cm_w ?cm3)) = 0x30" "id_PID (s_id (sensor (cm_w ?cm3))) = 0x26"
    using v(2) w by simp_all
  have al: "allowed_size demo_config (camera_sensor ! camera_model_index CAMERA_OV2640) = FRAMESIZE_QVGA"
    unfolding allowed_size_def idx(1) cf by (simp add: less_framesize_t_def)
  have d: "driven (cm_w ?cm3)" "known_model CAMERA_OV2640" using v3 idx by (simp_all add: driven_def known_model_def)
  have "cam_config demo_ll demo_plat (Some demo_config) FRAMESIZE_QVGA (id_PID (s_id (sensor (cm_w ?cm3)))) (cm_hal ?cm3) = Some (ESP_OK, h3)"
    using h(3) v3(3) by simp
  from init_detected_run [OF d refl, of demo_board demo_config, unfolded al bd, OF this] obtain r4 x y where
    i: "s_call demo_board (Set_framesize FRAMESIZE_QVGA) (note_mode demo_config FRAMESIZE_QVGA (?cm3\<lparr>cm_hal := h3\<rparr>)) =
        Some (r4, ?cm3\<lparr>cm_hal := h3, cm_w := x\<rparr>)"
      "init_detected demo_board demo_config CAMERA_OV2640 ?cm3 = (if r4 \<noteq> 0 then Some (ESP_ERR_CAMERA_FAILED_TO_SET_FRAME_SIZE, ?cm3\<lparr>cm_hal := h3, cm_w := x\<rparr>)
      else Some (ESP_OK, ?cm3\<lparr>cm_w := y, cm_hal := h3\<lparr>hal_hw := ll_cam_vsync_intr_enable demo_ll True (hal_hw h3)\<rparr>\<rparr>))"
    using idx(2) by auto
  let ?n = "note_mode demo_config FRAMESIZE_QVGA (?cm3\<lparr>cm_hal := h3\<rparr>)"
  have n: "installed (cm_w ?n) = Driver CAMERA_OV2640" "s_slv_addr (sensor (cm_w ?n)) = 0x30"
    using v3 by (simp_all add: note_mode_def on_status_def)
  have "r4 = 0" using i(1) ackedD [OF acked_framesize n(2)] unfolding call [OF n(1)] by (auto split: prod.splits)
  then show ?thesis
    using h(1,4,5) probe i(2) by (simp add: esp_camera_init_def bd) (simp add: demo_camera_def)
qed

text \<open>
  C2. Setting up the camera is all or nothing: \<open>esp_camera_init\<close> always returns. If it returns an error, the
  heap, the tasks and the static pointers are as before the call and the bus port is not held. If it
  returns \<open>ESP_OK\<close>, the camera is set up, and \<open>esp_camera_deinit\<close>, called after any run of the capture
  system and any change of the sensor settings, succeeds, releases everything the set-up allocated and gives the bus
  port back.
\<close>

theorem esp_camera_init_all_or_nothing:
  assumes "modelled_build bd" and "plat_ok (bd_pl bd) cfg" and "s_state cm = None"
    and "finite (live (cm_hal cm))" and "0 \<notin> live (cm_hal cm)" and "\<not> sccb_owns_i2c_port (cm_w cm)"
  shows "\<exists>r cm'. esp_camera_init bd (Some cfg) cm = Some (r, cm') \<and>
    (if r \<noteq> ESP_OK then released (cm_hal cm) (cm_hal cm') \<and> s_state cm' = None \<and> \<not> sccb_owns_i2c_port (cm_w cm')
     else s_state cm' \<noteq> None \<and> (\<exists>a c. cam_obj (cm_hal cm') = Some (a, c) \<and>
       (\<forall>e i j w s e' v. cam_task_init (task_entry c e i j) = Some w \<and> cam_steps (bd_ll bd) (waiting w) s \<longrightarrow>
         (\<exists>cm''. esp_camera_deinit bd (cm'\<lparr>cm_hal := (cm_hal cm')\<lparr>cam_obj := Some (a, cam (sys_w s)), hal_hw := e'\<rparr>,
              cm_w := v\<rparr>) = Some (ESP_OK, cm'') \<and>
            released (cm_hal cm) (cm_hal cm'') \<and> s_state cm'' = None \<and> \<not> sccb_owns_i2c_port (cm_w cm'')))))"
proof -
  let ?h = "cm_hal cm"
  have "acct (live ?h) {#} ?h" using assms(4,5) by (simp add: acct_def)
  from init_camera [OF assms(1-3) this] obtain r cm' where
    i: "esp_camera_init bd (Some cfg) cm = Some (r, cm')" and
    post: "if r = ESP_OK then s_state cm' \<noteq> None \<and> state_ok (live ?h) cm' \<and>
       (\<exists>a c. books (bd_pl bd) (base (live ?h) cm') (tasks ?h) a c (cm_hal cm') \<and> configured (bd_pl bd) cfg c)
     else s_state cm' = None \<and> idle_hal (live ?h) (tasks ?h) (cm_hal cm') \<and>
       (\<not> sccb_owns_i2c_port (cm_w cm) \<longrightarrow> \<not> sccb_owns_i2c_port (cm_w cm'))" by blast
  show ?thesis
  proof (cases "r = 0")
    case False
    with i post assms(6) show ?thesis by (simp add: released_idle)
  next
    case True
    with post obtain a c where ok: "s_state cm' \<noteq> None" "state_ok (live ?h) cm'"
      "books (bd_pl bd) (base (live ?h) cm') (tasks ?h) a c (cm_hal cm')" "configured (bd_pl bd) cfg c" by auto
    have "\<exists>cm''. esp_camera_deinit bd (cm'\<lparr>cm_hal := (cm_hal cm')\<lparr>cam_obj := Some (a, cam (sys_w s)), hal_hw := e'\<rparr>,
              cm_w := v\<rparr>) = Some (ESP_OK, cm'') \<and>
            released ?h (cm_hal cm'') \<and> s_state cm'' = None \<and> \<not> sccb_owns_i2c_port (cm_w cm'')"
      if run: "cam_task_init (task_entry c e i j) = Some w" "cam_steps (bd_ll bd) (waiting w) s" for e i j w s e' v
    proof -
      let ?cm = "cm'\<lparr>cm_hal := (cm_hal cm')\<lparr>cam_obj := Some (a, cam (sys_w s)), hal_hw := e'\<rparr>, cm_w := v\<rparr>"
      have st: "s_state ?cm = s_state cm'" by simp
      have "skel (cam (sys_w s)) = skel c" using run_skel [OF ok(4) run] .
      from books_run [OF ok(3) this, of e'] have "books (bd_pl bd) (base (live ?h) ?cm) (tasks ?h) a (cam (sys_w s)) (cm_hal ?cm)"
        by (simp add: base_cong [OF st])
      from deinit_camera [OF disjI1 [OF this]] ok(1,2) show ?thesis
        by (auto simp: base_cong [OF st] released_idle)
    qed
    moreover have "cam_obj (cm_hal cm') = Some (a, c)" using ok(3) by (simp add: books_def)
    ultimately show ?thesis using i True ok(1) by auto
  qed
qed

lemma demo_start:
  "finite (live (cm_hal demo_camera))" "0 \<notin> live (cm_hal demo_camera)" "\<not> sccb_owns_i2c_port (cm_w demo_camera)"
  "s_state demo_camera = None" "modelled_build demo_board" "plat_ok (bd_pl demo_board) demo_config"
  using demo_plat_ok by (simp_all add: demo_camera_def demo_hal_def modelled_build_def demo_board_def)

theorem esp_camera_init_all_or_nothing_witness:
  "\<exists>cm' a c w cm''. esp_camera_init demo_board (Some demo_config) demo_camera = Some (ESP_OK, cm') \<and>
     cam_obj (cm_hal cm') = Some (a, c) \<and> cam_task_init (task_entry c () 7 9) = Some w \<and>
     esp_camera_deinit demo_board (cm'\<lparr>cm_hal := (cm_hal cm')\<lparr>cam_obj := Some (a, cam w), hal_hw := ()\<rparr>, cm_w := cm_w cm'\<rparr>) =
       Some (ESP_OK, cm'') \<and> live (cm_hal cm'') = {} \<and> tasks (cm_hal cm'') = 0 \<and> s_state cm'' = None"
proof -
  note d = demo_start
  from demo_camera_init obtain cm' where i: "esp_camera_init demo_board (Some demo_config) demo_camera = Some (ESP_OK, cm')" by blast
  have "acct {} {#} (cm_hal demo_camera)" by (simp add: demo_camera_def demo_hal_def acct_def)
  from init_camera [OF d(5,6,4) this] i obtain a c where c: "cam_obj (cm_hal cm') = Some (a, c)" "configured demo_plat demo_config c"
    by (auto simp: books_def demo_board_def)
  from task_init_total [OF c(2), of "()" 7 9] obtain w where w: "cam_task_init (task_entry c () 7 9) = Some w" by blast
  have "cam_steps (bd_ll demo_board) (waiting w) (waiting w)" by simp
  with w have run: "cam_task_init (task_entry c () 7 9) = Some w \<and> cam_steps (bd_ll demo_board) (waiting w) (waiting w)" by blast
  from esp_camera_init_all_or_nothing [OF d(5,6,4,1-3)] i c(1)
  have "\<forall>e i j w s e' v. cam_task_init (task_entry c e i j) = Some w \<and> cam_steps (bd_ll demo_board) (waiting w) s \<longrightarrow>
         (\<exists>cm''. esp_camera_deinit demo_board (cm'\<lparr>cm_hal := (cm_hal cm')\<lparr>cam_obj := Some (a, cam (sys_w s)), hal_hw := e'\<rparr>,
              cm_w := v\<rparr>) = Some (ESP_OK, cm'') \<and>
            released (cm_hal demo_camera) (cm_hal cm'') \<and> s_state cm'' = None \<and> \<not> sccb_owns_i2c_port (cm_w cm''))"
    by auto
  from this [rule_format, OF run, of "cm_w cm'" "()"] obtain cm'' where
    "esp_camera_deinit demo_board (cm'\<lparr>cm_hal := (cm_hal cm')\<lparr>cam_obj := Some (a, cam (sys_w (waiting w))), hal_hw := ()\<rparr>,
       cm_w := cm_w cm'\<rparr>) = Some (ESP_OK, cm'')" "released (cm_hal demo_camera) (cm_hal cm'')" "s_state cm'' = None"
    by blast
  then show ?thesis using i c(1) w by (auto simp: released_def demo_camera_def demo_hal_def waiting_def)
qed


lemma deinit_fails: "esp_camera_deinit bd cm = Some (r, cm') \<Longrightarrow> cam_obj (cm_hal cm) = None \<Longrightarrow> r = ESP_FAIL"
  by (auto simp: esp_camera_deinit_def cam_deinit_def Let_def split: option.splits prod.splits Option.bind_splits)

text \<open>
  C32. Setting up a camera that is already set up destroys it: the second \<open>esp_camera_init\<close> returns an error, but
  \<open>cam_init\<close> has by then overwritten the static pointer to the first capture object, and the clean-up frees the
  sensor state. A later \<open>esp_camera_deinit\<close> returns \<open>ESP_FAIL\<close>; every block of the first capture stays
  allocated and its task is never deleted.
\<close>

theorem esp_camera_init_twice:
  assumes "plat_ok (bd_pl bd) cfg" and "s_state cm = Some s" and "s \<in> live (cm_hal cm)"
    and "finite (live (cm_hal cm))" and "0 \<notin> live (cm_hal cm)"
  shows "\<exists>r cm' cm''. esp_camera_init bd (Some cfg) cm = Some (r, cm') \<and> r \<noteq> ESP_OK \<and> cam_obj (cm_hal cm') = None \<and>
    esp_camera_deinit bd cm' = Some (ESP_FAIL, cm'') \<and> live (cm_hal cm'') = live (cm_hal cm) - {s} \<and>
    tasks (cm_hal cm'') = tasks (cm_hal cm) \<and> s_state cm'' = None"
proof -
  let ?L = "live (cm_hal cm)" and ?t = "tasks (cm_hal cm)"
  have s: "s \<noteq> 0" using assms(3,5) by auto
  have "acct ?L {#} (cm_hal cm)" using assms(4,5) by (simp add: acct_def)
  from init_spec [OF assms(1) this] obtain r h where i: "cam_init (bd_pl bd) (Some cfg) (cm_hal cm) = Some (r, h)"
    "if r = ESP_OK then \<exists>a c. books (bd_pl bd) ?L ?t a c h \<and> bare c else idle_hal ?L ?t h" unfolding idle_hal_def by blast
  let ?cm1 = "cm\<lparr>cm_hal := h\<rparr>"
  have gone: "\<exists>cm''. esp_camera_deinit bd cm' = Some (ESP_FAIL, cm'') \<and> idle_hal (?L - {s}) ?t (cm_hal cm'') \<and> s_state cm'' = None"
    if "idle_hal (base (?L - {s}) cm') ?t (cm_hal cm')" "state_ok (?L - {s}) cm'" for cm' :: "('a, 'b) camera"
    using deinit_camera [OF disjI2, OF that, of bd] that(1) deinit_fails [of bd cm']
    by (auto simp: idle_hal_def)
  have b1: "base (?L - {s}) ?cm1 = ?L" "state_ok (?L - {s}) ?cm1" using assms(2,3) s by (auto simp: base_def state_ok_def)
  show ?thesis
  proof (cases "r = 0")
    case False
    with i(2) gone [of ?cm1] b1 obtain cm'' where "esp_camera_deinit bd ?cm1 = Some (ESP_FAIL, cm'')"
      "idle_hal (?L - {s}) ?t (cm_hal cm'')" "s_state cm'' = None" by auto
    with i False show ?thesis by (auto simp: esp_camera_init_def idle_hal_def)
  next
    case True
    with i(2) obtain a c where "books (bd_pl bd) ?L ?t a c h" by auto
    then have "books (bd_pl bd) (base (?L - {s}) ?cm1) ?t a c (cm_hal ?cm1)" using b1 by simp
    from deinit_camera [OF disjI1 [OF this] b1(2)] obtain r2 cm2 where
      2: "esp_camera_deinit bd ?cm1 = Some (r2, cm2)" "idle_hal (?L - {s}) ?t (cm_hal cm2)" "s_state cm2 = None"
      by (elim exE conjE)
    have "idle_hal (base (?L - {s}) cm2) ?t (cm_hal cm2)" "state_ok (?L - {s}) cm2"
      using 2 by (simp_all add: base_def state_ok_def)
    from gone [OF this] obtain cm3 where
      3: "esp_camera_deinit bd cm2 = Some (ESP_FAIL, cm3)" "idle_hal (?L - {s}) ?t (cm_hal cm3)" "s_state cm3 = None" by blast
    have "esp_camera_init bd (Some cfg) cm = Some (ESP_ERR_INVALID_STATE, cm2)"
      using i(1) True assms(2) 2(1) by (simp add: esp_camera_init_def camera_probe_def)
    with 2 3 show ?thesis by (auto simp: idle_hal_def)
  qed
qed

theorem esp_camera_init_twice_witness:
  "\<exists>cm1 r cm2 cm3. esp_camera_init demo_board (Some demo_config) demo_camera = Some (ESP_OK, cm1) \<and>
     esp_camera_init demo_board (Some demo_config) cm1 = Some (r, cm2) \<and> r \<noteq> ESP_OK \<and> cam_obj (cm_hal cm2) = None \<and>
     esp_camera_deinit demo_board cm2 = Some (ESP_FAIL, cm3) \<and> live (cm_hal cm3) \<noteq> {}"
proof -
  from demo_camera_init obtain cm1 where i: "esp_camera_init demo_board (Some demo_config) demo_camera = Some (ESP_OK, cm1)" by blast
  have "acct {} {#} (cm_hal demo_camera)" by (simp add: demo_camera_def demo_hal_def acct_def)
  from init_camera [OF demo_start(5,6,4) this] i obtain s a c where
    c: "books (bd_pl demo_board) (base {} cm1) 0 a c (cm_hal cm1)" "configured (bd_pl demo_board) demo_config c" "s_state cm1 = Some s"
    by (auto simp: demo_camera_def demo_hal_def)
  have l: "finite (live (cm_hal cm1))" "0 \<notin> live (cm_hal cm1)" "s \<in> live (cm_hal cm1)"
    using c by (auto simp: books_def acct_def base_def)
  have "a \<in># mset_set (live (cm_hal cm1) - {s})" using c by (simp add: books_def acct_def base_def)
  then have "live (cm_hal cm1) - {s} \<noteq> {}" using l(1) by auto
  with esp_camera_init_twice [OF demo_start(6) c(3) l(3,1,2)] i show ?thesis by auto
qed

end
