(* ===== verification/CamUse.thy ===== *)
theory CamUse
  imports Camera
begin

text \<open>
  Using a camera that is set up: the settings saved to and restored from non-volatile storage, and the
  way from \<open>esp_camera_init\<close> to a frame in the hands of the application.
\<close>

subsection \<open>Saving and restoring the settings\<close>

text \<open>
  The storage library as \<open>nvs.h\<close> documents it. A handle names the namespace it was opened for and
  carries the changes made through it that are still pending; the storage itself holds committed values.
  The view reads these off the state of the library.
\<close>

record 'n nvs_view =
  nv_ns :: "'n \<Rightarrow> int \<Rightarrow> string option"
  nv_pblob :: "'n \<Rightarrow> int \<Rightarrow> string \<Rightarrow> camera_status_t option"
  nv_pbyte :: "'n \<Rightarrow> int \<Rightarrow> string \<Rightarrow> u8 option"
  nv_blob :: "'n \<Rightarrow> string \<Rightarrow> string \<Rightarrow> camera_status_t option"
  nv_byte :: "'n \<Rightarrow> string \<Rightarrow> string \<Rightarrow> u8 option"

text \<open>
  What is relied on: opening gives a handle with nothing pending and changes no stored value; a value that is set is
  pending on the handle; \<open>nvs_commit\<close> writes what is pending on its handle to the storage; a stored value can
  be read through any handle of the namespace on which no change of it is pending.
\<close>

definition nvs_open_ok :: "'n nvs \<Rightarrow> 'n nvs_view \<Rightarrow> bool" where
  "nvs_open_ok nv V \<longleftrightarrow> (\<forall>key n h n1. nvs_open nv key n = ((ESP_OK, h), n1) \<longrightarrow>
     nv_ns V n1 h = Some key \<and> (\<forall>k. nv_pblob V n1 h k = None \<and> nv_pbyte V n1 h k = None) \<and>
     nv_blob V n1 = nv_blob V n \<and> nv_byte V n1 = nv_byte V n)"

definition nvs_set_ok :: "'n nvs \<Rightarrow> 'n nvs_view \<Rightarrow> bool" where
  "nvs_set_ok nv V \<longleftrightarrow>
     (\<forall>h s k v n n1. nv_ns V n h = Some s \<and> nvs_set_blob nv h k v n = (ESP_OK, n1) \<longrightarrow>
        nv_ns V n1 h = Some s \<and> nv_pblob V n1 h k = Some v) \<and>
     (\<forall>h s k v n n1. nv_ns V n h = Some s \<and> nvs_set_u8 nv h k v n = (ESP_OK, n1) \<longrightarrow>
        nv_ns V n1 h = Some s \<and> nv_pbyte V n1 h k = Some v \<and> nv_pblob V n1 h = nv_pblob V n h)"

definition nvs_commit_ok :: "(int \<Rightarrow> 'n \<Rightarrow> esp_err_t \<times> 'n) \<Rightarrow> 'n nvs_view \<Rightarrow> bool" where
  "nvs_commit_ok nvs_commit V \<longleftrightarrow> (\<forall>h s n n1. nv_ns V n h = Some s \<and> nvs_commit h n = (ESP_OK, n1) \<longrightarrow>
     (\<forall>k v. nv_pblob V n h k = Some v \<longrightarrow> nv_blob V n1 s k = Some v) \<and>
     (\<forall>k v. nv_pbyte V n h k = Some v \<longrightarrow> nv_byte V n1 s k = Some v))"

definition nvs_get_ok :: "'n nvs \<Rightarrow> 'n nvs_view \<Rightarrow> bool" where
  "nvs_get_ok nv V \<longleftrightarrow>
     (\<forall>h s k v n. nv_ns V n h = Some s \<and> nv_pblob V n h k = None \<and> nv_blob V n s k = Some v \<longrightarrow>
        nvs_get_blob nv h k n = ((ESP_OK, v), n)) \<and>
     (\<forall>h s k v n. nv_ns V n h = Some s \<and> nv_pbyte V n h k = None \<and> nv_byte V n s k = Some v \<longrightarrow>
        nvs_get_u8 nv h k n = ((ESP_OK, v), n))"

text \<open>A library that does not touch the storage before \<open>nvs_commit\<close>, which the documentation allows.\<close>

definition nvs_deferred :: "'n nvs \<Rightarrow> 'n nvs_view \<Rightarrow> bool" where
  "nvs_deferred nv V \<longleftrightarrow>
     (\<forall>h k v n r n1. nvs_set_blob nv h k v n = (r, n1) \<longrightarrow> nv_blob V n1 = nv_blob V n \<and> nv_byte V n1 = nv_byte V n) \<and>
     (\<forall>h k v n r n1. nvs_set_u8 nv h k v n = (r, n1) \<longrightarrow> nv_blob V n1 = nv_blob V n \<and> nv_byte V n1 = nv_byte V n)"

text \<open>The settings the setters of the OV2640 can leave in the sensor structure.\<close>

definition ov2640_status_ok :: "camera_status_t \<Rightarrow> bool" where
  "ov2640_status_ok st \<longleftrightarrow> \<bar>st_contrast st\<bar> \<le> 2 \<and> \<bar>st_brightness st\<bar> \<le> 2 \<and> \<bar>st_saturation st\<bar> \<le> 2 \<and>
     \<bar>st_ae_level st\<bar> \<le> 2 \<and> st_special_effect st \<le> 6 \<and> st_wb_mode st \<le> 4 \<and> st_quality st \<le> 63 \<and>
     st_agc_gain st \<le> 30 \<and> st_aec_value st \<le> 1200 \<and> st_framesize st \<noteq> FRAMESIZE_INVALID"

lemma s_call_ov2640:
  assumes "installed (cm_w cm) = Driver CAMERA_OV2640" and "ov2640_spec op = Some f"
  shows "\<exists>r w. s_call bd op cm = Some (r, cm\<lparr>cm_w := w\<rparr>) \<and> sensor w = f (sensor (cm_w cm)) \<and>
    installed w = Driver CAMERA_OV2640"
proof -
  obtain r w where r: "run_state (ov2640_call (bd_hw bd) op) (cm_w cm) = (r, w)" by (metis surj_pair)
  from keepsD [OF keeps_installed_ov2640 r] assms(1) have "installed w = Driver CAMERA_OV2640" by simp
  moreover have "sensor w = f (sensor (cm_w cm))"
    using assigns_ov2640 [OF assms(2), of "bd_hw bd"] r by (metis assigns_def snd_conv)
  ultimately show ?thesis using assms(1) r by (intro exI [of _ r] exI [of _ w]) (simp add: s_call_def driver_call_def)
qed

lemma s_calls_ov2640:
  assumes "installed (cm_w cm) = Driver CAMERA_OV2640" and "\<forall>op \<in> set ops. ov2640_spec op \<noteq> None"
  shows "\<exists>w. s_calls bd ops cm = Some (cm\<lparr>cm_w := w\<rparr>) \<and>
    sensor w = fold (\<lambda>op. the (ov2640_spec op)) ops (sensor (cm_w cm)) \<and> installed w = Driver CAMERA_OV2640"
  using assms
proof (induction ops arbitrary: cm)
  case Nil
  then show ?case by (intro exI [of _ "cm_w cm"]) simp
next
  case (Cons op ops)
  then obtain f where f: "ov2640_spec op = Some f" by auto
  from s_call_ov2640 [OF Cons.prems(1) f, of bd] obtain r w where
    1: "s_call bd op cm = Some (r, cm\<lparr>cm_w := w\<rparr>)" "sensor w = f (sensor (cm_w cm))" "installed w = Driver CAMERA_OV2640" by blast
  with Cons.IH [of "cm\<lparr>cm_w := w\<rparr>"] Cons.prems(2) f show ?case by auto
qed

lemma restored_status:
  assumes "ov2640_status_ok st"
  shows "fold (\<lambda>op. the (ov2640_spec op)) (restore_ops st) s = s\<lparr>s_status := st\<lparr>st_scale := st_scale (s_status s),
    st_binning := st_binning (s_status s), st_sharpness := st_sharpness (s_status s), st_denoise := st_denoise (s_status s)\<rparr>\<rparr>"
proof -
  have *: "\<bar>st_contrast st\<bar> \<le> 2" "\<bar>st_brightness st\<bar> \<le> 2" "\<bar>st_saturation st\<bar> \<le> 2" "\<bar>st_ae_level st\<bar> \<le> 2"
    "uint (st_special_effect st) \<le> 6" "uint (st_wb_mode st) \<le> 4"
    "min 63 (uint (st_quality st)) = uint (st_quality st)"
    "min 30 (uint (st_agc_gain st)) = uint (st_agc_gain st)"
    "min 1200 (uint (st_aec_value st)) = uint (st_aec_value st)"
    using assms by (auto simp: ov2640_status_ok_def word_le_def min_def)
  show ?thesis
    unfolding restore_ops_def
    by (simp add: * on_status_def max_def)
qed

lemma pixformat_of_index: "pixformat_of (of_nat (pixformat_index f)) = Some f"
  by (cases f) (simp_all add: pixformat_of_def)

text \<open>What a successful save leaves behind: both settings pending on a handle that stays open.\<close>

lemma save_pending:
  assumes "nvs_open_ok nv V" and "nvs_set_ok nv V" and "esp_camera_save_to_nvs nv key cm n = (ESP_OK, n1)" and "s_state cm \<noteq> None"
  shows "\<exists>h. nv_ns V n1 h = Some key \<and> nv_pblob V n1 h CAMERA_SENSOR_NVS_KEY = Some (s_status (sensor (cm_w cm))) \<and>
    nv_pbyte V n1 h CAMERA_PIXFORMAT_NVS_KEY = Some (of_nat (pixformat_index (s_pixformat (sensor (cm_w cm))))) \<and>
    (nvs_deferred nv V \<longrightarrow> nv_blob V n1 = nv_blob V n \<and> nv_byte V n1 = nv_byte V n)"
proof -
  let ?s = "sensor (cm_w cm)"
  from assms(3,4) obtain h m1 m2 where 1: "nvs_open nv key n = ((ESP_OK, h), m1)"
    "nvs_set_blob nv h CAMERA_SENSOR_NVS_KEY (s_status ?s) m1 = (ESP_OK, m2)"
    "nvs_set_u8 nv h CAMERA_PIXFORMAT_NVS_KEY (of_nat (pixformat_index (s_pixformat ?s))) m2 = (ESP_OK, n1)"
    by (auto simp: esp_camera_save_to_nvs_def esp_camera_sensor_get_def split: prod.splits if_splits)
  have a: "nv_ns V m1 h = Some key" "nv_blob V m1 = nv_blob V n" "nv_byte V m1 = nv_byte V n"
    using assms(1) 1(1) unfolding nvs_open_ok_def by metis+
  have b: "nv_ns V m2 h = Some key" "nv_pblob V m2 h CAMERA_SENSOR_NVS_KEY = Some (s_status ?s)"
    using assms(2) a(1) 1(2) unfolding nvs_set_ok_def by metis+
  have c: "nv_ns V n1 h = Some key"
    "nv_pbyte V n1 h CAMERA_PIXFORMAT_NVS_KEY = Some (of_nat (pixformat_index (s_pixformat ?s)))"
    "nv_pblob V n1 h = nv_pblob V m2 h" using assms(2) b(1) 1(3) unfolding nvs_set_ok_def by metis+
  have "nv_blob V n1 = nv_blob V n \<and> nv_byte V n1 = nv_byte V n" if "nvs_deferred nv V"
    using that 1(2,3) a(2,3) unfolding nvs_deferred_def by metis
  with b c show ?thesis by (intro exI [of _ h]) simp
qed

text \<open>Loading settings that are in the storage.\<close>

lemma load_stored:
  assumes "nvs_open_ok nv V" and "nvs_get_ok nv V" and "nvs_open nv key n1 = ((ESP_OK, handle), n2)"
    and "nv_blob V n1 key CAMERA_SENSOR_NVS_KEY = Some st" and "ov2640_status_ok st"
    and "nv_byte V n1 key CAMERA_PIXFORMAT_NVS_KEY = Some (of_nat (pixformat_index pf))"
    and "s_state cm' \<noteq> None" and "s_driver (sensor (cm_w cm')) = Driver CAMERA_OV2640"
  shows "\<exists>w. esp_camera_load_from_nvs bd nv key cm' n1 = Some (ESP_OK, cm'\<lparr>cm_w := w\<rparr>, nvs_close nv handle n2) \<and>
    s_pixformat (sensor w) = pf \<and>
    s_status (sensor w) = st
      \<lparr>st_scale := st_scale (s_status (sensor (cm_w cm'))), st_binning := st_binning (s_status (sensor (cm_w cm'))),
       st_sharpness := st_sharpness (s_status (sensor (cm_w cm'))), st_denoise := st_denoise (s_status (sensor (cm_w cm')))\<rparr>"
proof -
  have o: "nv_ns V n2 handle = Some key" "nv_pblob V n2 handle CAMERA_SENSOR_NVS_KEY = None"
    "nv_pbyte V n2 handle CAMERA_PIXFORMAT_NVS_KEY = None"
    "nv_blob V n2 key CAMERA_SENSOR_NVS_KEY = Some st"
    "nv_byte V n2 key CAMERA_PIXFORMAT_NVS_KEY = Some (of_nat (pixformat_index pf))"
    using assms(1,3,4,6) unfolding nvs_open_ok_def by metis+
  have g: "nvs_get_blob nv handle CAMERA_SENSOR_NVS_KEY n2 = ((ESP_OK, st), n2)"
    "nvs_get_u8 nv handle CAMERA_PIXFORMAT_NVS_KEY n2 = ((ESP_OK, of_nat (pixformat_index pf)), n2)"
    using assms(2) o unfolding nvs_get_ok_def by metis+
  have "\<forall>op \<in> set (restore_ops st). ov2640_spec op \<noteq> None" by (simp add: restore_ops_def)
  from s_calls_ov2640 [OF assms(8) this, of bd] obtain u where
    u: "s_calls bd (restore_ops st) cm' = Some (cm'\<lparr>cm_w := u\<rparr>)" "installed u = Driver CAMERA_OV2640"
      "sensor u = fold (\<lambda>op. the (ov2640_spec op)) (restore_ops st) (sensor (cm_w cm'))" by blast
  from s_call_ov2640 [of "cm'\<lparr>cm_w := u\<rparr>" "Set_pixformat pf" _ bd] u(2) obtain r v where
    v: "s_call bd (Set_pixformat pf) (cm'\<lparr>cm_w := u\<rparr>) = Some (r, cm'\<lparr>cm_w := v\<rparr>)"
      "sensor v = (sensor u)\<lparr>s_pixformat := pf\<rparr>" by auto
  have "esp_camera_load_from_nvs bd nv key cm' n1 = Some (ESP_OK, cm'\<lparr>cm_w := v\<rparr>, nvs_close nv handle n2)"
    using assms(3,7) g u(1) v(1) by (simp add: esp_camera_load_from_nvs_def esp_camera_sensor_get_def pixformat_of_index)
  then show ?thesis using v(2) u(3) restored_status [OF assms(5)] by (intro exI [of _ v]) simp
qed

text \<open>
  C15. Saving and restoring the settings. When \<open>esp_camera_save_to_nvs\<close> succeeds on an OV2640 camera, both settings
  are pending on a handle that stays open. If that handle is committed, then \<open>esp_camera_load_from_nvs\<close>, called
  later under the same key, from a storage with the same values of that namespace, on an OV2640 camera in any
  other state and whatever the bus does, returns \<open>ESP_OK\<close>, and the sensor structure has the saved pixel format and
  the saved value of every setting except sharpness and noise reduction, which the sensor does not have, and the
  scaling and binning flags, which belong to the sensor and are not restored. But \<open>esp_camera_save_to_nvs\<close> itself
  does not commit: with a library that, as documented, updates the storage only on \<open>nvs_commit\<close>, the storage is
  after a successful save what it was before, and the saved settings are lost on a restart.
\<close>

theorem nvs_settings_roundtrip:
  assumes "nvs_open_ok nv V" and "nvs_set_ok nv V" and "nvs_get_ok nv V" and "nvs_commit_ok nvs_commit V"
    and "s_state cm \<noteq> None" and "ov2640_status_ok (s_status (sensor (cm_w cm)))"
    and "esp_camera_save_to_nvs nv key cm n = (ESP_OK, n1)"
  shows "\<exists>h. nv_ns V n1 h = Some key \<and>
    (\<forall>m n2 handle n3 cm'. nvs_commit h n1 = (ESP_OK, m) \<and> nv_blob V n2 key = nv_blob V m key \<and>
       nv_byte V n2 key = nv_byte V m key \<and> nvs_open nv key n2 = ((ESP_OK, handle), n3) \<and>
       s_state cm' \<noteq> None \<and> s_driver (sensor (cm_w cm')) = Driver CAMERA_OV2640 \<longrightarrow>
       (\<exists>w. esp_camera_load_from_nvs bd nv key cm' n2 = Some (ESP_OK, cm'\<lparr>cm_w := w\<rparr>, nvs_close nv handle n3) \<and>
          s_pixformat (sensor w) = s_pixformat (sensor (cm_w cm)) \<and>
          s_status (sensor w) = (s_status (sensor (cm_w cm)))
            \<lparr>st_scale := st_scale (s_status (sensor (cm_w cm'))), st_binning := st_binning (s_status (sensor (cm_w cm'))),
             st_sharpness := st_sharpness (s_status (sensor (cm_w cm'))), st_denoise := st_denoise (s_status (sensor (cm_w cm')))\<rparr>)) \<and>
    (nvs_deferred nv V \<longrightarrow> nv_blob V n1 = nv_blob V n \<and> nv_byte V n1 = nv_byte V n)"
proof -
  let ?st = "s_status (sensor (cm_w cm))" and ?pf = "s_pixformat (sensor (cm_w cm))"
  from save_pending [OF assms(1,2,7,5)] obtain h where h: "nv_ns V n1 h = Some key"
    "nv_pblob V n1 h CAMERA_SENSOR_NVS_KEY = Some ?st"
    "nv_pbyte V n1 h CAMERA_PIXFORMAT_NVS_KEY = Some (of_nat (pixformat_index ?pf))"
    "nvs_deferred nv V \<longrightarrow> nv_blob V n1 = nv_blob V n \<and> nv_byte V n1 = nv_byte V n" by blast
  show ?thesis
  proof (rule exI [of _ h], intro conjI allI impI, goal_cases)
    case (2 m n2 handle n3 cm')
    have "nv_blob V m key CAMERA_SENSOR_NVS_KEY = Some ?st"
      "nv_byte V m key CAMERA_PIXFORMAT_NVS_KEY = Some (of_nat (pixformat_index ?pf))"
      using assms(4) h(1-3) 2 unfolding nvs_commit_ok_def by metis+
    with 2 have "nv_blob V n2 key CAMERA_SENSOR_NVS_KEY = Some ?st"
      "nv_byte V n2 key CAMERA_PIXFORMAT_NVS_KEY = Some (of_nat (pixformat_index ?pf))" by simp_all
    from load_stored [OF assms(1,3) _ this(1) assms(6) this(2)] 2 show ?case by blast
  qed (use h in simp_all)
qed

text \<open>A storage in memory: a handle is the position of its namespace in the list of those opened.\<close>

record nvs_mem =
  nm_open :: "string list"
  nm_pblob :: "int \<Rightarrow> string \<Rightarrow> camera_status_t option"
  nm_pbyte :: "int \<Rightarrow> string \<Rightarrow> u8 option"
  nm_blob :: "string \<Rightarrow> string \<Rightarrow> camera_status_t option"
  nm_byte :: "string \<Rightarrow> string \<Rightarrow> u8 option"

definition nm_ns :: "nvs_mem \<Rightarrow> int \<Rightarrow> string option" where
  "nm_ns n h = (if 0 \<le> h \<and> nat h < length (nm_open n) then Some (nm_open n ! nat h) else None)"

definition demo_nvs :: "nvs_mem nvs" where
  "demo_nvs =
     \<lparr>nvs_open = (\<lambda>key n. let h = int (length (nm_open n)) in ((ESP_OK, h), n\<lparr>nm_open := nm_open n @ [key],
        nm_pblob := (nm_pblob n)(h := (\<lambda>_. None)), nm_pbyte := (nm_pbyte n)(h := (\<lambda>_. None))\<rparr>)),
      nvs_close = (\<lambda>_ n. n),
      nvs_set_blob = (\<lambda>h k v n. case nm_ns n h of None \<Rightarrow> (ESP_FAIL, n)
        | Some s \<Rightarrow> (ESP_OK, n\<lparr>nm_pblob := (nm_pblob n)(h := (nm_pblob n h)(k \<mapsto> v))\<rparr>)),
      nvs_set_u8 = (\<lambda>h k v n. case nm_ns n h of None \<Rightarrow> (ESP_FAIL, n)
        | Some s \<Rightarrow> (ESP_OK, n\<lparr>nm_pbyte := (nm_pbyte n)(h := (nm_pbyte n h)(k \<mapsto> v))\<rparr>)),
      nvs_get_blob = (\<lambda>h k n. case nm_ns n h of None \<Rightarrow> ((ESP_FAIL, s_status zero_sensor), n)
        | Some s \<Rightarrow> (case (nm_blob n s ++ nm_pblob n h) k of None \<Rightarrow> ((ESP_FAIL, s_status zero_sensor), n) | Some v \<Rightarrow> ((ESP_OK, v), n))),
      nvs_get_u8 = (\<lambda>h k n. case nm_ns n h of None \<Rightarrow> ((ESP_FAIL, 0), n)
        | Some s \<Rightarrow> (case (nm_byte n s ++ nm_pbyte n h) k of None \<Rightarrow> ((ESP_FAIL, 0), n) | Some v \<Rightarrow> ((ESP_OK, v), n)))\<rparr>"

definition demo_commit :: "int \<Rightarrow> nvs_mem \<Rightarrow> esp_err_t \<times> nvs_mem" where
  "demo_commit h n = (case nm_ns n h of None \<Rightarrow> (ESP_FAIL, n)
     | Some s \<Rightarrow> (ESP_OK, n\<lparr>nm_blob := (nm_blob n)(s := nm_blob n s ++ nm_pblob n h),
                           nm_byte := (nm_byte n)(s := nm_byte n s ++ nm_pbyte n h)\<rparr>))"

definition demo_view :: "nvs_mem nvs_view" where
  "demo_view = \<lparr>nv_ns = nm_ns, nv_pblob = nm_pblob, nv_pbyte = nm_pbyte, nv_blob = nm_blob, nv_byte = nm_byte\<rparr>"

lemma demo_nvs_ok:
  "nvs_open_ok demo_nvs demo_view" "nvs_set_ok demo_nvs demo_view" "nvs_get_ok demo_nvs demo_view"
  "nvs_commit_ok demo_commit demo_view" "nvs_deferred demo_nvs demo_view"
proof -
  show "nvs_open_ok demo_nvs demo_view"
    by (auto simp: nvs_open_ok_def demo_nvs_def demo_view_def nm_ns_def Let_def)
  show "nvs_set_ok demo_nvs demo_view"
    by (auto simp: nvs_set_ok_def demo_nvs_def demo_view_def nm_ns_def split: if_splits)
  show "nvs_get_ok demo_nvs demo_view"
    by (auto simp: nvs_get_ok_def demo_nvs_def demo_view_def map_add_def)
  show "nvs_commit_ok demo_commit demo_view"
    by (auto simp: nvs_commit_ok_def demo_commit_def demo_view_def)
  show "nvs_deferred demo_nvs demo_view"
    by (auto simp: nvs_deferred_def demo_nvs_def demo_view_def split: option.splits)
qed

definition demo_tuned :: "int \<Rightarrow> (unit, unit) camera" where
  "demo_tuned level = demo_camera\<lparr>s_state := Some 4096, cm_w := (cm_w demo_camera)\<lparr>sensor :=
     (on_status (st_brightness_update (\<lambda>_. level)) zero_sensor)\<lparr>s_driver := Driver CAMERA_OV2640\<rparr>\<rparr>\<rparr>"

definition empty_nvs :: nvs_mem where
  "empty_nvs = \<lparr>nm_open = [], nm_pblob = (\<lambda>_ _. None), nm_pbyte = (\<lambda>_ _. None), nm_blob = (\<lambda>_ _. None), nm_byte = (\<lambda>_ _. None)\<rparr>"

theorem nvs_settings_roundtrip_witness:
  "\<exists>n1 h m w n3. esp_camera_save_to_nvs demo_nvs ''cam'' (demo_tuned 2) empty_nvs = (ESP_OK, n1) \<and>
     nm_blob n1 = nm_blob empty_nvs \<and> demo_commit h n1 = (ESP_OK, m) \<and>
     esp_camera_load_from_nvs demo_board demo_nvs ''cam'' (demo_tuned 0) m = Some (ESP_OK, (demo_tuned 0)\<lparr>cm_w := w\<rparr>, n3) \<and>
     st_brightness (s_status (sensor w)) = 2"
proof -
  obtain n1 where s: "esp_camera_save_to_nvs demo_nvs ''cam'' (demo_tuned 2) empty_nvs = (ESP_OK, n1)"
    by (simp add: esp_camera_save_to_nvs_def demo_nvs_def demo_tuned_def esp_camera_sensor_get_def nm_ns_def empty_nvs_def Let_def)
  have t: "s_state (demo_tuned 2) \<noteq> None" "ov2640_status_ok (s_status (sensor (cm_w (demo_tuned 2))))"
    "s_state (demo_tuned 0) \<noteq> None" "s_driver (sensor (cm_w (demo_tuned 0))) = Driver CAMERA_OV2640"
    "st_brightness (s_status (sensor (cm_w (demo_tuned 2)))) = 2"
    by (simp_all add: demo_tuned_def ov2640_status_ok_def zero_sensor_def on_status_def)
  from nvs_settings_roundtrip [OF demo_nvs_ok(1-4) t(1,2) s, of demo_board] show ?thesis
  proof (elim exE conjE, goal_cases)
    case (1 h)
    then obtain m where m: "demo_commit h n1 = (ESP_OK, m)" by (simp add: demo_commit_def demo_view_def)
    obtain f n2 where "nvs_open demo_nvs ''cam'' m = ((ESP_OK, f), n2)" by (simp add: demo_nvs_def Let_def)
    with 1(2) [rule_format, of m m f n2 "demo_tuned 0"] m t(3,4) obtain w where
      "esp_camera_load_from_nvs demo_board demo_nvs ''cam'' (demo_tuned 0) m =
         Some (ESP_OK, (demo_tuned 0)\<lparr>cm_w := w\<rparr>, nvs_close demo_nvs f n2)"
      "st_brightness (s_status (sensor w)) = 2" using t(5) by auto
    moreover have "nm_blob n1 = nm_blob empty_nvs" using 1(3) demo_nvs_ok(5) by (simp add: demo_view_def)
    ultimately show ?thesis using s m by blast
  qed
qed


subsection \<open>From set-up to a frame\<close>

lemma FB_GET_TIMEOUT_val: "unat (FB_GET_TIMEOUT tick_ms) = 4000 div tick_ms"
  by (simp add: FB_GET_TIMEOUT_def unat_of_nat take_bit_nat_eq_self order.strict_trans1 [OF div_le_dividend])

lemma init_starts_system:
  assumes "modelled_build bd" and "plat_ok (bd_pl bd) cfg" and "target_esp32 (bd_pl bd) \<or> xclk_freq_hz cfg \<noteq> 16000000"
    and "s_state cm = None" and "finite (live (cm_hal cm))" and "0 \<notin> live (cm_hal cm)"
    and "esp_camera_init bd (Some cfg) cm = Some (ESP_OK, cm1)" and "cam_obj (cm_hal cm1) = Some (a, c)"
  shows "\<exists>w. cam_task_init (task_entry c e i j) = Some w \<and> (sizes_fit (bd_ll bd) c \<longrightarrow> sys_init (bd_ll bd) (waiting w))"
proof -
  have "acct (live (cm_hal cm)) {#} (cm_hal cm)" using assms(5,6) by (simp add: acct_def)
  from init_camera [OF assms(1,2,4) this] assms(7) obtain a' c' where
    c: "books (bd_pl bd) (base (live (cm_hal cm)) cm1) (tasks (cm_hal cm)) a' c' (cm_hal cm1)" "configured (bd_pl bd) cfg c'" by auto
  then have "c' = c" using assms(8) by (simp add: books_def)
  with configured_sys_init [OF assms(2,3) c(2,1), where e = e and i = i and j = j and ll = "bd_ll bd"] show ?thesis by auto
qed

lemma fb_get_spec:
  assumes "sys_init (bd_ll bd) s0" and "cam_steps (bd_ll bd) s0 s" and "take_env (bd_ll bd) (held s) K J vs env"
    and "vs (cw_hw (sys_w s)) \<le> K * Suc (now k)" and "\<not> ucDelayAborted k" and "J < 2 ^ 30"
    and "s_state cm \<noteq> None" and "st_framesize (s_status (sensor (cm_w cm))) \<noteq> FRAMESIZE_INVALID"
  shows "\<exists>p k' w'. esp_camera_fb_get bd tick_ms env cm (k, sys_w s) = Some (p, k', w') \<and>
    now k' \<le> now k + waits (bd_ll bd) * (4000 div tick_ms + J) \<and>
    (case p of
       None \<Rightarrow> now k + 4000 div tick_ms \<le> now k'
     | Some x \<Rightarrow> x \<notin> held s \<and> x < length (frames (cam w')) \<and> frame_good (cam w') (frames (cam w') ! x) \<and>
         fb_width (fb (frames (cam w') ! x)) = unat (ri_width (resolution_at (st_framesize (s_status (sensor (cm_w cm)))))) \<and>
         fb_height (fb (frames (cam w') ! x)) = unat (ri_height (resolution_at (st_framesize (s_status (sensor (cm_w cm)))))) \<and>
         fb_format (fb (frames (cam w') ! x)) = s_pixformat (sensor (cm_w cm)))"
proof -
  have "4000 div tick_ms + J < 4000 + 2 ^ 30" using assms(6) by (intro add_le_less_mono) simp_all
  then have t: "waits (bd_ll bd) * (unat (FB_GET_TIMEOUT tick_ms) + J) < 2 ^ 32 - 1"
    unfolding FB_GET_TIMEOUT_val waits_def by (auto split: option.split)
  from take_returns [OF assms(3) reach_inv [OF assms(1,2)] assms(4,5) t] obtain r k' w' where
    r: "cam_take (bd_ll bd) env (FB_GET_TIMEOUT tick_ms) (k, sys_w s) = Some (r, k', w')"
      "now k' \<le> now k + waits (bd_ll bd) * (4000 div tick_ms + J)" and
    post: "case r of
       None \<Rightarrow> (\<exists>pc. winv (bd_ll bd) w' pc (held s)) \<and> now k + unat (FB_GET_TIMEOUT tick_ms) \<le> now k'
     | Some x \<Rightarrow> x \<notin> held s \<and> (\<exists>pc. winv (bd_ll bd) w' pc (insert x (held s))) \<and> frame_good (cam w') (frames (cam w') ! x)"
    unfolding FB_GET_TIMEOUT_val by blast
  obtain y where y: "s_state cm = Some y" using assms(7) by auto
  show ?thesis
  proof (cases r)
    case None
    with r post y show ?thesis
      by (intro exI [of _ None] exI [of _ k'] exI [of _ w']) (simp add: esp_camera_fb_get_def FB_GET_TIMEOUT_val)
  next
    case (Some x)
    with post have x: "x \<notin> held s" "x < length (frames (cam w'))" "frame_good (cam w') (frames (cam w') ! x)"
      by (auto simp: winv_def core_def own_def)
    let ?se = "sensor (cm_w cm)"
    let ?g = "fb_update (\<lambda>b. b\<lparr>fb_width := unat (ri_width (resolution_at (st_framesize (s_status ?se)))),
                      fb_height := unat (ri_height (resolution_at (st_framesize (s_status ?se)))), fb_format := s_pixformat ?se\<rparr>)"
    let ?c = "(cam w')\<lparr>frames := (frames (cam w'))[x := ?g (frames (cam w') ! x)]\<rparr>"
    have "esp_camera_fb_get bd tick_ms env cm (k, sys_w s) = Some (Some x, k', w'\<lparr>cam := ?c\<rparr>)"
      using r(1) Some x(2) y assms(8) by (simp add: esp_camera_fb_get_def set_frame_def Let_def)
    moreover have "frame_good ?c (frames ?c ! x)" using x(2,3) by (simp add: frame_good_def)
    ultimately show ?thesis using x(1,2) r(2)
      by (intro exI [of _ "Some x"] exI [of _ k'] exI [of _ "w'\<lparr>cam := ?c\<rparr>"]) simp
  qed
qed

text \<open>
  C3. From set-up to a frame: after \<open>esp_camera_init\<close> returned \<open>ESP_OK\<close>, outside PSRAM mode and with an object whose
  sizes fit, in every state the capture system can reach from there, \<open>esp_camera_fb_get\<close> returns at most \<open>J\<close> ticks
  after its four seconds (on the ESP32-S3, which waits twice, after twice that); either with NULL, and then not before the four seconds have passed, or with a frame the
  application does not hold yet, whose length lies within its buffer, that begins and ends with the JPEG markers
  in JPEG mode, and that carries width, height and pixel format of the sensor's current settings. The
  scheduler is as in C9: a wait ends when a frame is queued (possibly in the same tick) or with time passed, at
  most \<open>J\<close> ticks late, and at most \<open>K\<close> vertical syncs happen per tick.
\<close>

theorem esp_camera_fb_get_delivers:
  assumes "modelled_build bd" and "plat_ok (bd_pl bd) cfg" and "target_esp32 (bd_pl bd) \<or> xclk_freq_hz cfg \<noteq> 16000000"
    and "s_state cm = None" and "finite (live (cm_hal cm))" and "0 \<notin> live (cm_hal cm)"
    and "esp_camera_init bd (Some cfg) cm = Some (ESP_OK, cm1)" and "cam_obj (cm_hal cm1) = Some (a, c)"
    and "sizes_fit (bd_ll bd) c"
    and "cam_task_init (task_entry c e i j) = Some w" and "cam_steps (bd_ll bd) (waiting w) s"
    and "take_env (bd_ll bd) (held s) K J vs env" and "vs (cw_hw (sys_w s)) \<le> K * Suc (now k)"
    and "\<not> ucDelayAborted k" and "J < 2 ^ 30"
    and "s_state cm2 \<noteq> None" and "st_framesize (s_status (sensor (cm_w cm2))) \<noteq> FRAMESIZE_INVALID"
  shows "\<exists>p k' w'. esp_camera_fb_get bd tick_ms env cm2 (k, sys_w s) = Some (p, k', w') \<and>
    now k' \<le> now k + waits (bd_ll bd) * (4000 div tick_ms + J) \<and>
    (case p of
       None \<Rightarrow> now k + 4000 div tick_ms \<le> now k'
     | Some x \<Rightarrow> x \<notin> held s \<and> x < length (frames (cam w')) \<and> frame_good (cam w') (frames (cam w') ! x) \<and>
         fb_width (fb (frames (cam w') ! x)) = unat (ri_width (resolution_at (st_framesize (s_status (sensor (cm_w cm2)))))) \<and>
         fb_height (fb (frames (cam w') ! x)) = unat (ri_height (resolution_at (st_framesize (s_status (sensor (cm_w cm2)))))) \<and>
         fb_format (fb (frames (cam w') ! x)) = s_pixformat (sensor (cm_w cm2)))"
proof -
  from init_starts_system [OF assms(1-8), of e i j] assms(9,10) have "sys_init (bd_ll bd) (waiting w)" by simp
  from fb_get_spec [OF this assms(11-17)] show ?thesis .
qed

lemma demo_resolution: "ri_width (resolution_at (st_framesize (s_status (sensor (cm_w (demo_tuned 0)))))) = 96"
  by (simp add: demo_tuned_def zero_sensor_def on_status_def resolution_at_def resolution_def)

theorem esp_camera_fb_get_delivers_witness:
  "\<exists>cm1 a c w s k' w'. esp_camera_init demo_board (Some demo_config) demo_camera = Some (ESP_OK, cm1) \<and>
     cam_obj (cm_hal cm1) = Some (a, c) \<and> cam_task_init (task_entry c () 7 9) = Some w \<and>
     cam_steps demo_ll (waiting w) s \<and>
     esp_camera_fb_get demo_board 10 idle_env (demo_tuned 0) (demo_kernel, sys_w s) = Some (Some 0, k', w') \<and>
     jpeg_mode (cam w') \<and> frame_good (cam w') (frames (cam w') ! 0) \<and> fb_width (fb (frames (cam w') ! 0)) = 96"
proof -
  have b: "bd_ll demo_board = demo_ll" "target_esp32 (bd_pl demo_board) \<or> xclk_freq_hz demo_config \<noteq> 16000000"
    by (simp_all add: demo_board_def demo_plat_def)
  note d = demo_start(5,6) b(2) demo_start(4,1,2)
  from demo_camera_init obtain cm1 a c where i: "esp_camera_init demo_board (Some demo_config) demo_camera = Some (ESP_OK, cm1)"
    "cam_obj (cm_hal cm1) = Some (a, c)" "demo_delivers c" by blast
  then obtain w s v where c: "sizes_fit demo_ll c" "cam_task_init (task_entry c () 7 9) = Some w"
    "sys_exec demo_ll (take 9 demo_schedule) (waiting w) = Some s" "held s = {}"
    "cam_take demo_ll idle_env 400 (demo_kernel, sys_w s) = Some (Some 0, demo_kernel, v)" "jpeg_mode (cam v)"
    by (auto simp: demo_delivers_def)
  have t: "\<not> ucDelayAborted demo_kernel" "(1 :: nat) < 2 ^ 30" "s_state (demo_tuned 0) \<noteq> None"
    "st_framesize (s_status (sensor (cm_w (demo_tuned 0)))) \<noteq> FRAMESIZE_INVALID"
    by (simp_all add: demo_tuned_def zero_sensor_def on_status_def demo_kernel_def)
  note st = sys_exec_steps [OF c(3)]
  from esp_camera_fb_get_delivers [OF d i(1,2) _ c(2) _ idle_take_env _ t, of s 0 10] c(1) st b(1) obtain p k' w' where
    g: "esp_camera_fb_get demo_board 10 idle_env (demo_tuned 0) (demo_kernel, sys_w s) = Some (p, k', w')"
    "case p of None \<Rightarrow> True | Some x \<Rightarrow> frame_good (cam w') (frames (cam w') ! x) \<and> fb_width (fb (frames (cam w') ! x)) = 96"
    unfolding demo_resolution by (auto split: option.splits)
  have "FB_GET_TIMEOUT 10 = 400" by (simp add: FB_GET_TIMEOUT_def)
  with g(1) c(5,6) b(1) t(3) have "p = Some 0" "jpeg_mode (cam w')"
    by (auto simp: esp_camera_fb_get_def set_frame_def Let_def split: bind_splits option.splits if_splits)
  with g i c st show ?thesis by auto
qed

end
