(* ===== verification/Bmp.thy ===== *)
theory Bmp
  imports Yuv CamHal
begin

text \<open>
  The image converters of \<open>conversions/to_bmp.c\<close> that need no JPEG decoder: \<open>fmt2rgb888\<close> and the raw
  formats of \<open>fmt2bmp\<close>.

  Memory blocks are byte lists; a read or a write outside a block, and overflow of a signed
  multiplication, are the result \<open>None\<close>. \<open>_malloc\<close> is the parameter \<open>mal\<close>: the contents of the block for
  a size, or nothing when the allocation fails. The pointers \<open>src_buf\<close>, \<open>rgb_buf\<close>, \<open>pix_buf\<close> that the
  loops advance are positions.

  The reference is a reader of the file format, \<open>bmp_pixel\<close>, which computes the colour of a pixel from
  the bytes of a BMP file by the rules of the format (header, palette, rows padded to four bytes).
\<close>

subsection \<open>The header\<close>

definition BMP_HEADER_LEN :: nat where
  "BMP_HEADER_LEN = 54"

record bmp_header_t =
  filesize :: u32
  reserved :: u32
  fileoffset_to_pixelarray :: u32
  dibheadersize :: u32
  bmp_width :: u32
  bmp_height :: u32
  planes :: u16
  bitsperpixel :: u16
  compression :: u32
  imagesize :: u32
  ypixelpermeter :: u32
  xpixelpermeter :: u32
  numcolorspallette :: u32
  mostimpcolor :: u32

definition le16 :: "u16 \<Rightarrow> u8 list" where
  "le16 v = [le_byte0 v, le_byte1 v]"

definition le32 :: "u32 \<Rightarrow> u8 list" where
  "le32 v = [ucast v, ucast (drop_bit 8 v), ucast (drop_bit 16 v), ucast (drop_bit 24 v)]"

text \<open>The structure in memory; it has no padding.\<close>

definition header_bytes :: "bmp_header_t \<Rightarrow> u8 list" where
  "header_bytes b = le32 (filesize b) @ le32 (reserved b) @ le32 (fileoffset_to_pixelarray b) @ le32 (dibheadersize b) @
     le32 (bmp_width b) @ le32 (bmp_height b) @ le16 (planes b) @ le16 (bitsperpixel b) @ le32 (compression b) @
     le32 (imagesize b) @ le32 (ypixelpermeter b) @ le32 (xpixelpermeter b) @ le32 (numcolorspallette b) @
     le32 (mostimpcolor b)"

text \<open>The header both writers fill in.\<close>

definition bitmap_header :: "nat \<Rightarrow> nat \<Rightarrow> u16 \<Rightarrow> u16 \<Rightarrow> nat \<Rightarrow> nat \<Rightarrow> bmp_header_t" where
  "bitmap_header size0 offset width height bpp isize =
     \<lparr>filesize = of_nat size0, reserved = 0, fileoffset_to_pixelarray = of_nat offset, dibheadersize = 40,
      bmp_width = ucast width, bmp_height = - ucast height, planes = 1, bitsperpixel = of_nat (bpp * 8),
      compression = 0, imagesize = of_nat isize, ypixelpermeter = 0x0B13, xpixelpermeter = 0x0B13,
      numcolorspallette = 0, mostimpcolor = 0\<rparr>"

definition put_header :: "bmp_header_t \<Rightarrow> u8 list \<Rightarrow> u8 list option" where
  "put_header b out = do { out1 \<leftarrow> mem_write out 0 [0x42, 0x4D]; mem_write out1 2 (header_bytes b) }"

subsection \<open>Pixels\<close>

definition mem_byte :: "u8 list \<Rightarrow> nat \<Rightarrow> u8 option" where
  "mem_byte m p = (if p < length m then Some (m ! p) else None)"

definition rgb565_pixel :: "u8 \<Rightarrow> u8 \<Rightarrow> u8 list" where
  "rgb565_pixel hb lb =
     [push_bit 3 (lb AND 0x1F), push_bit 5 (hb AND 0x07) OR drop_bit 3 (lb AND 0xE0), hb AND 0xF8]"

definition yuv_pixel :: "u8 \<Rightarrow> u8 \<Rightarrow> u8 \<Rightarrow> u8 list" where
  "yuv_pixel y u v = (case yuv2rgb y u v of (r, g, b) \<Rightarrow> [b, g, r])"

text \<open>The loops, with the number of rounds left, the position in the source and the position in the output.\<close>

fun rgb565_loop :: "u8 list \<Rightarrow> nat \<Rightarrow> nat \<Rightarrow> nat \<Rightarrow> u8 list \<Rightarrow> u8 list option" where
  "rgb565_loop src 0 sp op out = Some out"
| "rgb565_loop src (Suc n) sp op out = do {
     hb \<leftarrow> mem_byte src sp;
     lb \<leftarrow> mem_byte src (sp + 1);
     out1 \<leftarrow> mem_write out op (rgb565_pixel hb lb);
     rgb565_loop src n (sp + 2) (op + 3) out1 }"

fun gray_loop :: "u8 list \<Rightarrow> nat \<Rightarrow> nat \<Rightarrow> nat \<Rightarrow> u8 list \<Rightarrow> u8 list option" where
  "gray_loop src 0 sp op out = Some out"
| "gray_loop src (Suc n) sp op out = do {
     b \<leftarrow> mem_byte src sp;
     out1 \<leftarrow> mem_write out op [b, b, b];
     gray_loop src n (sp + 1) (op + 3) out1 }"

fun yuv_loop :: "u8 list \<Rightarrow> nat \<Rightarrow> nat \<Rightarrow> nat \<Rightarrow> u8 list \<Rightarrow> u8 list option" where
  "yuv_loop src 0 sp op out = Some out"
| "yuv_loop src (Suc n) sp op out = do {
     y0 \<leftarrow> mem_byte src sp;
     u \<leftarrow> mem_byte src (sp + 1);
     y1 \<leftarrow> mem_byte src (sp + 2);
     v \<leftarrow> mem_byte src (sp + 3);
     out1 \<leftarrow> mem_write out op (yuv_pixel y0 u v);
     out2 \<leftarrow> mem_write out1 (op + 3) (yuv_pixel y1 u v);
     yuv_loop src n (sp + 4) (op + 6) out2 }"

definition mem_copy :: "u8 list \<Rightarrow> nat \<Rightarrow> nat \<Rightarrow> u8 list \<Rightarrow> u8 list option" where
  "mem_copy src n op out = do { bs \<leftarrow> mem_read src 0 n; mem_write out op bs }"

text \<open>Rounds of a loop up to a \<open>size_t\<close> stored in an \<open>int\<close>: none when the number is negative.\<close>

definition rounds :: "nat \<Rightarrow> nat" where
  "rounds n = (if n < 2 ^ 31 then n else 0)"

definition fmt2rgb888_raw :: "u8 list \<Rightarrow> nat \<Rightarrow> pixformat_t \<Rightarrow> u8 list \<Rightarrow> u8 list option" where
  "fmt2rgb888_raw src src_len format rgb =
     (if format = PIXFORMAT_RGB888 then mem_copy src src_len 0 rgb
      else if format = PIXFORMAT_RGB565 then rgb565_loop src (rounds (src_len div 2)) 0 0 rgb
      else if format = PIXFORMAT_GRAYSCALE then gray_loop src (rounds src_len) 0 0 rgb
      else if format = PIXFORMAT_YUV422 then yuv_loop src (rounds (src_len div 2) div 2) 0 0 rgb
      else Some rgb)"

subsection \<open>Writing a BMP file\<close>

text \<open>\<open>palette_buf\<close> walks over 256 entries of four bytes.\<close>

definition gray_palette :: "u8 list" where
  "gray_palette = concat (map (\<lambda>i. [of_nat i, of_nat i, of_nat i, 0]) [0..<256])"

definition bmp_pixels :: "u8 list \<Rightarrow> nat \<Rightarrow> pixformat_t \<Rightarrow> nat \<Rightarrow> u8 list \<Rightarrow> u8 list option" where
  "bmp_pixels src pix_count format op out =
     (if format = PIXFORMAT_RGB888 then mem_copy src (pix_count * 3) op out
      else if format = PIXFORMAT_RGB565 then rgb565_loop src pix_count 0 op out
      else if format = PIXFORMAT_GRAYSCALE then mem_copy src pix_count op out
      else if format = PIXFORMAT_YUV422 then yuv_loop src (pix_count div 2) 0 op out
      else Some out)"

text \<open>The part of \<open>fmt2bmp\<close> after the test for JPEG: the return value with what \<open>*out\<close> and \<open>*out_len\<close> are.\<close>

definition fmt2bmp_raw ::
    "(nat \<Rightarrow> u8 list option) \<Rightarrow> u8 list \<Rightarrow> u16 \<Rightarrow> u16 \<Rightarrow> pixformat_t \<Rightarrow> (bool \<times> u8 list option \<times> nat) option" where
  "fmt2bmp_raw mal src width height format =
     (let pix_count = unat width * unat height;
          bpp = (if format = PIXFORMAT_GRAYSCALE then 1 else 3);
          palette_size = (if format = PIXFORMAT_GRAYSCALE then 4 * 256 else 0);
          out_size = pix_count * bpp + BMP_HEADER_LEN + palette_size
      in if 2 ^ 31 \<le> out_size then None
      else case mal out_size of
        None \<Rightarrow> Some (False, None, 0)
      | Some out_buf \<Rightarrow> do {
          o1 \<leftarrow> put_header (bitmap_header out_size (BMP_HEADER_LEN + palette_size) width height bpp (pix_count * bpp)) out_buf;
          o2 \<leftarrow> (if palette_size > 0 then mem_write o1 BMP_HEADER_LEN gray_palette else Some o1);
          o3 \<leftarrow> bmp_pixels src pix_count format (BMP_HEADER_LEN + palette_size) o2;
          Some (True, Some o3, out_size) })"


subsection \<open>What the loops write\<close>

lemma mem_write_append:
  "op + length a + length b \<le> length m \<Longrightarrow>
   mem_write m op (a @ b) = do { m1 \<leftarrow> mem_write m op a; mem_write m1 (op + length a) b }"
  by (simp add: mem_write_def ac_simps)

lemma mem_byte_Some [simp]: "p < length m \<Longrightarrow> mem_byte m p = Some (m ! p)"
  by (simp add: mem_byte_def)

lemma length_pixel [simp]: "length (rgb565_pixel a b) = 3" "length (yuv_pixel x y z) = 3"
  by (simp_all add: rgb565_pixel_def yuv_pixel_def split: prod.split)

lemma upt_Suc_shift: "[0..<Suc n] = 0 # map Suc [0..<n]"
  by (simp add: map_Suc_upt upt_conv_Cons del: upt_Suc)

lemma length_concat_const: "(\<And>i. length (f i) = k) \<Longrightarrow> length (concat (map f xs)) = k * length xs"
  by (induction xs) simp_all

lemma nth_concat_const:
  "(\<And>i. length (f i) = k) \<Longrightarrow> i < n \<Longrightarrow> j < k \<Longrightarrow> concat (map f [0..<n]) ! (k * i + j) = f i ! j"
proof (induction n arbitrary: i f)
  case (Suc n)
  have shift: "concat (map f [0..<Suc n]) = f 0 @ concat (map (\<lambda>i. f (Suc i)) [0..<n])"
    unfolding upt_Suc_shift by (simp add: comp_def)
  show ?case
  proof (cases i)
    case 0
    with Suc.prems show ?thesis unfolding shift by (simp add: nth_append)
  next
    case (Suc i')
    then show ?thesis unfolding shift using Suc.IH [of "\<lambda>i. f (Suc i)" i'] Suc.prems by (simp add: nth_append algebra_simps)
  qed
qed simp

lemma mem_write_chunks:
  assumes "\<And>i. length (f i) = k" and "op + k * Suc n \<le> length out"
  shows "mem_write out op (concat (map f [0..<Suc n])) =
    do { m1 \<leftarrow> mem_write out op (f 0); mem_write m1 (op + k) (concat (map (\<lambda>i. f (Suc i)) [0..<n])) }"
proof -
  have "length (concat (map (\<lambda>i. f (Suc i)) [0..<n])) = k * n" using length_concat_const [of "\<lambda>i. f (Suc i)" k] assms(1) by simp
  then show ?thesis unfolding upt_Suc_shift
    using mem_write_append [of op "f 0" "concat (map (\<lambda>i. f (Suc i)) [0..<n])" out] assms by (simp add: comp_def)
qed

lemma rgb565_loop_writes:
  assumes "sp + 2 * n \<le> length src" and "op + 3 * n \<le> length out"
  shows "rgb565_loop src n sp op out =
    mem_write out op (concat (map (\<lambda>i. rgb565_pixel (src ! (sp + 2 * i)) (src ! (sp + 2 * i + 1))) [0..<n]))"
  using assms
proof (induction n arbitrary: sp op out)
  case (Suc n)
  let ?f = "\<lambda>i. rgb565_pixel (src ! (sp + 2 * i)) (src ! (sp + 2 * i + 1))"
  show ?case using Suc mem_write_chunks [of ?f 3 op n out] by (simp add: add.assoc)
qed simp

lemma gray_loop_writes:
  assumes "sp + n \<le> length src" and "op + 3 * n \<le> length out"
  shows "gray_loop src n sp op out =
    mem_write out op (concat (map (\<lambda>i. [src ! (sp + i), src ! (sp + i), src ! (sp + i)]) [0..<n]))"
  using assms
proof (induction n arbitrary: sp op out)
  case (Suc n)
  let ?f = "\<lambda>i. [src ! (sp + i), src ! (sp + i), src ! (sp + i)]"
  show ?case using Suc mem_write_chunks [of ?f 3 op n out] by (simp add: add.assoc)
qed simp

definition yuv_pair :: "u8 list \<Rightarrow> nat \<Rightarrow> u8 list" where
  "yuv_pair src p = yuv_pixel (src ! p) (src ! (p + 1)) (src ! (p + 3)) @ yuv_pixel (src ! (p + 2)) (src ! (p + 1)) (src ! (p + 3))"

lemma length_yuv_pair [simp]: "length (yuv_pair src p) = 6"
  by (simp add: yuv_pair_def)

lemma yuv_loop_writes:
  assumes "sp + 4 * n \<le> length src" and "op + 6 * n \<le> length out"
  shows "yuv_loop src n sp op out = mem_write out op (concat (map (\<lambda>i. yuv_pair src (sp + 4 * i)) [0..<n]))"
  using assms
proof (induction n arbitrary: sp op out)
  case (Suc n)
  let ?a = "yuv_pixel (src ! sp) (src ! (sp + 1)) (src ! (sp + 3))" and
    ?b = "yuv_pixel (src ! (sp + 2)) (src ! (sp + 1)) (src ! (sp + 3))"
  have "mem_write out op (yuv_pair src sp) = do { m1 \<leftarrow> mem_write out op ?a; mem_write m1 (op + 3) ?b }"
    using Suc.prems(2) mem_write_append [of op ?a ?b out] by (simp add: yuv_pair_def)
  then show ?case using Suc mem_write_chunks [of "\<lambda>i. yuv_pair src (sp + 4 * i)" 6 op n out] by (simp add: add.assoc)
qed simp


subsection \<open>Colours\<close>

text \<open>The raw formats the converters know, and the colour of a pixel of a raw image.\<close>

fun src_bytes :: "pixformat_t \<Rightarrow> nat option" where
  "src_bytes PIXFORMAT_RGB888 = Some 3"
| "src_bytes PIXFORMAT_RGB565 = Some 2"
| "src_bytes PIXFORMAT_GRAYSCALE = Some 1"
| "src_bytes PIXFORMAT_YUV422 = Some 2"
| "src_bytes _ = None"

definition src_colour :: "pixformat_t \<Rightarrow> u8 list \<Rightarrow> nat \<Rightarrow> u8 \<times> u8 \<times> u8" where
  "src_colour format src i =
     (if format = PIXFORMAT_RGB888 then (src ! (3 * i + 2), src ! (3 * i + 1), src ! (3 * i))
      else if format = PIXFORMAT_RGB565 then
        (let c = word_cat (src ! (2 * i)) (src ! (2 * i + 1)) :: u16 in
         (push_bit 3 (ucast (drop_bit 11 c)), push_bit 2 (ucast (drop_bit 5 c AND 0x3F)), push_bit 3 (ucast (c AND 0x1F))))
      else if format = PIXFORMAT_GRAYSCALE then (src ! i, src ! i, src ! i)
      else yuv2rgb (src ! (4 * (i div 2) + 2 * (i mod 2))) (src ! (4 * (i div 2) + 1)) (src ! (4 * (i div 2) + 3)))"

definition bgr :: "u8 \<times> u8 \<times> u8 \<Rightarrow> u8 list" where
  "bgr = (\<lambda>(r, g, b). [b, g, r])"

lemma length_bgr [simp]: "length (bgr c) = 3"
  by (simp add: bgr_def split: prod.split)

lemma chunks_eqI:
  assumes "length xs = 3 * n" and "\<And>i. length (f i) = 3"
    and "\<And>i j. i < n \<Longrightarrow> j < 3 \<Longrightarrow> xs ! (3 * i + j) = f i ! j"
  shows "xs = concat (map f [0..<n])"
proof (rule nth_equalityI)
  show "length xs = length (concat (map f [0..<n]))" using assms(1) length_concat_const [of f 3] assms(2) by simp
next
  fix k assume "k < length xs"
  then have k: "k div 3 < n" "k = 3 * (k div 3) + k mod 3" using assms(1) by auto
  show "xs ! k = concat (map f [0..<n]) ! k"
    using assms(3) [OF k(1), of "k mod 3"] nth_concat_const [of f 3 "k div 3" n "k mod 3"] assms(2) k by simp
qed

lemma u8_bits_eqI:
  fixes a b :: u8
  assumes "bit a 0 = bit b 0" "bit a 1 = bit b 1" "bit a 2 = bit b 2" "bit a 3 = bit b 3"
    "bit a 4 = bit b 4" "bit a 5 = bit b 5" "bit a 6 = bit b 6" "bit a 7 = bit b 7"
  shows "a = b"
  by (rule bit_word_eqI) (use assms in \<open>auto simp: numeral_eq_Suc less_Suc_eq\<close>)

lemma rgb565_colour: "rgb565_pixel (src ! (2 * i)) (src ! (2 * i + 1)) = bgr (src_colour PIXFORMAT_RGB565 src i)"
proof -
  have "push_bit 3 (lb AND 0x1F) = push_bit 3 (ucast ((word_cat hb lb :: u16) AND 0x1F) :: u8)"
    "push_bit 5 (hb AND 0x07) OR drop_bit 3 (lb AND 0xE0) = push_bit 2 (ucast (drop_bit 5 (word_cat hb lb :: u16) AND 0x3F) :: u8)"
    "hb AND 0xF8 = push_bit 3 (ucast (drop_bit 11 (word_cat hb lb :: u16)) :: u8)" for hb lb :: u8
    by (rule u8_bits_eqI; simp add: bit_simps)+
  then show ?thesis unfolding rgb565_pixel_def bgr_def src_colour_def Let_def by simp
qed


definition bgr_image :: "pixformat_t \<Rightarrow> u8 list \<Rightarrow> nat \<Rightarrow> u8 list" where
  "bgr_image format src n = concat (map (\<lambda>i. bgr (src_colour format src i)) [0..<n])"

lemma length_bgr_image [simp]: "length (bgr_image format src n) = 3 * n"
  unfolding bgr_image_def using length_concat_const [of "\<lambda>i. bgr (src_colour format src i)" 3] by simp

lemma bgr_image_nth: "i < n \<Longrightarrow> j < 3 \<Longrightarrow> bgr_image format src n ! (3 * i + j) = bgr (src_colour format src i) ! j"
  unfolding bgr_image_def by (rule nth_concat_const) simp_all

lemma less_3_cases: "j < 3 \<Longrightarrow> j = 0 \<or> j = 1 \<or> j = (2 :: nat)"
  by arith

lemma rgb888_image:
  assumes "3 * n \<le> length src"
  shows "take (3 * n) src = bgr_image PIXFORMAT_RGB888 src n"
  unfolding bgr_image_def
proof (rule chunks_eqI)
  fix i j :: nat assume "i < n" "j < 3"
  then show "take (3 * n) src ! (3 * i + j) = bgr (src_colour PIXFORMAT_RGB888 src i) ! j"
    by (auto dest!: less_3_cases simp: src_colour_def bgr_def)
qed (use assms in simp_all)

lemma yuv_pixel_bgr: "yuv_pixel y u v = bgr (yuv2rgb y u v)"
  by (simp add: yuv_pixel_def bgr_def)

lemma yuv_image: "concat (map (\<lambda>i. yuv_pair src (4 * i)) [0..<m]) = bgr_image PIXFORMAT_YUV422 src (2 * m)"
  unfolding bgr_image_def
proof (rule chunks_eqI)
  show "length (concat (map (\<lambda>i. yuv_pair src (4 * i)) [0..<m])) = 3 * (2 * m)"
    using length_concat_const [of "\<lambda>i. yuv_pair src (4 * i)" 6] by simp
next
  fix i j :: nat assume i: "i < 2 * m" and j: "j < 3"
  have e: "3 * i + j = 6 * (i div 2) + (3 * (i mod 2) + j)" by presburger
  have l: "i div 2 < m" "3 * (i mod 2) + j < 6" using i j by presburger+
  have "concat (map (\<lambda>i. yuv_pair src (4 * i)) [0..<m]) ! (3 * i + j) = yuv_pair src (4 * (i div 2)) ! (3 * (i mod 2) + j)"
    unfolding e by (rule nth_concat_const [OF length_yuv_pair l])
  also have "\<dots> = bgr (src_colour PIXFORMAT_YUV422 src i) ! j"
    using j by (cases "i mod 2 = 0") (auto simp: yuv_pair_def nth_append src_colour_def yuv_pixel_bgr)
  finally show "concat (map (\<lambda>i. yuv_pair src (4 * i)) [0..<m]) ! (3 * i + j) = bgr (src_colour PIXFORMAT_YUV422 src i) ! j" .
qed simp

text \<open>What both converters write for an image of \<open>n\<close> pixels; a grey image is copied by one and expanded by the other.\<close>

lemma pixels_write:
  assumes "src_bytes format = Some k" and "k * n \<le> length src" and "op + 3 * n \<le> length out" and "format = PIXFORMAT_YUV422 \<longrightarrow> even n"
  shows "format \<noteq> PIXFORMAT_GRAYSCALE \<Longrightarrow> bmp_pixels src n format op out = mem_write out op (bgr_image format src n)"
    and "k * n < 2 ^ 31 \<Longrightarrow> op = 0 \<Longrightarrow> fmt2rgb888_raw src (k * n) format out = mem_write out 0 (bgr_image format src n)"
proof -
  have 565: "rgb565_loop src n 0 op out = mem_write out op (bgr_image PIXFORMAT_RGB565 src n)" if "2 * n \<le> length src"
    using rgb565_loop_writes [of 0 n src op out] that assms(3) by (simp add: rgb565_colour [simplified] bgr_image_def)
  have gray: "gray_loop src n 0 op out = mem_write out op (bgr_image PIXFORMAT_GRAYSCALE src n)" if "n \<le> length src"
    using gray_loop_writes [of 0 n src op out] that assms(3) by (simp add: src_colour_def bgr_def bgr_image_def)
  have yuv: "yuv_loop src (n div 2) 0 op out = mem_write out op (bgr_image PIXFORMAT_YUV422 src n)" if "2 * n \<le> length src" "even n"
    using yuv_loop_writes [of 0 "n div 2" src op out] yuv_image [of src "n div 2"] that assms(3) by auto
  have cp: "mem_copy src (3 * n) op out = mem_write out op (bgr_image PIXFORMAT_RGB888 src n)" if "3 * n \<le> length src"
    using rgb888_image [OF that] that by (simp add: mem_copy_def mem_read_def)
  show "bmp_pixels src n format op out = mem_write out op (bgr_image format src n)" if "format \<noteq> PIXFORMAT_GRAYSCALE"
    using assms that by (cases format) (simp_all add: bmp_pixels_def 565 yuv cp mult.commute [of n])
  show "fmt2rgb888_raw src (k * n) format out = mem_write out 0 (bgr_image format src n)" if "k * n < 2 ^ 31" "op = 0"
    using assms that 565 yuv cp gray by (cases format) (auto simp: fmt2rgb888_raw_def rounds_def)
qed


subsection \<open>Reading a BMP file\<close>

definition rd16 :: "u8 list \<Rightarrow> nat \<Rightarrow> u16" where
  "rd16 f p = ucast (f ! p) OR push_bit 8 (ucast (f ! (p + 1)))"

definition rd32 :: "u8 list \<Rightarrow> nat \<Rightarrow> u32" where
  "rd32 f p = ucast (f ! p) OR push_bit 8 (ucast (f ! (p + 1))) OR push_bit 16 (ucast (f ! (p + 2))) OR
     push_bit 24 (ucast (f ! (p + 3)))"

text \<open>The colour of the pixel in column \<open>x\<close> and row \<open>y\<close>, counted from the top left corner.\<close>

definition bmp_pixel :: "u8 list \<Rightarrow> nat \<Rightarrow> nat \<Rightarrow> (u8 \<times> u8 \<times> u8) option" where
  "bmp_pixel f x y =
     (let w = sint (rd32 f 18); h = sint (rd32 f 22); bits = unat (rd16 f 28);
          row = (if h < 0 then y else nat h - 1 - y);
          p = unat (rd32 f 10) + row * ((bits * nat w + 31) div 32 * 4)
      in if length f < 54 \<or> take 2 f \<noteq> [0x42, 0x4D] \<or> rd32 f 30 \<noteq> 0 \<or> w \<le> int x \<or> \<bar>h\<bar> \<le> int y then None
      else if bits = 24 then
        (if p + 3 * x + 3 \<le> length f then Some (f ! (p + 3 * x + 2), f ! (p + 3 * x + 1), f ! (p + 3 * x)) else None)
      else if bits = 8 then
        (if p + x < length f then
           (let q = 14 + unat (rd32 f 14) + 4 * unat (f ! (p + x)) in
            if q + 3 < length f then Some (f ! (q + 2), f ! (q + 1), f ! q) else None)
         else None)
      else None)"

lemma bytes32: "ucast (ucast v :: u8) OR push_bit 8 (ucast (ucast (drop_bit 8 v) :: u8)) OR push_bit 16 (ucast (ucast (drop_bit 16 v) :: u8)) OR
     push_bit 24 (ucast (ucast (drop_bit 24 v) :: u8)) = (v :: u32)"
proof (rule bit_word_eqI, goal_cases)
  case (1 n)
  then show ?case by (cases "24 \<le> n"; cases "16 \<le> n"; cases "8 \<le> n") (auto simp: bit_simps)
qed

lemma bytes16: "ucast (le_byte0 v) OR push_bit 8 (ucast (le_byte1 v)) = (v :: u16)"
  by (rule bit_word_eqI) (auto simp: bit_simps le_byte0_def le_byte1_def)

lemma length_header_bytes [simp]: "length (header_bytes b) = 52"
  by (simp add: header_bytes_def le32_def le16_def)

lemma header_fields:
  assumes "f = [0x42, 0x4D] @ header_bytes b @ rest"
  shows "rd32 f 10 = fileoffset_to_pixelarray b" "rd32 f 14 = dibheadersize b" "rd32 f 18 = bmp_width b" "rd32 f 22 = bmp_height b"
    "rd16 f 28 = bitsperpixel b" "rd32 f 30 = compression b" "rd32 f 2 = filesize b"
  unfolding assms header_bytes_def rd32_def rd16_def le32_def le16_def by (simp_all add: bytes32 bytes16)

lemma sint_dims:
  "sint (ucast (w :: u16) :: u32) = int (unat w)" "sint (- ucast (h :: u16) :: u32) = - int (unat h)"
proof -
  have lt: "uint w < 65536" "uint h < 65536" using uint_lt2p [of w] uint_lt2p [of h] by simp_all
  have "sint (ucast w :: u32) = sint (word_of_int (uint w) :: u32)" by simp
  also have "\<dots> = uint w"
    unfolding sint_sbintrunc' using lt order_trans [OF _ uint_ge_0 [of w], of "- (2 ^ 31)"] by (intro signed_take_bit_int_eq_self) simp_all
  finally show "sint (ucast (w :: u16) :: u32) = int (unat w)" by simp
  have "sint (- ucast h :: u32) = sint (word_of_int (- uint h) :: u32)" by simp
  moreover have "- 2147483648 \<le> - uint h" "- uint h < 2147483648" using lt uint_ge_0 [of h] by linarith+
  then have "sint (word_of_int (- uint h) :: u32) = - uint h"
    unfolding sint_sbintrunc' by (intro signed_take_bit_int_eq_self) simp_all
  ultimately show "sint (- ucast (h :: u16) :: u32) = - int (unat h)" by simp
qed

lemma mem_write_tail: "length m = op + length bs \<Longrightarrow> mem_write m op bs = Some (take op m @ bs)"
  by (simp add: mem_write_def)

lemma put_header_writes: "54 \<le> length m \<Longrightarrow> put_header b m = Some ([0x42, 0x4D] @ header_bytes b @ drop 54 m)"
  by (simp add: put_header_def mem_write_def)

lemma length_gray_palette [simp]: "length gray_palette = 1024"
  unfolding gray_palette_def using length_concat_const [of "\<lambda>i. [of_nat i, of_nat i, of_nat i, 0]" 4 "[0..<256]"] by simp

lemma gray_palette_nth: "j < 3 \<Longrightarrow> gray_palette ! (4 * unat (v :: u8) + j) = v"
proof -
  assume j: "j < 3"
  have "unat v < 256" using unsigned_less [of v, where 'a = nat] by simp
  then have "gray_palette ! (4 * unat v + j) = [of_nat (unat v), of_nat (unat v), of_nat (unat v), 0] ! j"
    unfolding gray_palette_def using j by (intro nth_concat_const) simp_all
  then show ?thesis using j by (auto dest!: less_3_cases)
qed

definition bmp_size :: "pixformat_t \<Rightarrow> nat \<Rightarrow> nat" where
  "bmp_size format n = (if format = PIXFORMAT_GRAYSCALE then n + 1078 else n * 3 + 54)"

text \<open>The bytes \<open>fmt2bmp\<close> produces.\<close>

lemma fmt2bmp_bytes:
  fixes width height :: u16 and format :: pixformat_t
  defines "n \<equiv> unat width * unat height" and "g \<equiv> format = PIXFORMAT_GRAYSCALE"
  assumes k: "src_bytes format = Some k" "k * n \<le> length src" "format = PIXFORMAT_YUV422 \<longrightarrow> even n"
    and size: "n * 3 + 1078 < 2 ^ 31" and mal: "mal (bmp_size format n) = Some m" "length m = bmp_size format n"
  shows "fmt2bmp_raw mal src width height format = Some (True, Some ([0x42, 0x4D] @
      header_bytes (bitmap_header (if g then n + 1078 else n * 3 + 54) (if g then 1078 else 54) width height (if g then 1 else 3) (if g then n else n * 3)) @
      (if g then gray_palette @ take n src else bgr_image format src n)), if g then n + 1078 else n * 3 + 54)"
proof (cases g)
  case False
  then have m: "mal (n * 3 + 54) = Some m" "length m = n * 3 + 54" using mal by (simp_all add: bmp_size_def g_def)
  let ?h = "[0x42, 0x4D] @ header_bytes (bitmap_header (n * 3 + 54) 54 width height 3 (n * 3))"
  have "bmp_pixels src n format 54 (?h @ drop 54 m) = Some (?h @ bgr_image format src n)"
    using pixels_write(1) [OF k(1,2) _ k(3), of 54 "?h @ drop 54 m"] False m(2)
    by (simp add: g_def mem_write_tail mult.commute)
  with m size False show ?thesis
    by (simp add: fmt2bmp_raw_def Let_def n_def [symmetric] g_def [symmetric] BMP_HEADER_LEN_def put_header_writes)
next
  case True
  then have m: "mal (n + 1078) = Some m" "length m = n + 1078" using mal by (simp_all add: bmp_size_def g_def)
  let ?h = "[0x42, 0x4D] @ header_bytes (bitmap_header (n + 1078) 1078 width height 1 n)"
  have p: "mem_write (?h @ drop 54 m) 54 gray_palette = Some (?h @ gray_palette @ drop 1078 m)"
    using m(2) by (simp add: mem_write_def)
  have "bmp_pixels src n format 1078 (?h @ gray_palette @ drop 1078 m) = Some (?h @ gray_palette @ take n src)"
    using True k(1,2) m(2) by (auto simp: g_def bmp_pixels_def mem_copy_def mem_read_def mem_write_tail)
  with m size True p show ?thesis
    by (simp add: fmt2bmp_raw_def Let_def n_def [symmetric] g_def [symmetric] BMP_HEADER_LEN_def put_header_writes add.commute [of _ n])
qed


lemma pixel_index: "x < w \<Longrightarrow> y < h \<Longrightarrow> y * w + x < w * (h :: nat)"
proof -
  assume "x < w" "y < h"
  then have "y * w + x < Suc y * w" by simp
  also have "\<dots> \<le> h * w" using \<open>y < h\<close> by (intro mult_le_mono1) simp
  finally show ?thesis by (simp add: mult.commute)
qed

lemma in_range: "x < unat (w :: u16) \<Longrightarrow> \<not> uint w \<le> int x"
  unfolding not_le unat_eq_nat_uint zless_nat_eq_int_zless .

lemma rows_unpadded: "4 dvd w \<Longrightarrow> (24 * w + 31) div 32 * 4 = 3 * (w :: nat)" "4 dvd w \<Longrightarrow> (8 * w + 31) div 32 * 4 = w"
  by (elim dvdE, simp)+

lemma bitmap_fields:
  assumes "f = [0x42, 0x4D] @ header_bytes (bitmap_header s off width height bpp i) @ rest"
  shows "sint (rd32 f 18) = int (unat width)" "sint (rd32 f 22) = - int (unat height)" "rd16 f 28 = of_nat (bpp * 8)"
    "rd32 f 10 = of_nat off" "rd32 f 30 = 0" "rd32 f 14 = 40" "take 2 f = [0x42, 0x4D]"
  unfolding header_fields [OF assms] by (simp_all add: bitmap_header_def sint_dims assms)

lemma bmp_image_24:
  assumes f: "f = [0x42, 0x4D] @ header_bytes (bitmap_header s 54 width height 3 i) @ img"
    and img: "length img = 3 * (unat width * unat height)" and w: "4 dvd unat width" and xy: "x < unat width" "y < unat height"
  shows "bmp_pixel f x y = Some (img ! (3 * (y * unat width + x) + 2), img ! (3 * (y * unat width + x) + 1), img ! (3 * (y * unat width + x)))"
proof -
  note hd = bitmap_fields [OF f] and u = in_range [OF xy(1)] in_range [OF xy(2)]
  have l: "length f = 54 + 3 * (unat width * unat height)" using f img by simp
  let ?p = "54 + y * (3 * unat width)"
  have p: "?p + 3 * x = 54 + 3 * (y * unat width + x)" by (simp add: algebra_simps)
  have "?p + 3 * x + 3 \<le> length f" using pixel_index [OF xy] unfolding l p by simp
  moreover have "f ! (?p + 3 * x + j) = img ! (3 * (y * unat width + x) + j)" for j
    unfolding p f by (simp add: nth_append add.assoc)
  from this this [of 0] this [of 1] this [of 2] calculation show ?thesis
    unfolding bmp_pixel_def hd Let_def using u xy l rows_unpadded(1) [OF w] by simp
qed

lemma bmp_image_8:
  assumes f: "f = [0x42, 0x4D] @ header_bytes (bitmap_header s 1078 width height 1 i) @ gray_palette @ img"
    and img: "length img = unat width * unat height" and w: "4 dvd unat width" and xy: "x < unat width" "y < unat height"
  shows "bmp_pixel f x y = Some (img ! (y * unat width + x), img ! (y * unat width + x), img ! (y * unat width + x))"
proof -
  note hd = bitmap_fields [OF f] and u = in_range [OF xy(1)] in_range [OF xy(2)]
  have l: "length f = 1078 + unat width * unat height" using f img by simp
  let ?v = "img ! (y * unat width + x)"
  have v: "f ! (1078 + y * unat width + x) = ?v" unfolding f by (simp add: nth_append)
  have b: "1078 + y * unat width + x < length f" using pixel_index [OF xy] unfolding l by simp
  have v8: "unat ?v < 256" using unsigned_less [of ?v, where 'a = nat] by simp
  have "f ! (54 + 4 * unat ?v + j) = ?v" if "j < 3" for j
    using gray_palette_nth [OF that, of ?v] v8 that unfolding f by (simp add: nth_append)
  from this [of 0] this [of 1] this [of 2] have pal: "f ! (54 + 4 * unat ?v) = ?v" "f ! (54 + 4 * unat ?v + 1) = ?v" "f ! (54 + 4 * unat ?v + 2) = ?v"
    by simp_all
  show ?thesis
    unfolding bmp_pixel_def hd Let_def using u xy l b v v8 pal rows_unpadded(2) [OF w] by simp
qed

lemma fmt2bmp_raw_image:
  assumes k: "src_bytes format = Some k" "k * (unat width * unat height) \<le> length src" and w: "4 dvd unat width"
    and size: "unat width * unat height * 3 + 1078 < 2 ^ 31"
    and mal: "mal (bmp_size format (unat width * unat height)) = Some m" "length m = bmp_size format (unat width * unat height)"
  shows "\<exists>out. fmt2bmp_raw mal src width height format = Some (True, Some out, length out) \<and>
    rd32 out 2 = of_nat (length out) \<and>
    (\<forall>x y. x < unat width \<and> y < unat height \<longrightarrow> bmp_pixel out x y = Some (src_colour format src (y * unat width + x)))"
proof -
  let ?n = "unat width * unat height" and ?g = "format = PIXFORMAT_GRAYSCALE"
  have "format = PIXFORMAT_YUV422 \<longrightarrow> even ?n" using w by (auto elim!: dvdE)
  note bytes = fmt2bmp_bytes [where mal = mal, OF k this size mal]
  show ?thesis
  proof (cases ?g)
    case False
    define f where f: "f = [0x42, 0x4D] @ header_bytes (bitmap_header (?n * 3 + 54) 54 width height 3 (?n * 3)) @ bgr_image format src ?n"
    have pix: "bmp_pixel f x y = Some (src_colour format src (y * unat width + x))" if "x < unat width" "y < unat height" for x y
    proof -
      note i = pixel_index [OF that]
      show ?thesis unfolding bmp_image_24 [OF f length_bgr_image w that]
        using bgr_image_nth [OF i, of 0] bgr_image_nth [OF i, of 1] bgr_image_nth [OF i, of 2]
        by (simp add: bgr_def split: prod.splits)
    qed
    have "length f = ?n * 3 + 54" by (simp add: f)
    with bytes False f have "fmt2bmp_raw mal src width height format = Some (True, Some f, length f)" by simp
    moreover have "rd32 f 2 = of_nat (length f)" unfolding header_fields(7) [OF f] using \<open>length f = _\<close> by (simp add: bitmap_header_def)
    ultimately show ?thesis using pix by blast
  next
    case True
    define f where f: "f = [0x42, 0x4D] @ header_bytes (bitmap_header (?n + 1078) 1078 width height 1 ?n) @ gray_palette @ take ?n src"
    have k1: "?n \<le> length src" using k True by auto
    have pix: "bmp_pixel f x y = Some (src_colour format src (y * unat width + x))" if "x < unat width" "y < unat height" for x y
      using bmp_image_8 [OF f _ w that] pixel_index [OF that] True k1 by (simp add: src_colour_def)
    have "length f = ?n + 1078" using k1 by (simp add: f)
    with bytes True f have "fmt2bmp_raw mal src width height format = Some (True, Some f, length f)" by simp
    moreover have "rd32 f 2 = of_nat (length f)" unfolding header_fields(7) [OF f] using \<open>length f = _\<close> by (simp add: bitmap_header_def)
    ultimately show ?thesis using pix by blast
  qed
qed

lemma fmt2bmp_raw_no_memory:
  assumes "unat width * unat height * 3 + 1078 < 2 ^ 31" and "mal (bmp_size format (unat width * unat height)) = None"
  shows "fmt2bmp_raw mal src width height format = Some (False, None, 0)"
  using assms by (simp add: fmt2bmp_raw_def bmp_size_def BMP_HEADER_LEN_def Let_def add.assoc split: if_splits)

end
