(* ===== verification/Jpg.thy ===== *)
theory Jpg
  imports Bmp
begin

text \<open>
  JPEG images: the wrapper around the decoder, \<open>conversions/esp_jpg_decode.c\<close>, its clients in
  \<open>conversions/to_bmp.c\<close>, and with them the whole of \<open>fmt2rgb888\<close>, \<open>fmt2bmp\<close> and \<open>frame2bmp\<close>.

  The decoder itself, TJpgDec, is in the ROM of the chip and not in the repository. It is a parameter: an
  arbitrary program that calls its input and output functions and ends with a result. Such a program is
  a tree of type \<open>jd\<close>, branching over what the calls return; \<open>run_jd\<close> runs it against the callbacks.
  \<open>jd_on\<close> runs it on a list of bytes and yields the rectangles it delivers; what these are relied on to satisfy,
  for the source at hand, is the hypothesis \<open>decoder_fits\<close>.

  The reference is a picture, a function from coordinates to colours, on which \<open>paint\<close> puts the rectangles one after
  the other. The BMP file that \<open>jpg2bmp\<close> makes is read back by \<open>bmp_pixel\<close> as that picture.
\<close>

subsection \<open>The decoder\<close>

datatype jpg_scale_t = JPG_SCALE_NONE | JPG_SCALE_2X | JPG_SCALE_4X | JPG_SCALE_8X

fun jpg_scale_index :: "jpg_scale_t \<Rightarrow> nat" where
  "jpg_scale_index JPG_SCALE_NONE = 0"
| "jpg_scale_index JPG_SCALE_2X = 1"
| "jpg_scale_index JPG_SCALE_4X = 2"
| "jpg_scale_index JPG_SCALE_8X = 3"

record JRECT =
  jr_left :: u16
  jr_right :: u16
  jr_top :: u16
  jr_bottom :: u16

text \<open>
  \<open>JD_in buf n k\<close> asks for \<open>n\<close> bytes, into a buffer or to skip them, and goes on with the number and the bytes it got;
  \<open>JD_out r bs k\<close> delivers the rectangle \<open>r\<close>.
\<close>

datatype 'r jd =
    JD_in bool nat "nat \<times> u8 list \<Rightarrow> 'r jd"
  | JD_out JRECT "u8 list" "nat \<Rightarrow> 'r jd"
  | JD_ret 'r

record 'j tjpgd =
  jd_prepare :: "(int \<times> u16 \<times> u16 \<times> 'j) jd"
  jd_decomp :: "'j \<Rightarrow> nat \<Rightarrow> int jd"

subsection \<open>The wrapper\<close>

type_synonym 'a jpg_reader_cb = "nat \<Rightarrow> bool \<Rightarrow> nat \<Rightarrow> 'a \<Rightarrow> ((nat \<times> u8 list) \<times> 'a) option"
type_synonym 'a jpg_writer_cb = "u16 \<Rightarrow> u16 \<Rightarrow> u16 \<Rightarrow> u16 \<Rightarrow> u8 list option \<Rightarrow> 'a \<Rightarrow> (bool \<times> 'a) option"

record 'a esp_jpg_decoder_t =
  jd_arg :: 'a
  jd_len :: nat
  jd_index :: nat

definition jd_write :: "'a jpg_writer_cb \<Rightarrow> JRECT \<Rightarrow> u8 list \<Rightarrow> 'a esp_jpg_decoder_t \<Rightarrow> (nat \<times> 'a esp_jpg_decoder_t) option" where
  "jd_write writer rect bitmap d = do {
     let x = jr_left rect; let y = jr_top rect;
     (r, a) \<leftarrow> writer x y (jr_right rect + 1 - x) (jr_bottom rect + 1 - y) (Some bitmap) (jd_arg d);
     Some (of_bool r, d\<lparr>jd_arg := a\<rparr>) }"

definition jd_read ::
    "'a jpg_reader_cb \<Rightarrow> bool \<Rightarrow> nat \<Rightarrow> 'a esp_jpg_decoder_t \<Rightarrow> ((nat \<times> u8 list) \<times> 'a esp_jpg_decoder_t) option" where
  "jd_read reader buf len0 d =
     (let rest = sz (jd_len d + 2 ^ 32 - jd_index d);
          len = (if jd_len d \<noteq> 0 \<and> len0 > rest then rest else len0)
      in if len \<noteq> 0 then do {
           ((k, bs), a) \<leftarrow> reader (jd_index d) buf len (jd_arg d);
           Some ((k, bs), d\<lparr>jd_arg := a, jd_index := sz (jd_index d + k)\<rparr>) }
         else Some ((0, []), d))"

primrec run_jd ::
    "'a jpg_reader_cb \<Rightarrow> 'a jpg_writer_cb \<Rightarrow> 'r jd \<Rightarrow> 'a esp_jpg_decoder_t \<Rightarrow> ('r \<times> 'a esp_jpg_decoder_t) option" where
  "run_jd reader writer (JD_in buf n k) d = jd_read reader buf n d \<bind> (\<lambda>(a, d1). run_jd reader writer (k a) d1)"
| "run_jd reader writer (JD_out r bs k) d = jd_write writer r bs d \<bind> (\<lambda>(a, d1). run_jd reader writer (k a) d1)"
| "run_jd reader writer (JD_ret x) d = Some (x, d)"

definition esp_jpg_decode ::
    "'j tjpgd \<Rightarrow> nat \<Rightarrow> jpg_scale_t \<Rightarrow> 'a jpg_reader_cb \<Rightarrow> 'a jpg_writer_cb \<Rightarrow> 'a \<Rightarrow> (esp_err_t \<times> 'a) option" where
  "esp_jpg_decode rom len scale reader writer arg = do {
     ((jres, w, h, j), d1) \<leftarrow> run_jd reader writer (jd_prepare rom) \<lparr>jd_arg = arg, jd_len = len, jd_index = 0\<rparr>;
     if jres \<noteq> 0 then Some (ESP_FAIL, jd_arg d1)
     else do {
       let output_width = drop_bit (jpg_scale_index scale) w;
       let output_height = drop_bit (jpg_scale_index scale) h;
       (_, a1) \<leftarrow> writer 0 0 output_width output_height None (jd_arg d1);
       (jres2, d2) \<leftarrow> run_jd reader writer (jd_decomp rom j (jpg_scale_index scale)) (d1\<lparr>jd_arg := a1\<rparr>);
       (_, a2) \<leftarrow> writer output_width output_height output_width output_height None (jd_arg d2);
       let d3 = d2\<lparr>jd_arg := a2\<rparr>;
       if jres2 \<noteq> 0 then Some (ESP_FAIL, a2)
       else if len \<noteq> 0 \<and> jd_index d3 < len then do {
         (_, d4) \<leftarrow> jd_read reader False (len - jd_index d3) d3;
         Some (ESP_OK, jd_arg d4) }
       else Some (ESP_OK, a2) } }"

subsection \<open>Its clients\<close>

record rgb_jpg_decoder =
  rj_width :: u16
  rj_height :: u16
  rj_data_offset :: u16
  rj_input :: "u8 list"
  rj_output :: "u8 list option"

text \<open>The memory behind \<open>output\<close>; behind NULL there is none.\<close>

definition rj_mem :: "rgb_jpg_decoder \<Rightarrow> u8 list" where
  "rj_mem jpeg = (case rj_output jpeg of None \<Rightarrow> [] | Some m \<Rightarrow> m)"

definition rj_put :: "u8 list \<Rightarrow> rgb_jpg_decoder \<Rightarrow> rgb_jpg_decoder" where
  "rj_put m jpeg = jpeg\<lparr>rj_output := map_option (\<lambda>_. m) (rj_output jpeg)\<rparr>"

text \<open>The call at the start and at the end of the output.\<close>

definition rgb_start :: "(nat \<Rightarrow> u8 list option) \<Rightarrow> u16 \<Rightarrow> u16 \<Rightarrow> u16 \<Rightarrow> u16 \<Rightarrow> rgb_jpg_decoder \<Rightarrow> (bool \<times> rgb_jpg_decoder) option" where
  "rgb_start mal x y w h jpeg =
     (if x = 0 \<and> y = 0 then
        (let jpeg1 = jpeg\<lparr>rj_width := w, rj_height := h\<rparr>;
             n = unat w * unat h * 3 + unat (rj_data_offset jpeg)
         in if rj_output jpeg = None then
              (if 2 ^ 31 \<le> n then None
               else case mal n of
                 None \<Rightarrow> Some (False, jpeg1)
               | Some m \<Rightarrow> Some (True, jpeg1\<lparr>rj_output := Some m\<rparr>))
            else Some (True, jpeg1))
      else Some (True, jpeg))"

text \<open>One row of a block: \<open>o\<close> is the position of the row in the output, \<open>p\<close> in the block; \<open>ixs\<close> the values of \<open>ix\<close>.\<close>

fun rgb_row :: "u8 list \<Rightarrow> nat \<Rightarrow> nat \<Rightarrow> nat list \<Rightarrow> u8 list \<Rightarrow> u8 list option" where
  "rgb_row bs p q [] out = Some out"
| "rgb_row bs p q (ix # ixs) out = do {
     b2 \<leftarrow> mem_byte bs (p + ix + 2);
     b1 \<leftarrow> mem_byte bs (p + ix + 1);
     b0 \<leftarrow> mem_byte bs (p + ix);
     out1 \<leftarrow> mem_write out (q + ix) [b2, b1, b0];
     rgb_row bs p q ixs out1 }"

definition steps3 :: "nat \<Rightarrow> nat list" where
  "steps3 n = map (\<lambda>i. 3 * i) [0..<(n + 2) div 3]"

partial_function (option) rgb_rows ::
    "u8 list \<Rightarrow> nat \<Rightarrow> nat \<Rightarrow> nat \<Rightarrow> nat \<Rightarrow> nat \<Rightarrow> nat \<Rightarrow> u8 list \<Rightarrow> u8 list option" where
  "rgb_rows bs jw b q w iy p out =
     (if iy < b then do {
        out1 \<leftarrow> rgb_row bs p (q + iy) (steps3 w) out;
        rgb_rows bs jw b q w (sz (iy + jw)) (p + w) out1 }
      else Some out)"

definition rgb_write :: "(nat \<Rightarrow> u8 list option) \<Rightarrow> rgb_jpg_decoder jpg_writer_cb" where
  "rgb_write mal x y w h bitmap jpeg = (case bitmap of
     None \<Rightarrow> rgb_start mal x y w h jpeg
   | Some bs \<Rightarrow> do {
       let jw = unat (rj_width jpeg) * 3;
       let t = sz (unat y * jw);
       let b = sz (t + sz (unat h * jw));
       let l = unat x * 3;
       out \<leftarrow> rgb_rows bs jw b (unat (rj_data_offset jpeg) + l) (unat (w * 3)) t 0 (rj_mem jpeg);
       Some (True, rj_put out jpeg) })"

definition rgb565_word :: "u8 \<Rightarrow> u8 \<Rightarrow> u8 \<Rightarrow> u16" where
  "rgb565_word r g b =
     push_bit 8 (ucast r AND 0xF8) OR push_bit 3 (ucast g AND 0xFC) OR drop_bit 3 (ucast b)"

fun rgb565_row :: "u8 list \<Rightarrow> nat \<Rightarrow> nat \<Rightarrow> nat list \<Rightarrow> u8 list \<Rightarrow> u8 list option" where
  "rgb565_row bs p q [] out = Some out"
| "rgb565_row bs p q (ix # ixs) out = do {
     r \<leftarrow> mem_byte bs (p + ix);
     g \<leftarrow> mem_byte bs (p + ix + 1);
     b \<leftarrow> mem_byte bs (p + ix + 2);
     let c = rgb565_word r g b;
     out1 \<leftarrow> mem_write out (q + ix div 3 * 2) [le_byte0 c, le_byte1 c];
     rgb565_row bs p q ixs out1 }"

partial_function (option) rgb565_rows ::
    "u8 list \<Rightarrow> nat \<Rightarrow> nat \<Rightarrow> nat \<Rightarrow> nat \<Rightarrow> nat \<Rightarrow> nat \<Rightarrow> nat \<Rightarrow> nat \<Rightarrow> u8 list \<Rightarrow> u8 list option" where
  "rgb565_rows bs jw jw2 b q w iy iy2 p out =
     (if iy < b then do {
        out1 \<leftarrow> rgb565_row bs p (q + iy2) (steps3 w) out;
        rgb565_rows bs jw jw2 b q w (sz (iy + jw)) (sz (iy2 + jw2)) (p + w) out1 }
      else Some out)"

definition rgb565_write :: "(nat \<Rightarrow> u8 list option) \<Rightarrow> rgb_jpg_decoder jpg_writer_cb" where
  "rgb565_write mal x y w h bitmap jpeg = (case bitmap of
     None \<Rightarrow> rgb_start mal x y w h jpeg
   | Some bs \<Rightarrow> do {
       let jw = unat (rj_width jpeg) * 3; let jw2 = unat (rj_width jpeg) * 2;
       let t = sz (unat y * jw); let t2 = sz (unat y * jw2);
       let b = sz (t + sz (unat h * jw));
       let l = unat x * 2;
       out \<leftarrow> rgb565_rows bs jw jw2 b (unat (rj_data_offset jpeg) + l) (unat (w * 3)) t t2 0 (rj_mem jpeg);
       Some (True, rj_put out jpeg) })"

definition jpg_read :: "rgb_jpg_decoder jpg_reader_cb" where
  "jpg_read index buf len jpeg =
     (if buf then do { bs \<leftarrow> mem_read (rj_input jpeg) index len; Some ((len, bs), jpeg) }
      else Some ((len, []), jpeg))"

definition jpg2rgb888 ::
    "(nat \<Rightarrow> u8 list option) \<Rightarrow> 'j tjpgd \<Rightarrow> u8 list \<Rightarrow> nat \<Rightarrow> u8 list \<Rightarrow> jpg_scale_t \<Rightarrow> (bool \<times> u8 list) option" where
  "jpg2rgb888 mal rom src src_len out scale = do {
     (r, jpeg) \<leftarrow> esp_jpg_decode rom src_len scale jpg_read (rgb_write mal)
       \<lparr>rj_width = 0, rj_height = 0, rj_data_offset = 0, rj_input = src, rj_output = Some out\<rparr>;
     Some (r = ESP_OK, rj_mem jpeg) }"

definition jpg2rgb565 ::
    "(nat \<Rightarrow> u8 list option) \<Rightarrow> 'j tjpgd \<Rightarrow> u8 list \<Rightarrow> nat \<Rightarrow> u8 list \<Rightarrow> jpg_scale_t \<Rightarrow> (bool \<times> u8 list) option" where
  "jpg2rgb565 mal rom src src_len out scale = do {
     (r, jpeg) \<leftarrow> esp_jpg_decode rom src_len scale jpg_read (rgb565_write mal)
       \<lparr>rj_width = 0, rj_height = 0, rj_data_offset = 0, rj_input = src, rj_output = Some out\<rparr>;
     Some (r = ESP_OK, rj_mem jpeg) }"

text \<open>The results are the return value and what \<open>*out\<close> and \<open>*out_len\<close> are; \<open>o0\<close> and \<open>n0\<close> is what they were.\<close>

definition jpg2bmp ::
    "(nat \<Rightarrow> u8 list option) \<Rightarrow> 'j tjpgd \<Rightarrow> u8 list \<Rightarrow> nat \<Rightarrow> u8 list option \<Rightarrow> nat \<Rightarrow> (bool \<times> u8 list option \<times> nat) option" where
  "jpg2bmp mal rom src src_len o0 n0 = do {
     (r, jpeg) \<leftarrow> esp_jpg_decode rom src_len JPG_SCALE_NONE jpg_read (rgb_write mal)
       \<lparr>rj_width = 0, rj_height = 0, rj_data_offset = of_nat BMP_HEADER_LEN, rj_input = src, rj_output = None\<rparr>;
     if r \<noteq> ESP_OK then Some (False, o0, n0)
     else do {
       let n = unat (rj_width jpeg) * unat (rj_height jpeg) * 3;
       out \<leftarrow> put_header (bitmap_header (n + BMP_HEADER_LEN) BMP_HEADER_LEN (rj_width jpeg) (rj_height jpeg) 3 n) (rj_mem jpeg);
       Some (True, Some out, n + BMP_HEADER_LEN) } }"

definition fmt2rgb888 ::
    "(nat \<Rightarrow> u8 list option) \<Rightarrow> 'j tjpgd \<Rightarrow> u8 list \<Rightarrow> nat \<Rightarrow> pixformat_t \<Rightarrow> u8 list \<Rightarrow> (bool \<times> u8 list) option" where
  "fmt2rgb888 mal rom src src_len format rgb =
     (if format = PIXFORMAT_JPEG then jpg2rgb888 mal rom src src_len rgb JPG_SCALE_NONE
      else do { out \<leftarrow> fmt2rgb888_raw src src_len format rgb; Some (True, out) })"

definition fmt2bmp ::
    "(nat \<Rightarrow> u8 list option) \<Rightarrow> 'j tjpgd \<Rightarrow> u8 list \<Rightarrow> nat \<Rightarrow> u16 \<Rightarrow> u16 \<Rightarrow> pixformat_t \<Rightarrow> u8 list option \<Rightarrow> nat \<Rightarrow>
     (bool \<times> u8 list option \<times> nat) option" where
  "fmt2bmp mal rom src src_len width height format o0 n0 =
     (if format = PIXFORMAT_JPEG then jpg2bmp mal rom src src_len o0 n0
      else fmt2bmp_raw mal src width height format)"

definition frame2bmp ::
    "(nat \<Rightarrow> u8 list option) \<Rightarrow> 'j tjpgd \<Rightarrow> camera_fb_t \<Rightarrow> u8 list option \<Rightarrow> nat \<Rightarrow> (bool \<times> u8 list option \<times> nat) option" where
  "frame2bmp mal rom b o0 n0 =
     fmt2bmp mal rom (fb_mem b) (fb_len b) (of_nat (fb_width b)) (of_nat (fb_height b)) (fb_format b) o0 n0"


subsection \<open>A block of pixels\<close>

definition row_bytes :: "u8 list \<Rightarrow> nat \<Rightarrow> nat \<Rightarrow> u8 list" where
  "row_bytes bs p w = concat (map (\<lambda>i. [bs ! (p + 3 * i + 2), bs ! (p + 3 * i + 1), bs ! (p + 3 * i)]) [0..<w])"

lemma length_row_bytes [simp]: "length (row_bytes bs p w) = 3 * w"
  unfolding row_bytes_def using length_concat_const [of "\<lambda>i. [bs ! (p + 3 * i + 2), bs ! (p + 3 * i + 1), bs ! (p + 3 * i)]" 3] by simp

lemma row_bytes_nth: "i < w \<Longrightarrow> j < 3 \<Longrightarrow> row_bytes bs p w ! (3 * i + j) = [bs ! (p + 3 * i + 2), bs ! (p + 3 * i + 1), bs ! (p + 3 * i)] ! j"
  unfolding row_bytes_def by (rule nth_concat_const) simp_all

lemma steps3_mult: "steps3 (3 * w) = map (\<lambda>i. 3 * i) [0..<w]"
proof -
  have "(3 * w + 2) div 3 = w" by presburger
  then show ?thesis by (simp only: steps3_def)
qed

lemma rgb_row_shift: "rgb_row bs p q (map (\<lambda>i. 3 * i) (map Suc xs)) out = rgb_row bs (p + 3) (q + 3) (map (\<lambda>i. 3 * i) xs) out"
proof (induction xs arbitrary: out)
  case (Cons x xs)
  have "rgb_row bs p q (map (\<lambda>i. 3 * i) (map Suc xs)) = rgb_row bs (p + 3) (q + 3) (map (\<lambda>i. 3 * i) xs)"
    by (rule ext) (rule Cons.IH)
  then show ?case by (simp add: algebra_simps)
qed simp

lemma rgb_row_writes:
  assumes "p + 3 * w \<le> length bs" and "q + 3 * w \<le> length out"
  shows "rgb_row bs p q (steps3 (3 * w)) out = mem_write out q (row_bytes bs p w)"
  using assms unfolding steps3_mult
proof (induction w arbitrary: p q out)
  case (Suc w)
  let ?f = "\<lambda>i. [bs ! (p + 3 * i + 2), bs ! (p + 3 * i + 1), bs ! (p + 3 * i)]"
  have "rgb_row bs p q (map (\<lambda>i. 3 * i) [0..<Suc w]) out =
      do { m1 \<leftarrow> mem_write out q (?f 0); rgb_row bs (p + 3) (q + 3) (map (\<lambda>i. 3 * i) [0..<w]) m1 }"
    unfolding upt_Suc_shift list.map rgb_row_shift rgb_row.simps using Suc.prems rgb_row_shift by simp
  then show ?case using Suc mem_write_chunks [of ?f 3 q w out] by (simp add: row_bytes_def algebra_simps)
qed (simp add: row_bytes_def)

lemma mem_write_nth:
  "mem_write m p bs = Some m' \<Longrightarrow> k < length m \<Longrightarrow> m' ! k = (if p \<le> k \<and> k < p + length bs then bs ! (k - p) else m ! k)"
  by (auto simp: mem_write_def nth_append split: if_splits)

text \<open>The pixel in column \<open>x\<close>, row \<open>y\<close> of an image \<open>W\<close> wide that begins at \<open>off\<close>.\<close>

definition pixel_at :: "u8 list \<Rightarrow> nat \<Rightarrow> nat \<Rightarrow> nat \<Rightarrow> nat \<Rightarrow> u8 \<times> u8 \<times> u8" where
  "pixel_at m off W x y = (m ! (off + 3 * (y * W + x) + 2), m ! (off + 3 * (y * W + x) + 1), m ! (off + 3 * (y * W + x)))"

definition block_pixel :: "u8 list \<Rightarrow> nat \<Rightarrow> nat \<Rightarrow> u8 \<times> u8 \<times> u8" where
  "block_pixel bs p i = (bs ! (p + 3 * i), bs ! (p + 3 * i + 1), bs ! (p + 3 * i + 2))"

lemma in_row:
  assumes "X < W" and "x + w \<le> (W :: nat)"
  shows "y * W + x \<le> Y * W + X \<and> Y * W + X < y * W + x + w \<longleftrightarrow> Y = y \<and> x \<le> X \<and> X < x + w"
proof (cases Y y rule: linorder_cases)
  case less
  then have "Suc Y * W \<le> y * W" by (intro mult_le_mono1) simp
  then show ?thesis using less assms by simp
next
  case greater
  then have "Suc y * W \<le> Y * W" by (intro mult_le_mono1) simp
  then show ?thesis using greater assms by simp
qed simp

lemma cell_le: "j < c \<Longrightarrow> c * a \<le> c * b + j \<longleftrightarrow> a \<le> (b :: nat)"
proof (rule iffI, rule ccontr)
  assume "j < c" "c * a \<le> c * b + j" "\<not> a \<le> b"
  then have "c * Suc b \<le> c * a" by (intro mult_le_mono2) simp
  with \<open>c * a \<le> c * b + j\<close> \<open>j < c\<close> show False by simp
qed (simp add: trans_le_add1)

text \<open>A row of \<open>w\<close> cells of \<open>c\<close> bytes, written into column \<open>x\<close>, row \<open>y\<close> of an image \<open>W\<close> wide.\<close>

lemma row_cells:
  assumes m: "mem_write out (off + c * (y * W + x)) row = Some out'" and row: "length row = c * w"
    and X: "X < W" "x + w \<le> W" and j: "j < c" "off + c * (Y * W + X) + j < length out"
  shows "out' ! (off + c * (Y * W + X) + j) =
    (if Y = y \<and> x \<le> X \<and> X < x + w then row ! (c * (X - x) + j) else out ! (off + c * (Y * W + X) + j))"
proof -
  let ?k = "Y * W + X" and ?s = "y * W + x"
  have "off + c * ?s \<le> off + c * ?k + j \<and> off + c * ?k + j < off + c * ?s + c * w \<longleftrightarrow> ?s \<le> ?k \<and> ?k < ?s + w"
    using cell_le [OF j(1), of ?s ?k] cell_le [OF j(1), of "?s + w" ?k] unfolding distrib_left by linarith
  also have "\<dots> \<longleftrightarrow> Y = y \<and> x \<le> X \<and> X < x + w" by (rule in_row [OF X])
  finally have c: "off + c * ?s \<le> off + c * ?k + j \<and> off + c * ?k + j < off + c * ?s + length row \<longleftrightarrow> Y = y \<and> x \<le> X \<and> X < x + w"
    unfolding row .
  have "off + c * ?k + j - (off + c * ?s) = c * (X - x) + j" if "Y = y" "x \<le> X"
    using that by (simp add: algebra_simps diff_mult_distrib2)
  then show ?thesis unfolding mem_write_nth [OF m j(2)] c by simp
qed

text \<open>The rows of a block, one write each.\<close>

fun put_rows :: "(nat \<Rightarrow> nat) \<Rightarrow> (nat \<Rightarrow> u8 list) \<Rightarrow> nat \<Rightarrow> u8 list \<Rightarrow> u8 list option" where
  "put_rows pos row 0 m = Some m"
| "put_rows pos row (Suc h) m = do { m1 \<leftarrow> mem_write m (pos 0) (row 0); put_rows (\<lambda>k. pos (Suc k)) (\<lambda>k. row (Suc k)) h m1 }"

lemma put_rows_cells:
  assumes "x + w \<le> W" and "\<And>k. length (row k) = c * w" and "off + c * ((y + h) * W) \<le> length out"
  shows "\<exists>out'. put_rows (\<lambda>k. off + c * ((y + k) * W + x)) row h out = Some out' \<and> length out' = length out \<and>
    take off out' = take off out \<and>
    (\<forall>X Y j. X < W \<and> j < c \<and> off + c * (Y * W + X) + j < length out \<longrightarrow> out' ! (off + c * (Y * W + X) + j) =
       (if y \<le> Y \<and> Y < y + h \<and> x \<le> X \<and> X < x + w then row (Y - y) ! (c * (X - x) + j) else out ! (off + c * (Y * W + X) + j)))"
  using assms(2-)
proof (induction h arbitrary: y row out)
  case (Suc h)
  let ?q = "off + c * (y * W + x)"
  have "y * W + x + w \<le> (y + Suc h) * W" using assms(1) by (simp add: algebra_simps)
  from mult_le_mono2 [OF this, of c] have "?q + c * w \<le> length out" using Suc.prems(2) by (simp add: algebra_simps)
  then obtain out1 where o1: "mem_write out ?q (row 0) = Some out1" using Suc.prems(1) by (simp add: mem_write_def)
  have l1: "length out1 = length out" "take off out1 = take off out"
    using mem_write_length [OF o1] mem_write_prefix [OF o1, of off] by simp_all
  have "off + c * ((Suc y + h) * W) \<le> length out1" using Suc.prems(2) l1 by simp
  from Suc.IH [of "\<lambda>k. row (Suc k)", OF _ this] Suc.prems(1) obtain out' where
    2: "put_rows (\<lambda>k. off + c * ((Suc y + k) * W + x)) (\<lambda>k. row (Suc k)) h out1 = Some out'" "length out' = length out1"
      "take off out' = take off out1"
      "\<forall>X Y j. X < W \<and> j < c \<and> off + c * (Y * W + X) + j < length out1 \<longrightarrow> out' ! (off + c * (Y * W + X) + j) =
       (if Suc y \<le> Y \<and> Y < Suc y + h \<and> x \<le> X \<and> X < x + w then row (Suc (Y - Suc y)) ! (c * (X - x) + j) else out1 ! (off + c * (Y * W + X) + j))"
    by blast
  have "put_rows (\<lambda>k. off + c * ((y + k) * W + x)) row (Suc h) out = Some out'" using o1 2(1) by simp
  moreover have "out' ! (off + c * (Y * W + X) + j) =
       (if y \<le> Y \<and> Y < y + Suc h \<and> x \<le> X \<and> X < x + w then row (Y - y) ! (c * (X - x) + j) else out ! (off + c * (Y * W + X) + j))"
    if a: "X < W" "j < c" "off + c * (Y * W + X) + j < length out" for X Y j
  proof -
    have b: "out' ! (off + c * (Y * W + X) + j) =
       (if Suc y \<le> Y \<and> Y < Suc y + h \<and> x \<le> X \<and> X < x + w then row (Suc (Y - Suc y)) ! (c * (X - x) + j) else out1 ! (off + c * (Y * W + X) + j))"
      using 2(4) a l1 by simp
    show ?thesis unfolding b row_cells [OF o1 Suc.prems(1) a(1) assms(1) a(2,3)] by (auto simp: Suc_diff_Suc)
  qed
  ultimately show ?case using 2(2,3) l1 by auto
qed auto

lemma rgb_rows_put:
  assumes "0 < W" and "x + w \<le> W" and "(y + h) * (W * 3) < 2 ^ 32" and "p + 3 * w * h \<le> length bs"
    and "off + 3 * ((y + h) * W) \<le> length out"
  shows "rgb_rows bs (W * 3) ((y + h) * (W * 3)) (off + x * 3) (3 * w) (y * (W * 3)) p out =
    put_rows (\<lambda>k. off + 3 * ((y + k) * W + x)) (\<lambda>k. row_bytes bs (p + 3 * w * k) w) h out"
  using assms(3-)
proof (induction h arbitrary: y p out)
  case 0
  then show ?case by (subst rgb_rows.simps) auto
next
  case (Suc h)
  let ?q = "off + 3 * (y * W + x)"
  have lt: "y * (W * 3) < (y + Suc h) * (W * 3)" using assms(1) by (intro mult_less_mono1) simp_all
  have nxt: "sz (y * (W * 3) + W * 3) = Suc y * (W * 3)"
  proof -
    have "Suc y * (W * 3) \<le> (y + Suc h) * (W * 3)" by (intro mult_le_mono1) simp
    from le_less_trans [OF this Suc.prems(1)] show ?thesis by (simp add: sz_def add.commute)
  qed
  have "y * W + x + w \<le> (y + Suc h) * W" using assms(2) by (simp add: algebra_simps)
  then have fit: "?q + 3 * w \<le> length out" using Suc.prems(3) by simp
  have pw: "p + 3 * w \<le> length bs" using Suc.prems(2) by (simp add: algebra_simps)
  obtain out1 where o1: "mem_write out ?q (row_bytes bs p w) = Some out1" using fit by (simp add: mem_write_def)
  have row: "rgb_row bs p (off + x * 3 + y * (W * 3)) (steps3 (3 * w)) out = Some out1"
    using rgb_row_writes [OF pw fit] o1 by (simp add: algebra_simps)
  have "(Suc y + h) * (W * 3) < 2 ^ 32" "p + 3 * w + 3 * w * h \<le> length bs" "off + 3 * ((Suc y + h) * W) \<le> length out1"
    using Suc.prems mem_write_length [OF o1] by (simp_all add: algebra_simps)
  from Suc.IH [OF this] show ?case using lt row nxt o1 by (subst rgb_rows.simps) (simp add: algebra_simps)
qed

lemma rgb_rows_spec:
  assumes "0 < W" and "x + w \<le> W" and "(y + h) * (W * 3) < 2 ^ 32" and "3 * w * h \<le> length bs"
    and "off + 3 * ((y + h) * W) \<le> length out"
  shows "\<exists>out'. rgb_rows bs (W * 3) ((y + h) * (W * 3)) (off + x * 3) (3 * w) (y * (W * 3)) 0 out = Some out' \<and>
    length out' = length out \<and> take off out' = take off out \<and>
    (\<forall>X Y. X < W \<and> off + 3 * (Y * W + X) + 3 \<le> length out \<longrightarrow>
       pixel_at out' off W X Y = (if y \<le> Y \<and> Y < y + h \<and> x \<le> X \<and> X < x + w then block_pixel bs 0 ((Y - y) * w + (X - x))
                                  else pixel_at out off W X Y))"
proof -
  have "0 + 3 * w * h \<le> length bs" using assms(4) by simp
  note run = rgb_rows_put [OF assms(1-3) this assms(5)]
  from put_rows_cells [of x w W "\<lambda>k. row_bytes bs (0 + 3 * w * k) w" 3, OF assms(2) _ assms(5)] obtain out' where
    o: "put_rows (\<lambda>k. off + 3 * ((y + k) * W + x)) (\<lambda>k. row_bytes bs (0 + 3 * w * k) w) h out = Some out'" "length out' = length out"
      "take off out' = take off out"
    and n: "\<And>X Y j. X < W \<Longrightarrow> j < 3 \<Longrightarrow> off + 3 * (Y * W + X) + j < length out \<Longrightarrow> out' ! (off + 3 * (Y * W + X) + j) =
       (if y \<le> Y \<and> Y < y + h \<and> x \<le> X \<and> X < x + w then row_bytes bs (0 + 3 * w * (Y - y)) w ! (3 * (X - x) + j) else out ! (off + 3 * (Y * W + X) + j))"
    by auto
  have "pixel_at out' off W X Y = (if y \<le> Y \<and> Y < y + h \<and> x \<le> X \<and> X < x + w then block_pixel bs 0 ((Y - y) * w + (X - x))
                                  else pixel_at out off W X Y)" if "X < W" "off + 3 * (Y * W + X) + 3 \<le> length out" for X Y
    using n [OF that(1), of 0 Y] n [OF that(1), of 1 Y] n [OF that(1), of 2 Y] that(2)
      row_bytes_nth [of "X - x" w 0 bs] row_bytes_nth [of "X - x" w 1 bs] row_bytes_nth [of "X - x" w 2 bs]
    by (auto simp: pixel_at_def block_pixel_def algebra_simps)
  then show ?thesis using run o by auto
qed


text \<open>What \<open>_rgb_write\<close> does with a block that lies within the image.\<close>

definition rect_ok :: "nat \<Rightarrow> nat \<Rightarrow> JRECT \<Rightarrow> u8 list \<Rightarrow> bool" where
  "rect_ok W H r bs \<longleftrightarrow> jr_left r \<le> jr_right r \<and> unat (jr_right r) < W \<and> jr_top r \<le> jr_bottom r \<and> unat (jr_bottom r) < H \<and>
     3 * (unat (jr_right r) + 1 - unat (jr_left r)) < 2 ^ 16 \<and>
     3 * (unat (jr_right r) + 1 - unat (jr_left r)) * (unat (jr_bottom r) + 1 - unat (jr_top r)) \<le> length bs"

lemma span: "a \<le> b \<Longrightarrow> unat b < 2 ^ 16 - 1 \<Longrightarrow> unat (b + 1 - a :: u16) = unat b + 1 - unat a"
proof -
  assume "a \<le> b" "unat b < 2 ^ 16 - 1"
  then have "unat (b + 1) = unat b + 1" by (simp add: unat_word_ariths)
  moreover have "a \<le> b + 1" using \<open>a \<le> b\<close> calculation by (simp add: word_le_nat_alt)
  ultimately show ?thesis by (simp add: unat_sub)
qed

lemma row_width: "3 * unat w < 2 ^ 16 \<Longrightarrow> unat (w * 3 :: u16) = 3 * unat w"
  by (simp add: unat_word_ariths)

lemma block_rows:
  assumes "y + h \<le> H" and "3 * (W * H) < 2 ^ 32"
  shows "(y + h) * (W * 3) < 2 ^ 32" "sz (y * (W * 3)) = y * (W * 3)" "sz (h * (W * 3)) = h * (W * 3)"
    "sz (y * (W * 3) + h * (W * 3)) = (y + h) * (W * 3)"
proof -
  have "(y + h) * W \<le> H * W" using assms(1) by (rule mult_le_mono1)
  then show lt: "(y + h) * (W * 3) < 2 ^ 32" using assms(2) by (simp add: algebra_simps)
  then show "sz (y * (W * 3)) = y * (W * 3)" "sz (h * (W * 3)) = h * (W * 3)"
    "sz (y * (W * 3) + h * (W * 3)) = (y + h) * (W * 3)" by (simp_all add: sz_def algebra_simps)
qed

lemma rgb_write_block:
  fixes x y w h :: u16 and jpeg :: rgb_jpg_decoder
  defines "W \<equiv> unat (rj_width jpeg)" and "H \<equiv> unat (rj_height jpeg)" and "off \<equiv> unat (rj_data_offset jpeg)"
  assumes out: "rj_output jpeg = Some out" "off + 3 * (W * H) \<le> length out" "3 * (W * H) < 2 ^ 32"
    and r: "unat x + unat w \<le> W" "unat y + unat h \<le> H" "0 < W" "3 * unat w < 2 ^ 16" "3 * unat w * unat h \<le> length bs"
  shows "\<exists>out'. rgb_write mal x y w h (Some bs) jpeg = Some (True, jpeg\<lparr>rj_output := Some out'\<rparr>) \<and> length out' = length out \<and>
    take off out' = take off out \<and>
    (\<forall>X Y. X < W \<and> Y < H \<longrightarrow> pixel_at out' off W X Y =
       (if unat y \<le> Y \<and> Y < unat y + unat h \<and> unat x \<le> X \<and> X < unat x + unat w
        then block_pixel bs 0 ((Y - unat y) * unat w + (X - unat x)) else pixel_at out off W X Y))"
proof -
  have le: "(unat y + unat h) * W \<le> H * W" using r(2) by (rule mult_le_mono1)
  note lt = block_rows(1) [OF r(2) out(3)] and t = block_rows(2-4) [OF r(2) out(3)] and w3 = row_width [OF r(4)]
  have "off + 3 * ((unat y + unat h) * W) \<le> length out" using le out(2) by (simp add: algebra_simps)
  from rgb_rows_spec [OF r(3,1) lt r(5) this] obtain out' where
    o: "rgb_rows bs (W * 3) ((unat y + unat h) * (W * 3)) (off + unat x * 3) (3 * unat w) (unat y * (W * 3)) 0 out = Some out'"
      "length out' = length out" "take off out' = take off out"
      "\<forall>X Y. X < W \<and> off + 3 * (Y * W + X) + 3 \<le> length out \<longrightarrow>
       pixel_at out' off W X Y = (if unat y \<le> Y \<and> Y < unat y + unat h \<and> unat x \<le> X \<and> X < unat x + unat w
         then block_pixel bs 0 ((Y - unat y) * unat w + (X - unat x)) else pixel_at out off W X Y)" by auto
  have fit: "off + 3 * (Y * W + X) + 3 \<le> length out" if "X < W" "Y < H" for X Y
    using pixel_index [OF that] out(2) by simp
  have "rgb_write mal x y w h (Some bs) jpeg = Some (True, jpeg\<lparr>rj_output := Some out'\<rparr>)"
    using o(1) out(1) by (simp add: rgb_write_def W_def [symmetric] off_def [symmetric] t w3 rj_mem_def rj_put_def Let_def)
  then show ?thesis using o(2-4) fit by blast
qed


subsection \<open>The picture a decoder draws\<close>

text \<open>
  The run of a decoder on the bytes of a source from position \<open>i\<close> on, with an output that accepts every block: its
  result, the rectangles it delivers with their bytes, and the position it has read up to. It gets as many of the
  bytes it asks for as are left.
\<close>

primrec jd_on :: "u8 list \<Rightarrow> 'r jd \<Rightarrow> nat \<Rightarrow> 'r \<times> (JRECT \<times> u8 list) list \<times> nat" where
  "jd_on src (JD_in buf n k) i =
     (let m = min n (length src - i) in jd_on src (k (m, if buf then take m (drop i src) else [])) (i + m))"
| "jd_on src (JD_out r bs k) i = (case jd_on src (k 1) i of (x, ds, i') \<Rightarrow> (x, (r, bs) # ds, i'))"
| "jd_on src (JD_ret x) i = (x, [], i)"

text \<open>The size of the image at a scale, when its header can be read, and with it the rectangles, when the image can be decoded.\<close>

definition jpg_size :: "'j tjpgd \<Rightarrow> jpg_scale_t \<Rightarrow> u8 list \<Rightarrow> (nat \<times> nat) option" where
  "jpg_size rom scale src = (case jd_on src (jd_prepare rom) 0 of ((jres, w, h, j), _, _) \<Rightarrow>
     if jres = 0 then Some (unat w div 2 ^ jpg_scale_index scale, unat h div 2 ^ jpg_scale_index scale) else None)"

definition jpg_blocks :: "'j tjpgd \<Rightarrow> jpg_scale_t \<Rightarrow> u8 list \<Rightarrow> int \<times> (JRECT \<times> u8 list) list" where
  "jpg_blocks rom scale src = (case jd_on src (jd_prepare rom) 0 of ((jres, w, h, j), _, i) \<Rightarrow>
     (case jd_on src (jd_decomp rom j (jpg_scale_index scale)) i of (jres2, ds, _) \<Rightarrow> (jres2, ds)))"

definition jpg_picture :: "'j tjpgd \<Rightarrow> jpg_scale_t \<Rightarrow> u8 list \<Rightarrow> (nat \<times> nat \<times> (JRECT \<times> u8 list) list) option" where
  "jpg_picture rom scale src = (case jpg_size rom scale src of None \<Rightarrow> None
     | Some (W, H) \<Rightarrow> (case jpg_blocks rom scale src of (jres, ds) \<Rightarrow> if jres = 0 then Some (W, H, ds) else None))"

text \<open>
  What is relied on of the decoder, for the source at hand only: reading the header delivers no pixels; every
  rectangle lies within the scaled image, is narrow enough for a row of it to be counted in 16 bits, and comes with three
  bytes per pixel.
\<close>

definition decoder_fits :: "'j tjpgd \<Rightarrow> jpg_scale_t \<Rightarrow> u8 list \<Rightarrow> bool" where
  "decoder_fits rom scale src \<longleftrightarrow> fst (snd (jd_on src (jd_prepare rom) 0)) = [] \<and>
     (case jpg_size rom scale src of None \<Rightarrow> True
      | Some (W, H) \<Rightarrow> \<forall>(r, bs) \<in> set (snd (jpg_blocks rom scale src)). rect_ok W H r bs)"

text \<open>Painting a rectangle, both corners included, and a list of them, on a picture.\<close>

definition paint_rect :: "JRECT \<Rightarrow> u8 list \<Rightarrow> (nat \<Rightarrow> nat \<Rightarrow> u8 \<times> u8 \<times> u8) \<Rightarrow> nat \<Rightarrow> nat \<Rightarrow> u8 \<times> u8 \<times> u8" where
  "paint_rect r bs pic X Y =
     (if unat (jr_left r) \<le> X \<and> X \<le> unat (jr_right r) \<and> unat (jr_top r) \<le> Y \<and> Y \<le> unat (jr_bottom r)
      then block_pixel bs 0 ((Y - unat (jr_top r)) * (unat (jr_right r) + 1 - unat (jr_left r)) + (X - unat (jr_left r)))
      else pic X Y)"

fun paint :: "(JRECT \<times> u8 list) list \<Rightarrow> (nat \<Rightarrow> nat \<Rightarrow> u8 \<times> u8 \<times> u8) \<Rightarrow> nat \<Rightarrow> nat \<Rightarrow> u8 \<times> u8 \<times> u8" where
  "paint [] pic = pic"
| "paint ((r, bs) # ds) pic = paint ds (paint_rect r bs pic)"

subsection \<open>Decoding paints\<close>

text \<open>The parameters of a call for a rectangle.\<close>

definition rect_args :: "JRECT \<Rightarrow> u16 \<times> u16 \<times> u16 \<times> u16" where
  "rect_args r = (jr_left r, jr_top r, jr_right r + 1 - jr_left r, jr_bottom r + 1 - jr_top r)"

lemma rect_span:
  assumes "rect_ok W H r bs" and "rect_args r = (x, y, w, h)" and "W < 2 ^ 16" and "H < 2 ^ 16"
  shows "unat x + unat w \<le> W" "unat y + unat h \<le> H" "0 < W" "3 * unat w < 2 ^ 16" "3 * unat w * unat h \<le> length bs"
    "0 < unat w" "0 < unat h"
    "(if unat y \<le> Y \<and> Y < unat y + unat h \<and> unat x \<le> X \<and> X < unat x + unat w
      then block_pixel bs 0 ((Y - unat y) * unat w + (X - unat x)) else pic X Y) = paint_rect r bs pic X Y"
proof -
  have r: "x = jr_left r" "y = jr_top r" "w = jr_right r + 1 - jr_left r" "h = jr_bottom r + 1 - jr_top r"
    using assms(2) by (auto simp: rect_args_def)
  have o: "jr_left r \<le> jr_right r" "jr_top r \<le> jr_bottom r" "unat (jr_right r) < W" "unat (jr_bottom r) < H"
    "3 * (unat (jr_right r) + 1 - unat (jr_left r)) < 2 ^ 16"
    "3 * (unat (jr_right r) + 1 - unat (jr_left r)) * (unat (jr_bottom r) + 1 - unat (jr_top r)) \<le> length bs"
    using assms(1) by (simp_all only: rect_ok_def)
  have w: "unat w = unat (jr_right r) + 1 - unat (jr_left r)" unfolding r using o assms(3) by (intro span) simp_all
  have h: "unat h = unat (jr_bottom r) + 1 - unat (jr_top r)" unfolding r using o assms(4) by (intro span) simp_all
  have le: "unat (jr_left r) \<le> unat (jr_right r)" "unat (jr_top r) \<le> unat (jr_bottom r)" using o by (simp_all add: word_le_nat_alt)
  then show "unat x + unat w \<le> W" "unat y + unat h \<le> H" "0 < W" "0 < unat w" "0 < unat h" unfolding w h using o r by simp_all
  show "3 * unat w < 2 ^ 16" "3 * unat w * unat h \<le> length bs" unfolding w h using o by simp_all
  have "unat y \<le> Y \<and> Y < unat y + unat h \<and> unat x \<le> X \<and> X < unat x + unat w \<longleftrightarrow>
      unat (jr_left r) \<le> X \<and> X \<le> unat (jr_right r) \<and> unat (jr_top r) \<le> Y \<and> Y \<le> unat (jr_bottom r)"
    unfolding w h r(1,2) using le by auto
  then show "(if unat y \<le> Y \<and> Y < unat y + unat h \<and> unat x \<le> X \<and> X < unat x + unat w
      then block_pixel bs 0 ((Y - unat y) * unat w + (X - unat x)) else pic X Y) = paint_rect r bs pic X Y"
    unfolding paint_rect_def w using r(1,2) by simp
qed

text \<open>A client whose input is the first \<open>L\<close> bytes of \<open>src\<close>.\<close>

definition reads_from :: "u8 list \<Rightarrow> nat \<Rightarrow> rgb_jpg_decoder \<Rightarrow> bool" where
  "reads_from src L a \<longleftrightarrow> rj_input a = src \<and> 0 < L \<and> L \<le> length src \<and> L < 2 ^ 32"

lemma read_on:
  assumes "reads_from src L (jd_arg d)" and "jd_len d = L" and "jd_index d \<le> L"
  shows "jd_read jpg_read buf n d =
    (let m = min n (length (take L src) - jd_index d)
     in Some ((m, if buf then take m (drop (jd_index d) (take L src)) else []), d\<lparr>jd_index := jd_index d + m\<rparr>))"
proof -
  have L: "rj_input (jd_arg d) = src" "0 < L" "L \<le> length src" "L < 2 ^ 32" using assms(1) by (simp_all add: reads_from_def)
  define m where "m = min n (L - jd_index d)"
  have l: "length (take L src) = L" using L(3) by simp
  have sub: "sz (L + 2 ^ 32 - jd_index d) = L - jd_index d" using L assms(3) by (simp add: sz_def mod_if)
  have len: "(if jd_len d \<noteq> 0 \<and> n > sz (jd_len d + 2 ^ 32 - jd_index d) then sz (jd_len d + 2 ^ 32 - jd_index d) else n) = m"
    unfolding assms(2) sub using L(2) by (simp add: m_def min_def)
  have m: "jd_index d + m \<le> L" using assms(3) by (simp add: m_def)
  then have rd: "mem_read src (jd_index d) m = Some (take m (drop (jd_index d) (take L src)))"
    using L(3) by (simp add: drop_take)
  have "sz (jd_index d + m) = jd_index d + m" using m L(4) by (simp add: sz_def)
  then show ?thesis
    unfolding jd_read_def Let_def len l m_def [symmetric] using rd L(1) by (auto simp: jpg_read_def)
qed

lemma read_step:
  assumes "reads_from src L (jd_arg d)" and "jd_len d = L" and "jd_index d \<le> L"
  shows "\<exists>m bs. jd_read jpg_read buf n d = Some ((m, bs), d\<lparr>jd_index := jd_index d + m\<rparr>) \<and> jd_index d + m \<le> L \<and>
    (\<forall>k. jd_on (take L src) (JD_in buf n k) (jd_index d) = jd_on (take L src) (k (m, bs)) (jd_index d + m))"
  using read_on [OF assms, of buf n] assms(3) by (auto simp: Let_def)

text \<open>A run that delivers no block only reads.\<close>

lemma run_quiet:
  assumes "jd_on (take L src) t (jd_index d) = (x, [], i)" and "reads_from src L (jd_arg d)" and "jd_len d = L" and "jd_index d \<le> L"
  shows "run_jd jpg_read wr t d = Some (x, d\<lparr>jd_index := i\<rparr>) \<and> i \<le> L"
  using assms
proof (induction t arbitrary: d)
  case (JD_in buf n k)
  from read_step [OF JD_in.prems(2-4), of buf n] obtain m bs where
    m: "jd_read jpg_read buf n d = Some ((m, bs), d\<lparr>jd_index := jd_index d + m\<rparr>)" "jd_index d + m \<le> L"
      "jd_on (take L src) (JD_in buf n k) (jd_index d) = jd_on (take L src) (k (m, bs)) (jd_index d + m)" by blast
  have "jd_on (take L src) (k (m, bs)) (jd_index (d\<lparr>jd_index := jd_index d + m\<rparr>)) = (x, [], i)"
    using JD_in.prems(1) unfolding m(3) by simp
  from JD_in.IH [OF rangeI this] JD_in.prems(2,3) m(1,2) show ?case by simp
qed (auto split: prod.splits)

text \<open>
  A writer that paints: \<open>S W H pic a\<close> says that the memory of \<open>a\<close> shows the picture \<open>pic\<close>. A block inside the image is painted, and
  the call at the end of the output changes nothing.
\<close>

locale jpg_painter =
  fixes wr :: "rgb_jpg_decoder jpg_writer_cb" and S :: "nat \<Rightarrow> nat \<Rightarrow> (nat \<Rightarrow> nat \<Rightarrow> u8 \<times> u8 \<times> u8) \<Rightarrow> rgb_jpg_decoder \<Rightarrow> bool"
    and src :: "u8 list" and L :: nat
  assumes input: "S W H pic a \<Longrightarrow> reads_from src L a"
    and blocks: "S W H pic a \<Longrightarrow> rect_ok W H r bs \<Longrightarrow> rect_args r = (x, y, w, h) \<Longrightarrow>
      \<exists>a'. wr x y w h (Some bs) a = Some (True, a') \<and> S W H (paint_rect r bs pic) a'"
    and finish: "S (unat w) (unat h) pic a \<Longrightarrow> \<exists>b a'. wr w h w h None a = Some (b, a') \<and> S (unat w) (unat h) pic a'"
begin

lemma run_paints:
  assumes "jd_on (take L src) t (jd_index d) = (x, ds, i)" and "\<forall>(r, bs) \<in> set ds. rect_ok W H r bs"
    and "S W H pic (jd_arg d)" and "jd_len d = L" and "jd_index d \<le> L"
  shows "\<exists>a. run_jd jpg_read wr t d = Some (x, d\<lparr>jd_arg := a, jd_index := i\<rparr>) \<and> S W H (paint ds pic) a \<and> i \<le> L"
  using assms
proof (induction t arbitrary: d ds pic)
  case (JD_in buf n k)
  from read_step [OF input [OF JD_in.prems(3)] JD_in.prems(4,5), of buf n] obtain m bs where
    m: "jd_read jpg_read buf n d = Some ((m, bs), d\<lparr>jd_index := jd_index d + m\<rparr>)" "jd_index d + m \<le> L"
      "jd_on (take L src) (JD_in buf n k) (jd_index d) = jd_on (take L src) (k (m, bs)) (jd_index d + m)" by blast
  have "jd_on (take L src) (k (m, bs)) (jd_index (d\<lparr>jd_index := jd_index d + m\<rparr>)) = (x, ds, i)"
    using JD_in.prems(1) unfolding m(3) by simp
  from JD_in.IH [OF rangeI this JD_in.prems(2), of pic] JD_in.prems(3,4) m(1,2) show ?case by auto
next
  case (JD_out r bs k)
  obtain es where es: "jd_on (take L src) (k 1) (jd_index d) = (x, es, i)" "ds = (r, bs) # es" using JD_out.prems(1) by (auto split: prod.splits)
  obtain p q w h where ra: "rect_args r = (p, q, w, h)" by (cases "rect_args r")
  have ok: "rect_ok W H r bs" "\<forall>(r, bs) \<in> set es. rect_ok W H r bs" using JD_out.prems(2) es(2) by simp_all
  from blocks [OF JD_out.prems(3) ok(1) ra] obtain a where
    a: "wr p q w h (Some bs) (jd_arg d) = Some (True, a)" "S W H (paint_rect r bs pic) a" by blast
  have w: "jd_write wr r bs d = Some (1, d\<lparr>jd_arg := a\<rparr>)" using a(1) ra by (auto simp: jd_write_def rect_args_def)
  have "jd_on (take L src) (k 1) (jd_index (d\<lparr>jd_arg := a\<rparr>)) = (x, es, i)" using es(1) by simp
  from JD_out.IH [OF rangeI this ok(2), of "paint_rect r bs pic"] a(2) JD_out.prems(4,5) w es(2) show ?case by auto
next
  case (JD_ret y)
  then show ?case by (intro exI [of _ "jd_arg d"]) simp
qed

lemma decode_draws:
  assumes fits: "decoder_fits rom scale (take L src)" and inp: "reads_from src L jpeg"
    and start: "\<And>w h. jpg_size rom scale (take L src) = Some (unat w, unat h) \<Longrightarrow>
      \<exists>b a1. wr 0 0 w h None jpeg = Some (b, a1) \<and> S (unat w) (unat h) (pic0 (unat w) (unat h)) a1"
  shows "case jpg_picture rom scale (take L src) of
      None \<Rightarrow> \<exists>a. esp_jpg_decode rom L scale jpg_read wr jpeg = Some (ESP_FAIL, a)
    | Some (W, H, ds) \<Rightarrow> \<exists>a. esp_jpg_decode rom L scale jpg_read wr jpeg = Some (ESP_OK, a) \<and> S W H (paint ds (pic0 W H)) a"
proof -
  let ?k = "jpg_scale_index scale" and ?src = "take L src"
  let ?d = "\<lparr>jd_arg = jpeg, jd_len = L, jd_index = 0\<rparr>"
  obtain jres w h j i where p: "jd_on ?src (jd_prepare rom) (jd_index ?d) = ((jres, w, h, j), [], i)"
    using fits by (cases "jd_on ?src (jd_prepare rom) 0") (auto simp: decoder_fits_def)
  have q: "run_jd jpg_read wr (jd_prepare rom) ?d = Some ((jres, w, h, j), ?d\<lparr>jd_index := i\<rparr>)" "i \<le> L"
    using run_quiet [OF p] inp by simp_all
  show ?thesis
  proof (cases "jres = 0")
    case False
    with p q show ?thesis by (simp add: esp_jpg_decode_def jpg_picture_def jpg_size_def)
  next
    case True
    define ow oh where o: "ow = drop_bit ?k w" "oh = drop_bit ?k h"
    have u: "unat ow = unat w div 2 ^ ?k" "unat oh = unat h div 2 ^ ?k" unfolding o unat_drop_bit_eq by (simp_all add: drop_bit_eq_div)
    have sz: "jpg_size rom scale ?src = Some (unat ow, unat oh)" using p True by (simp add: jpg_size_def u)
    from start [OF sz] obtain b a1 where s: "wr 0 0 ow oh None jpeg = Some (b, a1)" "S (unat ow) (unat oh) (pic0 (unat ow) (unat oh)) a1" by blast
    obtain jres2 ds i2 where r: "jd_on ?src (jd_decomp rom j ?k) i = (jres2, ds, i2)" by (metis prod.exhaust)
    have bl: "jpg_blocks rom scale ?src = (jres2, ds)" using p r by (simp add: jpg_blocks_def)
    then have ok: "\<forall>(r, bs) \<in> set ds. rect_ok (unat ow) (unat oh) r bs" using fits sz by (simp add: decoder_fits_def)
    let ?e = "?d\<lparr>jd_index := i, jd_arg := a1\<rparr>"
    from run_paints [of "jd_decomp rom j ?k" ?e jres2 ds i2, OF _ ok] r s(2) q(2) obtain a2 where
      a2: "run_jd jpg_read wr (jd_decomp rom j ?k) ?e = Some (jres2, ?e\<lparr>jd_arg := a2, jd_index := i2\<rparr>)"
        "S (unat ow) (unat oh) (paint ds (pic0 (unat ow) (unat oh))) a2" "i2 \<le> L" by auto
    from finish [OF a2(2)] obtain b3 a3 where f: "wr ow oh ow oh None a2 = Some (b3, a3)"
      "S (unat ow) (unat oh) (paint ds (pic0 (unat ow) (unat oh))) a3" by blast
    let ?f = "?e\<lparr>jd_arg := a3, jd_index := i2\<rparr>"
    obtain x g where x: "jd_read jpg_read False (L - i2) ?f = Some (x, g)" "jd_arg g = a3"
      using read_on [of src L ?f False "L - i2"] input [OF f(2)] a2(3) by (auto simp: Let_def)
    have dec: "esp_jpg_decode rom L scale jpg_read wr jpeg = Some (if jres2 = 0 then ESP_OK else ESP_FAIL, a3)"
      using q(1) True s(1) a2(1) f(1) x by (auto simp: esp_jpg_decode_def o [symmetric] Let_def)
    have pic: "jpg_picture rom scale ?src = (if jres2 = 0 then Some (unat ow, unat oh, ds) else None)" using sz bl by (simp add: jpg_picture_def)
    show ?thesis unfolding dec pic using f(2) by auto
  qed
qed

end

text \<open>The memory of the client, of \<open>N\<close> bytes for the size of the image, shows a picture from byte \<open>off\<close> on.\<close>

definition shows_picture :: "u8 list \<Rightarrow> nat \<Rightarrow> nat \<Rightarrow> (nat \<Rightarrow> nat \<Rightarrow> nat) \<Rightarrow> nat \<Rightarrow> nat \<Rightarrow> (nat \<Rightarrow> nat \<Rightarrow> u8 \<times> u8 \<times> u8) \<Rightarrow> rgb_jpg_decoder \<Rightarrow> bool" where
  "shows_picture src L off N W H pic jpeg \<longleftrightarrow> reads_from src L jpeg \<and> 3 * (W * H) < 2 ^ 32 \<and>
     unat (rj_data_offset jpeg) = off \<and> unat (rj_width jpeg) = W \<and> unat (rj_height jpeg) = H \<and>
     (\<exists>out. rj_output jpeg = Some out \<and> length out = N W H \<and> off + 3 * (W * H) \<le> length out \<and>
       (\<forall>X Y. X < W \<and> Y < H \<longrightarrow> pixel_at out off W X Y = pic X Y))"

lemma block_painted:
  assumes "shows_picture src L off N W H pic jpeg" and "rect_ok W H r bs" and "rect_args r = (x, y, w, h)"
  shows "\<exists>a. rgb_write mal x y w h (Some bs) jpeg = Some (True, a) \<and> shows_picture src L off N W H (paint_rect r bs pic) a"
proof -
  from assms(1) obtain out where s: "unat (rj_data_offset jpeg) = off" "unat (rj_width jpeg) = W" "unat (rj_height jpeg) = H"
    "3 * (W * H) < 2 ^ 32" "rj_output jpeg = Some out" "off + 3 * (W * H) \<le> length out" "length out = N W H"
    "\<forall>X Y. X < W \<and> Y < H \<longrightarrow> pixel_at out off W X Y = pic X Y" unfolding shows_picture_def by blast
  have "W < 2 ^ 16" "H < 2 ^ 16" using s(2,3) unsigned_less [of "rj_width jpeg", where 'a = nat] unsigned_less [of "rj_height jpeg", where 'a = nat]
    by simp_all
  note sp = rect_span [OF assms(2,3) this]
  from rgb_write_block [OF s(5), unfolded s(1-3), OF s(6,4) sp(1-5), of mal] obtain out' where
    o: "rgb_write mal x y w h (Some bs) jpeg = Some (True, jpeg\<lparr>rj_output := Some out'\<rparr>)" "length out' = length out"
    "\<forall>X Y. X < W \<and> Y < H \<longrightarrow> pixel_at out' off W X Y =
       (if unat y \<le> Y \<and> Y < unat y + unat h \<and> unat x \<le> X \<and> X < unat x + unat w
        then block_pixel bs 0 ((Y - unat y) * unat w + (X - unat x)) else pixel_at out off W X Y)" by blast
  have "\<forall>X Y. X < W \<and> Y < H \<longrightarrow> pixel_at out' off W X Y = paint_rect r bs pic X Y"
    using o(3) s(8) by (simp add: sp(8) [symmetric])
  then show ?thesis using o s(6-8) assms(1) by (simp add: shows_picture_def reads_from_def)
qed

interpretation rgb888: jpg_painter "rgb_write mal" "shows_picture src L off N" src L for mal src L off N
proof
  fix w h :: u16 and pic a assume "shows_picture src L off N (unat w) (unat h) pic a"
  then show "\<exists>b a'. rgb_write mal w h w h None a = Some (b, a') \<and> shows_picture src L off N (unat w) (unat h) pic a'"
    by (cases "w = 0 \<and> h = 0") (auto simp: rgb_write_def rgb_start_def shows_picture_def reads_from_def Let_def)
qed (simp add: shows_picture_def, rule block_painted)


subsection \<open>The converters\<close>

lemma resolution_rows:
  "f \<noteq> FRAMESIZE_INVALID \<Longrightarrow> 4 dvd unat (ri_width (resolution_at f)) \<and>
     unat (ri_width (resolution_at f)) * unat (ri_height (resolution_at f)) * 3 + 1078 < 2 ^ 31"
  by (cases f) (simp_all add: unsigned_numeral)

subsection \<open>A concrete decoder\<close>

text \<open>It reads four bytes and draws one block of four by two pixels of one colour.\<close>

definition demo_rom :: "unit tjpgd" where
  "demo_rom =
     \<lparr>jd_prepare = JD_in True 4 (\<lambda>_. JD_ret (0, 4, 2, ())),
      jd_decomp = (\<lambda>_ _. JD_out \<lparr>jr_left = 0, jr_right = 3, jr_top = 0, jr_bottom = 1\<rparr> (replicate 24 0xAB) (\<lambda>_. JD_ret 0))\<rparr>"

definition demo_mal :: "nat \<Rightarrow> u8 list option" where
  "demo_mal n = Some (replicate n 0)"

lemma demo_mal_ok: "\<exists>m. demo_mal n = Some m \<and> length m = n"
  by (simp add: demo_mal_def)

lemma demo_rect_ok: "rect_ok 4 2 \<lparr>jr_left = 0, jr_right = 3, jr_top = 0, jr_bottom = 1\<rparr> (replicate 24 c)"
  by (simp add: rect_ok_def unsigned_numeral)

text \<open>A decoder that takes the size of the image from two bytes of its header and its colour from the next.\<close>

definition header_rom :: "(u16 \<times> u16) tjpgd" where
  "header_rom =
     \<lparr>jd_prepare = JD_in True 2 (\<lambda>(n, bs). case bs of
        [w, h] \<Rightarrow> JD_ret (0, ucast w, ucast h, ucast w, ucast h) | _ \<Rightarrow> JD_ret (1, 0, 0, 0, 0)),
      jd_decomp = (\<lambda>(w, h) k. JD_in True 1 (\<lambda>(n, bs). case bs of
        [c] \<Rightarrow> JD_out \<lparr>jr_left = 0, jr_right = drop_bit k w - 1, jr_top = 0, jr_bottom = drop_bit k h - 1\<rparr>
                 (replicate (3 * unat w * unat h) c) (\<lambda>a. JD_ret (if a = 1 then 0 else 1))
      | _ \<Rightarrow> JD_ret 2))\<rparr>"

lemma header_runs:
  "jpg_size header_rom JPG_SCALE_NONE [4, 2, 0xAB, 9] = Some (4, 2)"
  "jpg_blocks header_rom JPG_SCALE_NONE [4, 2, 0xAB, 9] =
     (0, [(\<lparr>jr_left = 0, jr_right = 3, jr_top = 0, jr_bottom = 1\<rparr>, replicate 24 0xAB)])"
  by (simp_all add: jpg_size_def jpg_blocks_def header_rom_def Let_def unsigned_numeral)

lemma header_fits: "decoder_fits header_rom JPG_SCALE_NONE [4, 2, 0xAB, 9]"
  unfolding decoder_fits_def header_runs using demo_rect_ok [of "0xAB"]
  by (simp add: header_rom_def Let_def)

lemma header_picture:
  "jpg_picture header_rom JPG_SCALE_NONE [4, 2, 0xAB, 9] =
     Some (4, 2, [(\<lparr>jr_left = 0, jr_right = 3, jr_top = 0, jr_bottom = 1\<rparr>, replicate 24 0xAB)])"
  "paint [(\<lparr>jr_left = 0, jr_right = 3, jr_top = 0, jr_bottom = 1\<rparr>, replicate 24 0xAB)] pic 3 1 = (0xAB, 0xAB, 0xAB)"
  by (simp_all add: jpg_picture_def header_runs paint_rect_def block_pixel_def)

text \<open>
  C14. A raw frame of any camera resolution becomes a BMP file with the same picture: \<open>frame2bmp\<close> returns false without an output
  when the memory for the file cannot be allocated; otherwise it returns true and a file whose length is the one it reports and the
  one in its header, and a reader of the file format finds, at every column and row, the colour the frame has there in
  its own format (RGB888, RGB565, grey or YUV422).
\<close>

theorem frame2bmp_image:
  assumes "f \<noteq> FRAMESIZE_INVALID" and "fb_width b = unat (ri_width (resolution_at f))"
    and "fb_height b = unat (ri_height (resolution_at f))" and "src_bytes (fb_format b) = Some k"
    and "k * (fb_width b * fb_height b) \<le> length (fb_mem b)" and "\<And>n m. mal n = Some m \<Longrightarrow> length m = n"
  shows "if mal (bmp_size (fb_format b) (fb_width b * fb_height b)) = None
    then frame2bmp mal rom b o0 n0 = Some (False, None, 0)
    else \<exists>out. frame2bmp mal rom b o0 n0 = Some (True, Some out, length out) \<and> rd32 out 2 = of_nat (length out) \<and>
      (\<forall>x y. x < fb_width b \<and> y < fb_height b \<longrightarrow>
         bmp_pixel out x y = Some (src_colour (fb_format b) (fb_mem b) (y * fb_width b + x)))"
proof -
  have eq: "frame2bmp mal rom b o0 n0 = fmt2bmp_raw mal (fb_mem b) (of_nat (fb_width b)) (of_nat (fb_height b)) (fb_format b)"
    using assms(4) by (auto simp: frame2bmp_def fmt2bmp_def)
  have u: "unat (of_nat (fb_width b) :: u16) = fb_width b" "unat (of_nat (fb_height b) :: u16) = fb_height b"
    using assms(2,3) by simp_all
  have r: "4 dvd fb_width b" "fb_width b * fb_height b * 3 + 1078 < 2 ^ 31" using resolution_rows [OF assms(1)] assms(2,3) by simp_all
  show ?thesis
  proof (cases "mal (bmp_size (fb_format b) (fb_width b * fb_height b))")
    case None
    then show ?thesis unfolding eq using r fmt2bmp_raw_no_memory [where width = "of_nat (fb_width b)" and height = "of_nat (fb_height b)", unfolded u]
      by simp
  next
    case (Some m)
    from fmt2bmp_raw_image [OF assms(4), where mal = mal and src = "fb_mem b" and width = "of_nat (fb_width b)" and height = "of_nat (fb_height b)", unfolded u,
        OF assms(5) r Some assms(6) [OF Some]] Some
    show ?thesis unfolding eq by simp
  qed
qed

theorem frame2bmp_image_witness:
  "\<exists>out. frame2bmp demo_mal demo_rom \<lparr>fb_buf = 4096, fb_mem = replicate 9216 0x37, fb_len = 9216, fb_width = 96, fb_height = 96,
       fb_format = PIXFORMAT_GRAYSCALE, fb_tv_sec = 0, fb_tv_usec = 0\<rparr> None 0 = Some (True, Some out, length out) \<and>
     bmp_pixel out 95 95 = Some (0x37, 0x37, 0x37)"
proof -
  let ?b = "\<lparr>fb_buf = 4096, fb_mem = replicate 9216 0x37, fb_len = 9216, fb_width = 96, fb_height = 96,
       fb_format = PIXFORMAT_GRAYSCALE, fb_tv_sec = 0, fb_tv_usec = 0\<rparr>"
  obtain out where o: "frame2bmp demo_mal demo_rom ?b None 0 = Some (True, Some out, length out)"
    "\<forall>x y. x < fb_width ?b \<and> y < fb_height ?b \<longrightarrow> bmp_pixel out x y = Some (src_colour (fb_format ?b) (fb_mem ?b) (y * fb_width ?b + x))"
    using frame2bmp_image [of FRAMESIZE_96X96 ?b 1 demo_mal demo_rom None 0] by (auto simp: unsigned_numeral demo_mal_def)
  from o(2) [rule_format, of 95 95] have "bmp_pixel out 95 95 = Some (0x37, 0x37, 0x37)" by (simp add: src_colour_def)
  with o(1) show ?thesis by blast
qed

text \<open>
  C33. \<open>fmt2rgb888\<close> converts every pixel of a raw image, blue, green, red in ascending addresses, to the colour that \<open>frame2bmp\<close>
  gives it, and leaves the rest of the output buffer alone.
\<close>

theorem fmt2rgb888_converts:
  assumes "src_bytes format = Some k" and "k * n \<le> length src" and "k * n < 2 ^ 31" and "3 * n \<le> length rgb"
    and "format = PIXFORMAT_YUV422 \<longrightarrow> even n"
  shows "\<exists>out. fmt2rgb888 mal rom src (k * n) format rgb = Some (True, out) \<and> drop (3 * n) out = drop (3 * n) rgb \<and>
    length out = length rgb \<and>
    (\<forall>i < n. (out ! (3 * i + 2), out ! (3 * i + 1), out ! (3 * i)) = src_colour format src i)"
proof -
  have "format \<noteq> PIXFORMAT_JPEG" using assms(1) by auto
  moreover have "fmt2rgb888_raw src (k * n) format rgb = Some (bgr_image format src n @ drop (3 * n) rgb)"
    using pixels_write(2) [OF assms(1,2) _ assms(5), of 0 rgb] assms(3,4) by simp
  moreover have "(bgr_image format src n ! (3 * i + 2), bgr_image format src n ! (3 * i + 1), bgr_image format src n ! (3 * i)) =
      src_colour format src i" if "i < n" for i
    using bgr_image_nth [OF that, of 0] bgr_image_nth [OF that, of 1] bgr_image_nth [OF that, of 2]
    by (simp add: bgr_def split: prod.splits)
  ultimately show ?thesis using assms(4) by (auto simp: fmt2rgb888_def nth_append)
qed

theorem fmt2rgb888_converts_witness:
  "\<exists>out. fmt2rgb888 demo_mal demo_rom [0xF8, 0x00, 0x07, 0xE0] 4 PIXFORMAT_RGB565 (replicate 7 9) = Some (True, out) \<and>
     (out ! 5, out ! 4, out ! 3) = (0, 0xFC, 0)"
proof -
  obtain out where o: "fmt2rgb888 demo_mal demo_rom [0xF8, 0x00, 0x07, 0xE0] 4 PIXFORMAT_RGB565 (replicate 7 9) = Some (True, out)"
    "\<forall>i < 2. (out ! (3 * i + 2), out ! (3 * i + 1), out ! (3 * i)) = src_colour PIXFORMAT_RGB565 [0xF8, 0x00, 0x07, 0xE0] i"
    using fmt2rgb888_converts [of PIXFORMAT_RGB565 2 2 "[0xF8, 0x00, 0x07, 0xE0]" "replicate 7 9" demo_mal demo_rom] by auto
  from o(2) [rule_format, of 1] o(1) show ?thesis by (simp add: src_colour_def word_cat_eq Let_def)
qed

lemma bmp_start:
  assumes "unat w * unat h * 3 + 54 < 2 ^ 31" and "0 < src_len" and "src_len \<le> length src" and "src_len < 2 ^ 32"
    and "mal (unat w * unat h * 3 + 54) = Some m" and "length m = unat w * unat h * 3 + 54"
  shows "\<exists>b a1. rgb_write mal 0 0 w h None
      \<lparr>rj_width = 0, rj_height = 0, rj_data_offset = of_nat BMP_HEADER_LEN, rj_input = src, rj_output = None\<rparr> = Some (b, a1) \<and>
    shows_picture src src_len 54 (\<lambda>w h. w * h * 3 + 54) (unat w) (unat h) (pixel_at m 54 (unat w)) a1"
  using assms by (auto simp: rgb_write_def rgb_start_def shows_picture_def reads_from_def BMP_HEADER_LEN_def)

text \<open>Writing the header in front of the pixels makes a file that shows the picture.\<close>

lemma bmp_of_picture:
  assumes "shows_picture src L 54 (\<lambda>w h. w * h * 3 + 54) W H pic a"
  shows "\<exists>f m. put_header (bitmap_header (W * H * 3 + 54) 54 (rj_width a) (rj_height a) 3 (W * H * 3)) m = Some f \<and>
    rj_output a = Some m \<and> unat (rj_width a) = W \<and> unat (rj_height a) = H \<and> length f = W * H * 3 + 54 \<and>
    rd32 f 2 = of_nat (length f) \<and> rd32 f 18 = of_nat W \<and> rd32 f 22 = - of_nat H \<and>
    (\<forall>x y. x < W \<and> y < H \<longrightarrow> pixel_at f 54 W x y = pic x y \<and> (4 dvd W \<longrightarrow> bmp_pixel f x y = Some (pic x y)))"
proof -
  let ?w = "rj_width a" and ?h = "rj_height a" and ?n = "W * H * 3"
  from assms obtain m where m: "unat ?w = W" "unat ?h = H" "rj_output a = Some m" "length m = ?n + 54"
    "\<forall>X Y. X < W \<and> Y < H \<longrightarrow> pixel_at m 54 W X Y = pic X Y" unfolding shows_picture_def by blast
  define f where f: "f = [0x42, 0x4D] @ header_bytes (bitmap_header (?n + 54) 54 ?w ?h 3 ?n) @ drop 54 m"
  have lf: "length f = ?n + 54" using m by (simp add: f)
  have run: "put_header (bitmap_header (?n + 54) 54 ?w ?h 3 ?n) m = Some f" unfolding f using m by (intro put_header_writes) simp
  have pix: "pixel_at f 54 W x y = pic x y" "4 dvd W \<Longrightarrow> bmp_pixel f x y = Some (pic x y)" if "x < W" "y < H" for x y
  proof -
    have p: "pixel_at f 54 W x y = pixel_at m 54 W x y"
      using pixel_index [OF that] m(4) by (simp add: pixel_at_def f nth_append)
    then show "pixel_at f 54 W x y = pic x y" using m(5) that by simp
    assume "4 dvd W"
    then have "bmp_pixel f x y = Some (pixel_at m 54 W x y)"
      using bmp_image_24 [OF f, of x y] that m pixel_index [OF that] by (simp add: pixel_at_def add.assoc)
    then show "bmp_pixel f x y = Some (pic x y)" using m(5) that by simp
  qed
  have "rd32 f 2 = of_nat (length f)" unfolding header_fields(7) [OF f] lf by (simp add: bitmap_header_def)
  moreover have "rd32 f 18 = of_nat W" "rd32 f 22 = - of_nat H"
    unfolding header_fields [OF f] m(1,2) [symmetric] by (simp_all add: bitmap_header_def)
  ultimately show ?thesis using run m(1-3) lf pix by blast
qed

text \<open>
  C13. The BMP file made from a JPEG image shows the picture the decoder draws. For a source whose rectangles lie within the announced
  image, an image of less than $2^{31}$ bytes with the header, and memory for it, \<open>jpg2bmp\<close> returns without touching memory outside the source and
  its own buffer. It fails exactly when the decoder cannot read the header or decode the image, and otherwise returns a
  file with the announced dimensions, whose length is the one reported and the one in its header. At every row and column the file has
  the colour that results from painting the delivered rectangles in order, corners included, over the fresh memory; a reader of the
  file format finds it there when the width is divisible by four (rows are not padded). C34 is the case without memory.
\<close>

theorem jpg2bmp_paints:
  assumes fits: "decoder_fits rom JPG_SCALE_NONE (take src_len src)"
    and L: "0 < src_len" "src_len \<le> length src" "src_len < 2 ^ 32"
    and mem: "\<And>W H. jpg_size rom JPG_SCALE_NONE (take src_len src) = Some (W, H) \<Longrightarrow>
      W * H * 3 + 54 < 2 ^ 31 \<and> mal (W * H * 3 + 54) = Some (m W H) \<and> length (m W H) = W * H * 3 + 54"
  shows "case jpg_picture rom JPG_SCALE_NONE (take src_len src) of
      None \<Rightarrow> jpg2bmp mal rom src src_len o0 n0 = Some (False, o0, n0)
    | Some (W, H, ds) \<Rightarrow> \<exists>out. jpg2bmp mal rom src src_len o0 n0 = Some (True, Some out, length out) \<and>
        length out = W * H * 3 + 54 \<and> rd32 out 2 = of_nat (length out) \<and> rd32 out 18 = of_nat W \<and> rd32 out 22 = - of_nat H \<and>
        (\<forall>x y. x < W \<and> y < H \<longrightarrow> pixel_at out 54 W x y = paint ds (pixel_at (m W H) 54 W) x y \<and>
           (4 dvd W \<longrightarrow> bmp_pixel out x y = Some (paint ds (pixel_at (m W H) 54 W) x y)))"
proof -
  let ?j = "\<lparr>rj_width = 0, rj_height = 0, rj_data_offset = of_nat BMP_HEADER_LEN, rj_input = src, rj_output = None\<rparr>"
  let ?N = "\<lambda>w h. w * h * 3 + 54"
  have inp: "reads_from src src_len ?j" using L by (simp add: reads_from_def)
  have start: "\<exists>b a1. rgb_write mal 0 0 w h None ?j = Some (b, a1) \<and>
      shows_picture src src_len 54 ?N (unat w) (unat h) (pixel_at (m (unat w) (unat h)) 54 (unat w)) a1"
    if "jpg_size rom JPG_SCALE_NONE (take src_len src) = Some (unat w, unat h)" for w h :: u16
    using mem [OF that] L by (intro bmp_start) simp_all
  note d = rgb888.decode_draws [OF fits inp, where mal = mal and off = 54 and N = ?N and ?pic0.0 = "\<lambda>W H. pixel_at (m W H) 54 W", OF start]
  show ?thesis
  proof (cases "jpg_picture rom JPG_SCALE_NONE (take src_len src)")
    case None
    with d show ?thesis by (auto simp: jpg2bmp_def)
  next
    case (Some p)
    obtain W H ds where p: "p = (W, H, ds)" by (metis prod.exhaust)
    from d [unfolded Some p] obtain a where a: "esp_jpg_decode rom src_len JPG_SCALE_NONE jpg_read (rgb_write mal) ?j = Some (ESP_OK, a)"
      "shows_picture src src_len 54 ?N W H (paint ds (pixel_at (m W H) 54 W)) a" by auto
    from bmp_of_picture [OF a(2)] obtain f out where f: "put_header (bitmap_header (?N W H) 54 (rj_width a) (rj_height a) 3 (W * H * 3)) out = Some f"
      "rj_output a = Some out" "unat (rj_width a) = W" "unat (rj_height a) = H" "length f = ?N W H"
      "rd32 f 2 = of_nat (length f)" "rd32 f 18 = of_nat W" "rd32 f 22 = - of_nat H"
      "\<forall>x y. x < W \<and> y < H \<longrightarrow> pixel_at f 54 W x y = paint ds (pixel_at (m W H) 54 W) x y \<and>
         (4 dvd W \<longrightarrow> bmp_pixel f x y = Some (paint ds (pixel_at (m W H) 54 W) x y))" by blast
    then have "jpg2bmp mal rom src src_len o0 n0 = Some (True, Some f, length f)"
      using a(1) by (simp add: jpg2bmp_def rj_mem_def BMP_HEADER_LEN_def Let_def)
    then show ?thesis unfolding Some p using f(5-9) by auto
  qed
qed

theorem jpg2bmp_paints_witness:
  "\<exists>out. jpg2bmp demo_mal header_rom [4, 2, 0xAB, 9] 4 None 0 = Some (True, Some out, length out) \<and>
     bmp_pixel out 3 1 = Some (0xAB, 0xAB, 0xAB)"
proof -
  let ?s = "[4, 2, 0xAB, 9] :: u8 list"
  have s: "take 4 ?s = ?s" by simp
  have "case jpg_picture header_rom JPG_SCALE_NONE (take 4 ?s) of
      None \<Rightarrow> jpg2bmp demo_mal header_rom ?s 4 None 0 = Some (False, None, 0)
    | Some (W, H, ds) \<Rightarrow> \<exists>out. jpg2bmp demo_mal header_rom ?s 4 None 0 = Some (True, Some out, length out) \<and>
        length out = W * H * 3 + 54 \<and> rd32 out 2 = of_nat (length out) \<and> rd32 out 18 = of_nat W \<and> rd32 out 22 = - of_nat H \<and>
        (\<forall>x y. x < W \<and> y < H \<longrightarrow> pixel_at out 54 W x y = paint ds (pixel_at (replicate (W * H * 3 + 54) 0) 54 W) x y \<and>
           (4 dvd W \<longrightarrow> bmp_pixel out x y = Some (paint ds (pixel_at (replicate (W * H * 3 + 54) 0) 54 W) x y)))"
    by (rule jpg2bmp_paints) (use header_fits header_runs(1) in \<open>auto simp: demo_mal_def\<close>)
  then show ?thesis unfolding s header_picture(1) using header_picture(2) by fastforce
qed

lemma rgb_row_null: "ixs \<noteq> [] \<Longrightarrow> rgb_row bs p q ixs [] = None"
  by (cases ixs) (auto simp: mem_write_def split: Option.bind_splits)

text \<open>
  C34. A failed allocation is not noticed: when there is no memory for the output of \<open>jpg2bmp\<close>, the start call of the writer
  returns false, \<open>esp_jpg_decode\<close> ignores that, and the first block the decoder delivers is written through a null pointer.
\<close>

theorem jpg2bmp_null_write:
  assumes "run_jd jpg_read (rgb_write mal) (jd_prepare rom)
      \<lparr>jd_arg = \<lparr>rj_width = 0, rj_height = 0, rj_data_offset = 54, rj_input = src, rj_output = None\<rparr>, jd_len = src_len, jd_index = 0\<rparr> =
      Some ((0, w, h, j), d)"
    and "rj_output (jd_arg d) = None" and "rj_data_offset (jd_arg d) = 54"
    and "unat w * unat h * 3 + 54 < 2 ^ 31" and "mal (unat w * unat h * 3 + 54) = None"
    and "jd_decomp rom j 0 = JD_out r bs k" and "rect_ok (unat w) (unat h) r bs"
  shows "jpg2bmp mal rom src src_len o0 n0 = None"
proof -
  let ?j = "(jd_arg d)\<lparr>rj_width := w, rj_height := h\<rparr>"
  obtain x y bw bh where ra: "rect_args r = (x, y, bw, bh)" by (cases "rect_args r")
  have "unat w < 2 ^ 16" "unat h < 2 ^ 16" using unsigned_less [of w, where 'a = nat] unsigned_less [of h, where 'a = nat] by simp_all
  note sp = rect_span [OF assms(7) ra this]
  have lim: "3 * (unat w * unat h) < 2 ^ 32" using assms(4) by simp
  note t = block_rows(2-4) [OF sp(2) lim] and w3 = row_width [OF sp(4)]
  have "steps3 (3 * unat bw) \<noteq> []" using sp(6) by (simp add: steps3_mult)
  moreover have "unat y * (unat w * 3) < (unat y + unat bh) * (unat w * 3)" using sp(3,7) by (intro mult_less_mono1) simp_all
  ultimately have "rgb_write mal x y bw bh (Some bs) ?j = None"
    using assms(2,3) by (simp add: rgb_write_def t w3 rj_mem_def Let_def) (subst rgb_rows.simps, simp add: rgb_row_null)
  then have "jd_write (rgb_write mal) r bs (d\<lparr>jd_arg := ?j\<rparr>) = None" using ra by (auto simp: jd_write_def rect_args_def Let_def)
  moreover have "rgb_write mal 0 0 w h None (jd_arg d) = Some (False, ?j)"
    using assms(2-5) by (simp add: rgb_write_def rgb_start_def Let_def)
  ultimately show ?thesis using assms(1,6) by (simp add: jpg2bmp_def esp_jpg_decode_def BMP_HEADER_LEN_def Let_def)
qed

theorem jpg2bmp_null_write_witness:
  "jpg2bmp (\<lambda>_. None) demo_rom (replicate 40 1) 40 None 0 = None"
proof -
  obtain d where d: "run_jd jpg_read (rgb_write (\<lambda>_. None)) (jd_prepare demo_rom)
      \<lparr>jd_arg = \<lparr>rj_width = 0, rj_height = 0, rj_data_offset = 54, rj_input = replicate 40 1, rj_output = None\<rparr>, jd_len = 40, jd_index = 0\<rparr> =
      Some ((0, 4, 2, ()), d)" "rj_output (jd_arg d) = None" "rj_data_offset (jd_arg d) = 54"
    by (simp add: demo_rom_def jd_read_def jpg_read_def mem_read_def sz_def Let_def)
  show ?thesis
    by (rule jpg2bmp_null_write [OF d, of "\<lparr>jr_left = 0, jr_right = 3, jr_top = 0, jr_bottom = 1\<rparr>" "replicate 24 0xAB"])
       (use demo_rect_ok [of "0xAB"] in \<open>simp_all add: demo_rom_def unsigned_numeral\<close>)
qed

end
