(* ===== verification/JpgRgb.thy ===== *)
theory JpgRgb
  imports Jpg
begin

text \<open>
  JPEG images decoded into a buffer of the caller (\<open>conversions/to_bmp.c\<close>): \<open>jpg2rgb888\<close>, with it \<open>fmt2rgb888\<close> on JPEG
  images, and \<open>jpg2rgb565\<close>, at every scale. Both are compared with the picture that \<open>paint\<close> of \<open>Jpg\<close> makes of the rectangles: the writer of 16-bit
  pixels is a second instance of the interface \<open>jpg_painter\<close>.
\<close>

subsection \<open>Rows of 16-bit pixels\<close>

text \<open>The number of a colour in 5, 6 and 5 bits, and the colour of a number.\<close>

definition colour565 :: "u8 \<times> u8 \<times> u8 \<Rightarrow> u16" where
  "colour565 = (\<lambda>(r, g, b). rgb565_word r g b)"

definition expand565 :: "u16 \<Rightarrow> u8 \<times> u8 \<times> u8" where
  "expand565 c = (push_bit 3 (ucast (drop_bit 11 c)), push_bit 2 (ucast (drop_bit 5 c AND 0x3F)), push_bit 3 (ucast (c AND 0x1F)))"

lemma le_bytes_cat: "word_cat (le_byte1 c) (le_byte0 c) = c"
  unfolding le_byte0_def le_byte1_def by (rule bit_word_eqI) (auto simp: bit_simps)

lemma colour565_expand: "colour565 (expand565 c) = c"
proof -
  have "le_byte0 (colour565 (expand565 c)) = le_byte0 c" "le_byte1 (colour565 (expand565 c)) = le_byte1 c"
    unfolding le_byte0_def le_byte1_def colour565_def expand565_def rgb565_word_def by (rule u8_bits_eqI; simp add: bit_simps)+
  then show ?thesis using le_bytes_cat [of "colour565 (expand565 c)"] le_bytes_cat [of c] by simp
qed

definition row565 :: "u8 list \<Rightarrow> nat \<Rightarrow> nat \<Rightarrow> u8 list" where
  "row565 bs p w = concat (map (\<lambda>i. [le_byte0 (colour565 (block_pixel bs p i)), le_byte1 (colour565 (block_pixel bs p i))]) [0..<w])"

lemma length_row565 [simp]: "length (row565 bs p w) = 2 * w"
  unfolding row565_def
  using length_concat_const [of "\<lambda>i. [le_byte0 (colour565 (block_pixel bs p i)), le_byte1 (colour565 (block_pixel bs p i))]" 2] by simp

lemma row565_nth:
  "i < w \<Longrightarrow> j < 2 \<Longrightarrow> row565 bs p w ! (2 * i + j) = [le_byte0 (colour565 (block_pixel bs p i)), le_byte1 (colour565 (block_pixel bs p i))] ! j"
  unfolding row565_def by (rule nth_concat_const) simp_all

lemma rgb565_row_shift: "rgb565_row bs p q (map (\<lambda>i. 3 * i) (map Suc xs)) out = rgb565_row bs (p + 3) (q + 2) (map (\<lambda>i. 3 * i) xs) out"
proof (induction xs arbitrary: out)
  case (Cons x xs)
  have "rgb565_row bs p q (map (\<lambda>i. 3 * i) (map Suc xs)) = rgb565_row bs (p + 3) (q + 2) (map (\<lambda>i. 3 * i) xs)"
    by (rule ext) (rule Cons.IH)
  then show ?case by (simp add: algebra_simps)
qed simp

lemma rgb565_row_writes:
  assumes "p + 3 * w \<le> length bs" and "q + 2 * w \<le> length out"
  shows "rgb565_row bs p q (steps3 (3 * w)) out = mem_write out q (row565 bs p w)"
  using assms unfolding steps3_mult
proof (induction w arbitrary: p q out)
  case (Suc w)
  let ?f = "\<lambda>i. [le_byte0 (colour565 (block_pixel bs p i)), le_byte1 (colour565 (block_pixel bs p i))]"
  have "rgb565_row bs p q (map (\<lambda>i. 3 * i) [0..<Suc w]) out =
      do { m1 \<leftarrow> mem_write out q (?f 0); rgb565_row bs (p + 3) (q + 2) (map (\<lambda>i. 3 * i) [0..<w]) m1 }"
    unfolding upt_Suc_shift list.map rgb565_row_shift rgb565_row.simps using Suc.prems rgb565_row_shift
    by (simp add: colour565_def block_pixel_def Let_def)
  moreover have "block_pixel bs (p + 3) i = block_pixel bs p (Suc i)" for i by (simp add: block_pixel_def algebra_simps)
  ultimately show ?case using Suc mem_write_chunks [of ?f 2 q w out] by (simp add: row565_def algebra_simps)
qed (simp add: row565_def)

lemma rgb565_rows_put:
  assumes "0 < W" and "x + w \<le> W" and "(y + h) * (W * 3) < 2 ^ 32" and "p + 3 * w * h \<le> length bs"
    and "2 * ((y + h) * W) \<le> length out"
  shows "rgb565_rows bs (W * 3) (W * 2) ((y + h) * (W * 3)) (x * 2) (3 * w) (y * (W * 3)) (y * (W * 2)) p out =
    put_rows (\<lambda>k. 0 + 2 * ((y + k) * W + x)) (\<lambda>k. row565 bs (p + 3 * w * k) w) h out"
  using assms(3-)
proof (induction h arbitrary: y p out)
  case 0
  then show ?case by (subst rgb565_rows.simps) auto
next
  case (Suc h)
  let ?q = "2 * (y * W + x)"
  have lt: "y * (W * 3) < (y + Suc h) * (W * 3)" using assms(1) by (intro mult_less_mono1) simp_all
  have "Suc y * (W * 3) \<le> (y + Suc h) * (W * 3)" by (intro mult_le_mono1) simp
  from le_less_trans [OF this Suc.prems(1)]
  have nxt: "sz (y * (W * 3) + W * 3) = Suc y * (W * 3)" "sz (y * (W * 2) + W * 2) = Suc y * (W * 2)"
    by (simp_all add: sz_def algebra_simps)
  have "y * W + x + w \<le> (y + Suc h) * W" using assms(2) by (simp add: algebra_simps)
  then have fit: "?q + 2 * w \<le> length out" using Suc.prems(3) by simp
  have pw: "p + 3 * w \<le> length bs" using Suc.prems(2) by (simp add: algebra_simps)
  obtain out1 where o1: "mem_write out ?q (row565 bs p w) = Some out1" using fit by (simp add: mem_write_def)
  have row: "rgb565_row bs p (x * 2 + y * (W * 2)) (steps3 (3 * w)) out = Some out1"
    using rgb565_row_writes [OF pw fit] o1 by (simp add: algebra_simps)
  have "(Suc y + h) * (W * 3) < 2 ^ 32" "p + 3 * w + 3 * w * h \<le> length bs" "2 * ((Suc y + h) * W) \<le> length out1"
    using Suc.prems mem_write_length [OF o1] by (simp_all add: algebra_simps)
  from Suc.IH [OF this] show ?case using lt row nxt o1 by (subst rgb565_rows.simps) (simp add: algebra_simps)
qed

text \<open>The pixel in column \<open>x\<close>, row \<open>y\<close> of an image \<open>W\<close> wide, low byte first.\<close>

definition word_at :: "u8 list \<Rightarrow> nat \<Rightarrow> nat \<Rightarrow> nat \<Rightarrow> u16" where
  "word_at m W x y = word_cat (m ! (2 * (y * W + x) + 1)) (m ! (2 * (y * W + x)))"

lemma rgb565_rows_spec:
  assumes "0 < W" and "x + w \<le> W" and "(y + h) * (W * 3) < 2 ^ 32" and "3 * w * h \<le> length bs"
    and "2 * ((y + h) * W) \<le> length out"
  shows "\<exists>out'. rgb565_rows bs (W * 3) (W * 2) ((y + h) * (W * 3)) (x * 2) (3 * w) (y * (W * 3)) (y * (W * 2)) 0 out = Some out' \<and>
    length out' = length out \<and>
    (\<forall>X Y. X < W \<and> 2 * (Y * W + X) + 2 \<le> length out \<longrightarrow>
       word_at out' W X Y = (if y \<le> Y \<and> Y < y + h \<and> x \<le> X \<and> X < x + w then colour565 (block_pixel bs 0 ((Y - y) * w + (X - x)))
                             else word_at out W X Y))"
proof -
  have b: "0 + 3 * w * h \<le> length bs" "0 + 2 * ((y + h) * W) \<le> length out" using assms(4,5) by simp_all
  note run = rgb565_rows_put [OF assms(1-3) b(1) assms(5)]
  from put_rows_cells [of x w W "\<lambda>k. row565 bs (0 + 3 * w * k) w" 2, OF assms(2) length_row565 b(2)] obtain out' where
    o: "put_rows (\<lambda>k. 0 + 2 * ((y + k) * W + x)) (\<lambda>k. row565 bs (0 + 3 * w * k) w) h out = Some out'" "length out' = length out"
    and n: "\<And>X Y j. X < W \<Longrightarrow> j < 2 \<Longrightarrow> 0 + 2 * (Y * W + X) + j < length out \<Longrightarrow> out' ! (0 + 2 * (Y * W + X) + j) =
       (if y \<le> Y \<and> Y < y + h \<and> x \<le> X \<and> X < x + w then row565 bs (0 + 3 * w * (Y - y)) w ! (2 * (X - x) + j) else out ! (0 + 2 * (Y * W + X) + j))"
    by blast
  have "word_at out' W X Y = (if y \<le> Y \<and> Y < y + h \<and> x \<le> X \<and> X < x + w then colour565 (block_pixel bs 0 ((Y - y) * w + (X - x)))
                              else word_at out W X Y)" if "X < W" "2 * (Y * W + X) + 2 \<le> length out" for X Y
  proof -
    have "block_pixel bs (3 * w * (Y - y)) (X - x) = block_pixel bs 0 ((Y - y) * w + (X - x))"
      by (simp add: block_pixel_def algebra_simps)
    then show ?thesis
      using n [OF that(1), of 0 Y] n [OF that(1), of 1 Y] that(2) row565_nth [of "X - x" w 0 bs] row565_nth [of "X - x" w 1 bs]
      by (auto simp: word_at_def le_bytes_cat)
  qed
  then show ?thesis using run o by auto
qed


subsection \<open>The writer of 16-bit pixels\<close>

definition shows_words :: "u8 list \<Rightarrow> nat \<Rightarrow> nat \<Rightarrow> nat \<Rightarrow> nat \<Rightarrow> (nat \<Rightarrow> nat \<Rightarrow> u8 \<times> u8 \<times> u8) \<Rightarrow> rgb_jpg_decoder \<Rightarrow> bool" where
  "shows_words src L n W H pic jpeg \<longleftrightarrow> reads_from src L jpeg \<and> 3 * (W * H) < 2 ^ 32 \<and>
     rj_data_offset jpeg = 0 \<and> unat (rj_width jpeg) = W \<and> unat (rj_height jpeg) = H \<and>
     (\<exists>out. rj_output jpeg = Some out \<and> length out = n \<and> 2 * (W * H) \<le> n \<and>
       (\<forall>X Y. X < W \<and> Y < H \<longrightarrow> word_at out W X Y = colour565 (pic X Y)))"

lemma words_painted:
  assumes "shows_words src L n W H pic jpeg" and "rect_ok W H r bs" and "rect_args r = (x, y, w, h)"
  shows "\<exists>a. rgb565_write mal x y w h (Some bs) jpeg = Some (True, a) \<and> shows_words src L n W H (paint_rect r bs pic) a"
proof -
  from assms(1) obtain out where s: "rj_data_offset jpeg = 0" "unat (rj_width jpeg) = W" "unat (rj_height jpeg) = H"
    "3 * (W * H) < 2 ^ 32" "rj_output jpeg = Some out" "2 * (W * H) \<le> length out" "length out = n"
    "\<forall>X Y. X < W \<and> Y < H \<longrightarrow> word_at out W X Y = colour565 (pic X Y)" unfolding shows_words_def by blast
  have "W < 2 ^ 16" "H < 2 ^ 16" using s(2,3) unsigned_less [of "rj_width jpeg", where 'a = nat] unsigned_less [of "rj_height jpeg", where 'a = nat]
    by simp_all
  note sp = rect_span [OF assms(2,3) this] and t = block_rows [OF rect_span(2) [OF assms(2,3) this] s(4)]
  have t2: "sz (unat y * (W * 2)) = unat y * (W * 2)" using t(1) by (simp add: sz_def algebra_simps)
  have "(unat y + unat h) * W \<le> H * W" using sp(2) by (rule mult_le_mono1)
  then have "2 * ((unat y + unat h) * W) \<le> length out" using s(6) by (simp add: algebra_simps)
  from rgb565_rows_spec [OF sp(3,1) t(1) sp(5) this] obtain out' where
    o: "rgb565_rows bs (W * 3) (W * 2) ((unat y + unat h) * (W * 3)) (unat x * 2) (3 * unat w) (unat y * (W * 3)) (unat y * (W * 2)) 0 out = Some out'"
      "length out' = length out"
      "\<forall>X Y. X < W \<and> 2 * (Y * W + X) + 2 \<le> length out \<longrightarrow> word_at out' W X Y =
        (if unat y \<le> Y \<and> Y < unat y + unat h \<and> unat x \<le> X \<and> X < unat x + unat w
         then colour565 (block_pixel bs 0 ((Y - unat y) * unat w + (X - unat x))) else word_at out W X Y)" by blast
  have w: "rgb565_write mal x y w h (Some bs) jpeg = Some (True, jpeg\<lparr>rj_output := Some out'\<rparr>)"
    using o(1) s(1,2,5) by (simp add: rgb565_write_def t(2-4) t2 row_width [OF sp(4)] rj_mem_def rj_put_def Let_def)
  have "2 * (Y * W + X) + 2 \<le> length out" if "X < W" "Y < H" for X Y using pixel_index [OF that] s(6) by simp
  with o(3) s(8) have "\<forall>X Y. X < W \<and> Y < H \<longrightarrow> word_at out' W X Y = colour565 (paint_rect r bs pic X Y)"
    by (simp add: sp(8) [symmetric])
  then show ?thesis using w o(2) s(6,7) assms(1) by (simp add: shows_words_def reads_from_def)
qed

interpretation rgb565: jpg_painter "rgb565_write mal" "shows_words src L n" src L for mal src L n
proof
  fix w h :: u16 and pic a assume "shows_words src L n (unat w) (unat h) pic a"
  then show "\<exists>b a'. rgb565_write mal w h w h None a = Some (b, a') \<and> shows_words src L n (unat w) (unat h) pic a'"
    by (cases "w = 0 \<and> h = 0") (auto simp: rgb565_write_def rgb_start_def shows_words_def reads_from_def Let_def)
qed (simp add: shows_words_def, rule words_painted)

subsection \<open>Decoding into a buffer of the caller\<close>

text \<open>
  C35. Decoding into 24-bit pixels, at every scale: for a source whose rectangles lie within the announced image and a buffer that holds this image
  (of less than $2^{32}$ bytes), \<open>jpg2rgb888\<close> returns without touching memory outside the source and the buffer. It fails exactly when the
  decoder cannot read the header or decode the image; otherwise the buffer has at every row and column, blue, green, red in ascending
  addresses, the colour that results from painting the delivered rectangles in order, corners included, over its old content.
\<close>

theorem jpg2rgb888_paints:
  assumes fits: "decoder_fits rom scale (take src_len src)"
    and L: "0 < src_len" "src_len \<le> length src" "src_len < 2 ^ 32"
    and room: "\<And>W H. jpg_size rom scale (take src_len src) = Some (W, H) \<Longrightarrow> 3 * (W * H) \<le> length rgb \<and> 3 * (W * H) < 2 ^ 32"
  shows "case jpg_picture rom scale (take src_len src) of
      None \<Rightarrow> \<exists>out. jpg2rgb888 mal rom src src_len rgb scale = Some (False, out)
    | Some (W, H, ds) \<Rightarrow> \<exists>out. jpg2rgb888 mal rom src src_len rgb scale = Some (True, out) \<and> length out = length rgb \<and>
        (\<forall>x y. x < W \<and> y < H \<longrightarrow> pixel_at out 0 W x y = paint ds (pixel_at rgb 0 W) x y)"
proof -
  let ?j = "\<lparr>rj_width = 0, rj_height = 0, rj_data_offset = 0, rj_input = src, rj_output = Some rgb\<rparr>"
  let ?N = "\<lambda>_ _ :: nat. length rgb"
  have inp: "reads_from src src_len ?j" using L by (simp add: reads_from_def)
  have start: "\<exists>b a1. rgb_write mal 0 0 w h None ?j = Some (b, a1) \<and>
      shows_picture src src_len 0 ?N (unat w) (unat h) (pixel_at rgb 0 (unat w)) a1"
    if "jpg_size rom scale (take src_len src) = Some (unat w, unat h)" for w h :: u16
    using room [OF that] L by (auto simp: rgb_write_def rgb_start_def shows_picture_def reads_from_def)
  from rgb888.decode_draws [OF fits inp, where mal = mal and off = 0 and N = ?N and ?pic0.0 = "\<lambda>W H. pixel_at rgb 0 W", OF start]
  show ?thesis by (auto simp: jpg2rgb888_def shows_picture_def rj_mem_def split: option.splits)
qed

theorem jpg2rgb888_paints_witness:
  "\<exists>out. jpg2rgb888 demo_mal header_rom [4, 2, 0xAB, 9] 4 (replicate 30 7) JPG_SCALE_NONE = Some (True, out) \<and> length out = 30 \<and>
     pixel_at out 0 4 3 1 = (0xAB, 0xAB, 0xAB)"
proof -
  let ?s = "[4, 2, 0xAB, 9] :: u8 list" and ?r = "replicate 30 7 :: u8 list"
  have s: "take 4 ?s = ?s" by simp
  have "case jpg_picture header_rom JPG_SCALE_NONE (take 4 ?s) of
      None \<Rightarrow> \<exists>out. jpg2rgb888 demo_mal header_rom ?s 4 ?r JPG_SCALE_NONE = Some (False, out)
    | Some (W, H, ds) \<Rightarrow> \<exists>out. jpg2rgb888 demo_mal header_rom ?s 4 ?r JPG_SCALE_NONE = Some (True, out) \<and> length out = length ?r \<and>
        (\<forall>x y. x < W \<and> y < H \<longrightarrow> pixel_at out 0 W x y = paint ds (pixel_at ?r 0 W) x y)"
    by (rule jpg2rgb888_paints) (use header_fits header_runs(1) in auto)
  then show ?thesis unfolding s header_picture(1) using header_picture(2) by fastforce
qed

text \<open>
  C36. Decoding into 16-bit pixels, at every scale: for a source whose rectangles lie within the announced image and a buffer of two bytes for each of
  its pixels (and less than $2^{32}$ bytes at three), \<open>jpg2rgb565\<close> returns without touching memory outside the source and the buffer. It fails exactly
  when the decoder cannot read the header or decode the image; otherwise every pixel of the buffer, low byte first, is the colour that results
  from painting the delivered rectangles in order, corners included, over its old content, reduced to 5, 6 and 5 bits.
\<close>

theorem jpg2rgb565_paints:
  assumes fits: "decoder_fits rom scale (take src_len src)"
    and L: "0 < src_len" "src_len \<le> length src" "src_len < 2 ^ 32"
    and room: "\<And>W H. jpg_size rom scale (take src_len src) = Some (W, H) \<Longrightarrow> 2 * (W * H) \<le> length rgb \<and> 3 * (W * H) < 2 ^ 32"
  shows "case jpg_picture rom scale (take src_len src) of
      None \<Rightarrow> \<exists>out. jpg2rgb565 mal rom src src_len rgb scale = Some (False, out)
    | Some (W, H, ds) \<Rightarrow> \<exists>out. jpg2rgb565 mal rom src src_len rgb scale = Some (True, out) \<and> length out = length rgb \<and>
        (\<forall>x y. x < W \<and> y < H \<longrightarrow>
           word_at out W x y = colour565 (paint ds (\<lambda>x y. expand565 (word_at rgb W x y)) x y))"
proof -
  let ?j = "\<lparr>rj_width = 0, rj_height = 0, rj_data_offset = 0, rj_input = src, rj_output = Some rgb\<rparr>"
  have inp: "reads_from src src_len ?j" using L by (simp add: reads_from_def)
  have start: "\<exists>b a1. rgb565_write mal 0 0 w h None ?j = Some (b, a1) \<and>
      shows_words src src_len (length rgb) (unat w) (unat h) (\<lambda>x y. expand565 (word_at rgb (unat w) x y)) a1"
    if "jpg_size rom scale (take src_len src) = Some (unat w, unat h)" for w h :: u16
    using room [OF that] L by (auto simp: rgb565_write_def rgb_start_def shows_words_def reads_from_def colour565_expand)
  from rgb565.decode_draws [OF fits inp, where mal = mal and n = "length rgb" and
      ?pic0.0 = "\<lambda>W H x y. expand565 (word_at rgb W x y)", OF start]
  show ?thesis by (auto simp: jpg2rgb565_def shows_words_def rj_mem_def split: option.splits)
qed

theorem jpg2rgb565_paints_witness:
  "\<exists>out. jpg2rgb565 demo_mal header_rom [4, 2, 0xAB, 9] 4 (replicate 16 7) JPG_SCALE_NONE = Some (True, out) \<and> length out = 16 \<and>
     word_at out 4 3 1 = 0xAD55"
proof -
  let ?s = "[4, 2, 0xAB, 9] :: u8 list" and ?r = "replicate 16 7 :: u8 list"
  have s: "take 4 ?s = ?s" by simp
  have "colour565 (0xAB, 0xAB, 0xAB) = 0xAD55" by (simp add: colour565_def rgb565_word_def)
  moreover have "case jpg_picture header_rom JPG_SCALE_NONE (take 4 ?s) of
      None \<Rightarrow> \<exists>out. jpg2rgb565 demo_mal header_rom ?s 4 ?r JPG_SCALE_NONE = Some (False, out)
    | Some (W, H, ds) \<Rightarrow> \<exists>out. jpg2rgb565 demo_mal header_rom ?s 4 ?r JPG_SCALE_NONE = Some (True, out) \<and> length out = length ?r \<and>
        (\<forall>x y. x < W \<and> y < H \<longrightarrow> word_at out W x y = colour565 (paint ds (\<lambda>x y. expand565 (word_at ?r W x y)) x y))"
    by (rule jpg2rgb565_paints) (use header_fits header_runs(1) in auto)
  ultimately show ?thesis unfolding s header_picture(1) using header_picture(2) by fastforce
qed

end
