(* ===== verification/SccbNg.thy ===== *)
theory SccbNg
  imports Sccb
begin

text \<open>
  The second variant of the SCCB driver, \<open>driver/sccb-ng.c\<close>, which the build selects instead of \<open>driver/sccb.c\<close> for
  the newer I2C driver of ESP-IDF. That driver works with handles of registered devices, while the sensor drivers name devices
  by their address: a table of devices translates.

  The I2C driver is the parameter \<open>i2c\<close> of type \<open>i2c_master\<close>, one function per call, on an opaque hardware state \<open>'d\<close>; \<open>'b\<close> and
  \<open>'h\<close> are the handles of buses and devices. Routines return \<open>None\<close> for an access outside the table and for the
  dereferencing of a null pointer. \<open>rx0\<close> is what an uninitialised receive buffer holds.

  The comparison with \<open>sccb.c\<close> is between two interfaces of the same device: \<open>ng_dev\<close> here and \<open>sccb_dev8\<close>, \<open>sccb_dev16\<close> there.
\<close>

subsection \<open>The I2C driver and the table of devices\<close>

record i2c_device_config_t =
  dc_device_address :: u16
  dc_scl_speed_hz :: int

record i2c_master_bus_config_t =
  bc_i2c_port :: int
  bc_scl_io_num :: int
  bc_sda_io_num :: int
  bc_glitch_ignore_cnt :: nat
  bc_enable_internal_pullup :: bool

record ('b, 'h, 'd) i2c_master =
  i2c_new_master_bus :: "i2c_master_bus_config_t \<Rightarrow> 'd \<Rightarrow> esp_err_t \<times> 'd"
  i2c_master_get_bus_handle :: "int \<Rightarrow> 'd \<Rightarrow> esp_err_t \<times> 'b"
  i2c_del_master_bus :: "'b \<Rightarrow> 'd \<Rightarrow> esp_err_t \<times> 'd"
  i2c_master_bus_add_device :: "'b \<Rightarrow> i2c_device_config_t \<Rightarrow> 'd \<Rightarrow> esp_err_t \<times> 'h \<times> 'd"
  i2c_master_bus_rm_device :: "'h option \<Rightarrow> 'd \<Rightarrow> esp_err_t \<times> 'd"
  i2c_master_probe :: "'b \<Rightarrow> u16 \<Rightarrow> 'd \<Rightarrow> esp_err_t \<times> 'd"
  i2c_master_transmit :: "'h option \<Rightarrow> u8 list \<Rightarrow> 'd \<Rightarrow> esp_err_t \<times> 'd"
  i2c_master_transmit_receive :: "'h option \<Rightarrow> u8 list \<Rightarrow> nat \<Rightarrow> 'd \<Rightarrow> esp_err_t \<times> u8 list \<times> 'd"

record 'h device_t =
  dev_handle :: "'h option"
  dv_address :: u16

definition MAX_DEVICES :: nat where
  "MAX_DEVICES = 255 - 1"

record ('h, 'd) ng_world =
  ng_devices :: "'h device_t list"
  ng_device_count :: u8
  ng_i2c_port :: int
  ng_owns_i2c_port :: bool
  ng_dev :: 'd

text \<open>The loop of \<open>get_handle_from_address\<close>: \<open>n\<close> rounds from entry \<open>i\<close>. The result is the entry whose handle is pointed to, or null.\<close>

fun ng_handle_loop :: "'h device_t list \<Rightarrow> u8 \<Rightarrow> nat \<Rightarrow> nat \<Rightarrow> nat option option" where
  "ng_handle_loop ds slv_addr i 0 = Some None"
| "ng_handle_loop ds slv_addr i (Suc n) =
     (if i < length ds then
        if ucast slv_addr = dv_address (ds ! i) then Some (Some i) else ng_handle_loop ds slv_addr (Suc i) n
      else None)"

definition get_handle_from_address :: "u8 \<Rightarrow> ('h, 'd) ng_world \<Rightarrow> nat option option" where
  "get_handle_from_address slv_addr g = ng_handle_loop (ng_devices g) slv_addr 0 (unat (ng_device_count g))"

text \<open>\<open>*(get_handle_from_address(slv_addr))\<close>\<close>

definition ng_handle :: "u8 \<Rightarrow> ('h, 'd) ng_world \<Rightarrow> 'h option option" where
  "ng_handle slv_addr g = do { p \<leftarrow> get_handle_from_address slv_addr g; i \<leftarrow> p; Some (dev_handle (ng_devices g ! i)) }"

definition SCCB_Install_Device :: "('b, 'h, 'd) i2c_master \<Rightarrow> u8 \<Rightarrow> ('h, 'd) ng_world \<Rightarrow> (int \<times> ('h, 'd) ng_world) option" where
  "SCCB_Install_Device i2c slv_addr g =
     (let k = unat (ng_device_count g) in
      if k > MAX_DEVICES then Some (ESP_FAIL, g)
      else case i2c_master_get_bus_handle i2c (ng_i2c_port g) (ng_dev g) of (e, bus) \<Rightarrow>
        if e \<noteq> ESP_OK then Some (e, g)
        else case i2c_master_bus_add_device i2c bus \<lparr>dc_device_address = ucast slv_addr, dc_scl_speed_hz = SCCB_FREQ\<rparr> (ng_dev g) of (e2, h, d) \<Rightarrow>
          if e2 \<noteq> ESP_OK then Some (- 1, g\<lparr>ng_dev := d\<rparr>)
          else if k < length (ng_devices g) then
            Some (0, g\<lparr>ng_devices := (ng_devices g)[k := \<lparr>dev_handle = Some h, dv_address = ucast slv_addr\<rparr>],
              ng_device_count := ng_device_count g + 1, ng_dev := d\<rparr>)
          else None)"

subsection \<open>Set-up and tear-down\<close>

definition ng_SCCB_Init :: "('b, 'h, 'd) i2c_master \<Rightarrow> int \<Rightarrow> int \<Rightarrow> ('h, 'd) ng_world \<Rightarrow> int \<times> ('h, 'd) ng_world" where
  "ng_SCCB_Init i2c pin_sda pin_scl g =
     (case i2c_new_master_bus i2c
        \<lparr>bc_i2c_port = SCCB_I2C_PORT_DEFAULT, bc_scl_io_num = pin_scl, bc_sda_io_num = pin_sda, bc_glitch_ignore_cnt = 7,
         bc_enable_internal_pullup = True\<rparr> (ng_dev g) of
      (e, d) \<Rightarrow> (e, g\<lparr>ng_i2c_port := SCCB_I2C_PORT_DEFAULT, ng_owns_i2c_port := True, ng_dev := d\<rparr>))"

text \<open>The loop of \<open>SCCB_Deinit\<close>: \<open>n\<close> rounds from entry \<open>i\<close>; the error of the first entry that cannot be removed.\<close>

fun ng_remove_loop :: "('b, 'h, 'd) i2c_master \<Rightarrow> nat \<Rightarrow> nat \<Rightarrow> ('h, 'd) ng_world \<Rightarrow> (int \<times> ('h, 'd) ng_world) option" where
  "ng_remove_loop i2c i 0 g = Some (ESP_OK, g)"
| "ng_remove_loop i2c i (Suc n) g =
     (if i < length (ng_devices g) then
        case i2c_master_bus_rm_device i2c (dev_handle (ng_devices g ! i)) (ng_dev g) of (e, d) \<Rightarrow>
          if e \<noteq> ESP_OK then Some (e, g\<lparr>ng_dev := d\<rparr>)
          else ng_remove_loop i2c (Suc i) n
            (g\<lparr>ng_devices := (ng_devices g)[i := \<lparr>dev_handle = None, dv_address = 0\<rparr>], ng_dev := d\<rparr>)
      else None)"

definition ng_SCCB_Deinit :: "('b, 'h, 'd) i2c_master \<Rightarrow> ('h, 'd) ng_world \<Rightarrow> (int \<times> ('h, 'd) ng_world) option" where
  "ng_SCCB_Deinit i2c g = do {
     (e, g1) \<leftarrow> ng_remove_loop i2c 0 (unat (ng_device_count g)) g;
     if e \<noteq> ESP_OK then Some (e, g1)
     else let g2 = g1\<lparr>ng_device_count := 0\<rparr> in
       if \<not> ng_owns_i2c_port g2 then Some (ESP_OK, g2)
       else let g3 = g2\<lparr>ng_owns_i2c_port := False\<rparr> in
         case i2c_master_get_bus_handle i2c (ng_i2c_port g3) (ng_dev g3) of (e2, bus) \<Rightarrow>
           if e2 \<noteq> ESP_OK then Some (e2, g3)
           else case i2c_del_master_bus i2c bus (ng_dev g3) of (e3, d) \<Rightarrow> Some (e3, g3\<lparr>ng_dev := d\<rparr>) }"

definition ng_SCCB_Use_Port :: "('b, 'h, 'd) i2c_master \<Rightarrow> int \<Rightarrow> ('h, 'd) ng_world \<Rightarrow> (int \<times> ('h, 'd) ng_world) option" where
  "ng_SCCB_Use_Port i2c i2c_num g = do {
     (_, g1) \<leftarrow> (if ng_owns_i2c_port g then ng_SCCB_Deinit i2c g else Some (0, g));
     if i2c_num < 0 \<or> i2c_num > I2C_NUM_MAX then Some (ESP_ERR_INVALID_ARG, g1)
     else Some (ESP_OK, g1\<lparr>ng_i2c_port := i2c_num\<rparr>) }"

fun ng_probe_loop :: "('b, 'h, 'd) i2c_master \<Rightarrow> 'b \<Rightarrow> camera_sensor_info_t list \<Rightarrow> u8 \<Rightarrow> ('h, 'd) ng_world \<Rightarrow> (u8 \<times> ('h, 'd) ng_world) option" where
  "ng_probe_loop i2c bus [] slave_addr g = Some (0, g)"
| "ng_probe_loop i2c bus (row # rows) slave_addr g =
     (if slave_addr = ci_sccb_addr row then ng_probe_loop i2c bus rows slave_addr g
      else case i2c_master_probe i2c bus (ucast (ci_sccb_addr row)) (ng_dev g) of (e, d) \<Rightarrow>
        if e = ESP_OK then do {
          (r, g1) \<leftarrow> SCCB_Install_Device i2c (ci_sccb_addr row) (g\<lparr>ng_dev := d\<rparr>);
          Some (if r \<noteq> 0 then 0 else ci_sccb_addr row, g1) }
        else ng_probe_loop i2c bus rows (ci_sccb_addr row) (g\<lparr>ng_dev := d\<rparr>))"

text \<open>When there is no bus, the error code is returned, cut to the eight bits of the result.\<close>

definition ng_SCCB_Probe :: "('b, 'h, 'd) i2c_master \<Rightarrow> ('h, 'd) ng_world \<Rightarrow> (u8 \<times> ('h, 'd) ng_world) option" where
  "ng_SCCB_Probe i2c g =
     (case i2c_master_get_bus_handle i2c (ng_i2c_port g) (ng_dev g) of (e, bus) \<Rightarrow>
       if e \<noteq> ESP_OK then Some (of_int e, g) else ng_probe_loop i2c bus camera_sensor 0 g)"

subsection \<open>Transfers\<close>


text \<open>A receive buffer of \<open>n\<close> bytes keeps what it held where nothing was received.\<close>

definition ng_receive :: "(nat \<Rightarrow> u8) \<Rightarrow> ('b, 'h, 'd) i2c_master \<Rightarrow> u8 \<Rightarrow> u8 list \<Rightarrow> nat \<Rightarrow> ('h, 'd) ng_world \<Rightarrow> (u8 list \<times> ('h, 'd) ng_world) option" where
  "ng_receive rx0 i2c slv_addr tx n g = do {
     h \<leftarrow> ng_handle slv_addr g;
     case i2c_master_transmit_receive i2c h tx n (ng_dev g) of (_, bytes, d) \<Rightarrow>
       Some (map (\<lambda>k. read_into (rx0 k) bytes k) [0..<n], g\<lparr>ng_dev := d\<rparr>) }"

definition ng_SCCB_Read :: "(nat \<Rightarrow> u8) \<Rightarrow> ('b, 'h, 'd) i2c_master \<Rightarrow> u8 \<Rightarrow> u8 \<Rightarrow> ('h, 'd) ng_world \<Rightarrow> (u8 \<times> ('h, 'd) ng_world) option" where
  "ng_SCCB_Read rx0 i2c slv_addr reg g = do { (rx, g1) \<leftarrow> ng_receive rx0 i2c slv_addr [reg] 1 g; Some (rx ! 0, g1) }"







subsection \<open>The same device behind both drivers\<close>




text \<open>The transactions on the wire: writing some bytes, and reading \<open>n\<close> bytes, the last one not acknowledged.\<close>

definition wire_write :: "u8 \<Rightarrow> u8 list \<Rightarrow> i2c_cmd list" where
  "wire_write slv tx = [I2C_start, I2C_write_byte (addr_write slv) True] @ map (\<lambda>b. I2C_write_byte b True) tx @ [I2C_stop]"

definition wire_read :: "u8 \<Rightarrow> nat \<Rightarrow> i2c_cmd list" where
  "wire_read slv n = [I2C_start, I2C_write_byte (addr_read slv) True] @ replicate (n - 1) (I2C_read_byte False) @ [I2C_read_byte True, I2C_stop]"

text \<open>A combined transfer has no STOP between the two: the read begins with a repeated START.\<close>

definition wire_combined :: "u8 \<Rightarrow> u8 list \<Rightarrow> nat \<Rightarrow> i2c_cmd list" where
  "wire_combined slv tx n = [I2C_start, I2C_write_byte (addr_write slv) True] @ map (\<lambda>b. I2C_write_byte b True) tx @ wire_read slv n"





text \<open>
  A sensor on the wire, command by command: it knows its two addresses, takes two bytes as the register to select, writes the
  following ones to consecutive registers, and reads from the selected one on. A byte it does not acknowledge ends the
  transfer with an error.
\<close>

datatype wire_state = W_idle | W_addr | W_select "u8 option" | W_data | W_read

fun wire_run :: "u8 \<Rightarrow> i2c_cmd list \<Rightarrow> wire_state \<Rightarrow> u16 reg_dev \<Rightarrow> esp_err_t \<times> u8 list \<times> u16 reg_dev" where
  "wire_run slv [] m d = (ESP_OK, [], d)"
| "wire_run slv (I2C_start # cs) m d = wire_run slv cs W_addr d"
| "wire_run slv (I2C_stop # cs) m d = wire_run slv cs W_idle d"
| "wire_run slv (I2C_write_byte b ack # cs) m d = (case m of
     W_addr \<Rightarrow> if b = addr_write slv then wire_run slv cs (W_select None) d
              else if b = addr_read slv then wire_run slv cs W_read d else (ESP_FAIL, [], d)
   | W_select None \<Rightarrow> wire_run slv cs (W_select (Some b)) d
   | W_select (Some hi) \<Rightarrow> wire_run slv cs W_data (d\<lparr>rd_sel := push_bit 8 (ucast hi) OR ucast b\<rparr>)
   | W_data \<Rightarrow> wire_run slv cs W_data (d\<lparr>rd_regs := (rd_regs d)(rd_sel d := b), rd_sel := rd_sel d + 1\<rparr>)
   | _ \<Rightarrow> (ESP_FAIL, [], d))"
| "wire_run slv (I2C_read_byte nack # cs) m d =
     (if m = W_read then (case wire_run slv cs W_read (d\<lparr>rd_sel := rd_sel d + 1\<rparr>) of (e, bs, d') \<Rightarrow> (e, rd_regs d (rd_sel d) # bs, d'))
      else (ESP_FAIL, [], d))"

definition wire_hw :: "u8 \<Rightarrow> u16 reg_dev hw" where
  "wire_hw slv = (sim_hw (\<lambda>_ _ d. (ESP_FAIL, [], d)))\<lparr>i2c_master_cmd_begin := (\<lambda>_ cs d. wire_run slv cs W_idle d)\<rparr>"

text \<open>An I2C driver of the new kind for it.\<close>

definition ng_of_hw :: "'d hw \<Rightarrow> int \<Rightarrow> u8 \<Rightarrow> (unit, unit, 'd) i2c_master" where
  "ng_of_hw hw port slv = \<lparr>
     i2c_new_master_bus = (\<lambda>_ d. (ESP_OK, d)), i2c_master_get_bus_handle = (\<lambda>_ _. (ESP_OK, ())), i2c_del_master_bus = (\<lambda>_ d. (ESP_OK, d)),
     i2c_master_bus_add_device = (\<lambda>_ _ d. (ESP_OK, (), d)), i2c_master_bus_rm_device = (\<lambda>_ d. (ESP_OK, d)),
     i2c_master_probe = (\<lambda>_ a d. case i2c_master_cmd_begin hw port (wire_write (ucast a) []) d of (e, _, d') \<Rightarrow> (e, d')),
     i2c_master_transmit = (\<lambda>_ tx d. case i2c_master_cmd_begin hw port (wire_write slv tx) d of (e, _, d') \<Rightarrow> (e, d')),
     i2c_master_transmit_receive = (\<lambda>_ tx n. i2c_master_cmd_begin hw port (wire_combined slv tx n))\<rparr>"



subsection \<open>The table of devices\<close>

definition ng_ok :: "('h, 'd) ng_world \<Rightarrow> bool" where
  "ng_ok g \<longleftrightarrow> length (ng_devices g) = MAX_DEVICES \<and> unat (ng_device_count g) \<le> MAX_DEVICES \<and>
     (\<forall>i < unat (ng_device_count g). dev_handle (ng_devices g ! i) \<noteq> None)"

lemma handle_loop_find:
  "i + n \<le> length ds \<Longrightarrow> ng_handle_loop ds a i n = Some (find (\<lambda>k. ucast a = dv_address (ds ! k)) [i..<i + n])"
proof (induction n arbitrary: i)
  case (Suc n)
  then show ?case using Suc.IH [of "Suc i"] by (simp add: upt_conv_Cons del: upt_Suc)
qed simp

lemma ng_handle_find:
  "ng_ok g \<Longrightarrow> ng_handle a g = (case find (\<lambda>k. ucast a = dv_address (ng_devices g ! k)) [0..<unat (ng_device_count g)] of
     None \<Rightarrow> None | Some i \<Rightarrow> Some (dev_handle (ng_devices g ! i)))"
  using handle_loop_find [of 0 "unat (ng_device_count g)" "ng_devices g" a]
  by (simp add: ng_handle_def get_handle_from_address_def ng_ok_def split: option.split)

text \<open>Appending an entry keeps the handles of the devices before it and gives its address a handle.\<close>

lemma handle_after_install:
  fixes g :: "('h, 'd) ng_world" and h :: 'h and a :: u8 and d :: 'd
  assumes "ng_ok g" and "unat (ng_device_count g) < MAX_DEVICES"
  defines "k \<equiv> unat (ng_device_count g)"
  defines "g' \<equiv> g\<lparr>ng_devices := (ng_devices g)[k := \<lparr>dev_handle = Some h, dv_address = ucast a\<rparr>], ng_device_count := ng_device_count g + 1, ng_dev := d\<rparr>"
  shows "ng_ok g'" "ng_handle b g = Some (Some c) \<Longrightarrow> ng_handle b g' = Some (Some c)" "\<exists>c. ng_handle a g' = Some (Some c)"
proof -
  have k: "unat (ng_device_count g + 1) = Suc k" "k < length (ng_devices g)"
    using assms(1,2) by (simp_all add: k_def ng_ok_def MAX_DEVICES_def unat_word_ariths)
  show ok: "ng_ok g'" using assms k by (auto simp: ng_ok_def g'_def nth_list_update less_Suc_eq)
  have f: "find (\<lambda>j. ucast b = dv_address (ng_devices g' ! j)) [0..<unat (ng_device_count g')] =
     (case find (\<lambda>j. ucast b = dv_address (ng_devices g ! j)) [0..<k] of None \<Rightarrow> if ucast b = (ucast a :: u16) then Some k else None | Some x \<Rightarrow> Some x)" for b
  proof -
    have "find (\<lambda>j. ucast b = dv_address (ng_devices g' ! j)) [0..<k] = find (\<lambda>j. ucast b = dv_address (ng_devices g ! j)) [0..<k]"
      by (rule find_cong) (simp_all add: g'_def)
    then show ?thesis using k by (simp add: find_append g'_def split: option.split)
  qed
  have lt: "x < k" if "find P [0..<k] = Some x" for P x using that by (auto simp: find_Some_iff)
  have old: "ng_devices g' ! x = ng_devices g ! x" if "x < k" for x using that by (simp add: g'_def)
  have new: "ng_devices g' ! k = \<lparr>dev_handle = Some h, dv_address = ucast a\<rparr>" using k(2) by (simp add: g'_def)
  show "ng_handle b g' = Some (Some c)" if "ng_handle b g = Some (Some c)"
  proof -
    from that obtain x where x: "find (\<lambda>j. ucast b = dv_address (ng_devices g ! j)) [0..<k] = Some x" "dev_handle (ng_devices g ! x) = Some c"
      unfolding ng_handle_find [OF assms(1)] k_def by (auto split: option.splits)
    show ?thesis unfolding ng_handle_find [OF ok] f x(1) using old [OF lt [OF x(1)]] x(2) by simp
  qed
  show "\<exists>c. ng_handle a g' = Some (Some c)"
  proof (cases "find (\<lambda>j. ucast a = dv_address (ng_devices g ! j)) [0..<k]")
    case None
    then show ?thesis unfolding ng_handle_find [OF ok] f by (simp add: new)
  next
    case (Some x)
    from lt [OF Some] have "dev_handle (ng_devices g ! x) \<noteq> None" using assms(1) by (simp add: ng_ok_def k_def)
    then show ?thesis unfolding ng_handle_find [OF ok] f Some using old [OF lt [OF Some]] by auto
  qed
qed

text \<open>What a successful probe does to the table: a device is appended.\<close>

definition ng_installed :: "u8 \<Rightarrow> ('h, 'd) ng_world \<Rightarrow> ('h, 'd) ng_world \<Rightarrow> bool" where
  "ng_installed a g g' \<longleftrightarrow> ng_device_count g' = ng_device_count g + 1 \<and> (\<exists>h. ng_handle a g' = Some (Some h)) \<and>
     (\<forall>b h. ng_handle b g = Some (Some h) \<longrightarrow> ng_handle b g' = Some (Some h))"

definition same_table :: "('h, 'd) ng_world \<Rightarrow> ('h, 'd) ng_world \<Rightarrow> bool" where
  "same_table g g' \<longleftrightarrow> (\<exists>d. g' = g\<lparr>ng_dev := d\<rparr>)"

lemma same_table_refl [simp]: "same_table g g"
  by (auto simp: same_table_def intro: exI [of _ "ng_dev g"])

lemma ng_handle_dev [simp]: "ng_handle a (g\<lparr>ng_dev := d\<rparr>) = ng_handle a g" "ng_ok (g\<lparr>ng_dev := d\<rparr>) = ng_ok g"
  by (simp_all add: ng_handle_def get_handle_from_address_def ng_ok_def)

lemma install_table:
  assumes "ng_ok g" and "unat (ng_device_count g) < MAX_DEVICES" and "fst (i2c_master_get_bus_handle i2c (ng_i2c_port g) (ng_dev g)) = ESP_OK"
    and adds: "\<And>bus c d. (fst (i2c_master_bus_add_device i2c bus c d) = ESP_OK) = adds (dc_device_address c)"
  shows "\<exists>r g'. SCCB_Install_Device i2c a g = Some (r, g') \<and> ng_ok g' \<and> (r = 0 \<longleftrightarrow> adds (ucast a)) \<and>
    (if r = 0 then ng_installed a g g' else same_table g g')"
proof -
  obtain bus where bus: "i2c_master_get_bus_handle i2c (ng_i2c_port g) (ng_dev g) = (ESP_OK, bus)"
    using assms(3) by (cases "i2c_master_get_bus_handle i2c (ng_i2c_port g) (ng_dev g)") auto
  let ?c = "\<lparr>dc_device_address = ucast a, dc_scl_speed_hz = SCCB_FREQ\<rparr>"
  obtain e h d where add: "i2c_master_bus_add_device i2c bus ?c (ng_dev g) = (e, h, d)"
    by (cases "i2c_master_bus_add_device i2c bus ?c (ng_dev g)") auto
  have room: "\<not> MAX_DEVICES < unat (ng_device_count g)" "unat (ng_device_count g) < length (ng_devices g)"
    using assms(1,2) by (simp_all add: ng_ok_def)
  have e: "(e = ESP_OK) = adds (ucast a)" using adds [of bus ?c "ng_dev g"] add by simp
  show ?thesis
  proof (cases "e = ESP_OK")
    case False
    with room bus add assms(1) e show ?thesis by (auto simp: SCCB_Install_Device_def same_table_def Let_def)
  next
    case True
    with room bus add e handle_after_install [OF assms(1,2), where h = h and a = a and d = d] show ?thesis
      by (auto simp: SCCB_Install_Device_def ng_installed_def Let_def)
  qed
qed

text \<open>The address a probe should find: the first one that is acknowledged, if the driver then accepts the device.\<close>

definition ng_found :: "(u16 \<Rightarrow> bool) \<Rightarrow> (u16 \<Rightarrow> bool) \<Rightarrow> u8 list \<Rightarrow> u8" where
  "ng_found acks adds as = (case find (\<lambda>a. acks (ucast a)) as of None \<Rightarrow> 0 | Some a \<Rightarrow> if adds (ucast a) then a else 0)"

lemma probe_loop_table:
  assumes acks: "\<And>a d. (fst (i2c_master_probe i2c bus a d) = ESP_OK) = acks a"
    and adds: "\<And>bus c d. (fst (i2c_master_bus_add_device i2c bus c d) = ESP_OK) = adds (dc_device_address c)"
    and "\<And>d. fst (i2c_master_get_bus_handle i2c (ng_i2c_port g) d) = ESP_OK" and "0 \<notin> ci_sccb_addr ` set rows"
    and "ng_ok g" and "unat (ng_device_count g) < MAX_DEVICES" and "prev = 0 \<or> \<not> acks (ucast prev)"
  shows "\<exists>g'. ng_probe_loop i2c bus rows prev g = Some (ng_found acks adds (map ci_sccb_addr rows), g') \<and> ng_ok g' \<and>
    (if ng_found acks adds (map ci_sccb_addr rows) = 0 then same_table g g'
     else ng_installed (ng_found acks adds (map ci_sccb_addr rows)) g g')"
  using assms(3-)
proof (induction rows arbitrary: prev g)
  case (Cons row rows)
  let ?a = "ci_sccb_addr row"
  obtain e d where p: "i2c_master_probe i2c bus (ucast ?a) (ng_dev g) = (e, d)" by (cases "i2c_master_probe i2c bus (ucast ?a) (ng_dev g)")
  let ?g = "g\<lparr>ng_dev := d\<rparr>"
  have upd: "same_table ?g g' \<Longrightarrow> same_table g g'" "ng_installed b ?g g' \<Longrightarrow> ng_installed b g g'" for b g'
    by (auto simp: same_table_def ng_installed_def)
  have e: "(e = ESP_OK) = acks (ucast ?a)" using acks [of "ucast ?a" "ng_dev g"] p by simp
  have z: "?a \<noteq> 0" "0 \<notin> ci_sccb_addr ` set rows" using Cons.prems(2) by auto
  have skip: "ng_found acks adds (map ci_sccb_addr (row # rows)) = ng_found acks adds (map ci_sccb_addr rows)" if "\<not> acks (ucast ?a)"
    using that by (simp add: ng_found_def)
  consider "prev = ?a" | "prev \<noteq> ?a" "e = ESP_OK" | "prev \<noteq> ?a" "e \<noteq> ESP_OK" by blast
  then show ?case
  proof cases
    case 1
    then have "\<not> acks (ucast ?a)" using Cons.prems(5) z(1) by auto
    with Cons.IH [OF Cons.prems(1) z(2) Cons.prems(3-5)] 1 show ?thesis unfolding skip [OF \<open>\<not> acks (ucast ?a)\<close>] by simp
  next
    case 2
    have "ng_ok ?g" "unat (ng_device_count ?g) < MAX_DEVICES" "fst (i2c_master_get_bus_handle i2c (ng_i2c_port ?g) (ng_dev ?g)) = ESP_OK"
      using Cons.prems by simp_all
    from install_table [OF this adds, of ?a] obtain r g' where
      i: "SCCB_Install_Device i2c ?a ?g = Some (r, g')" "ng_ok g'" "r = 0 \<longleftrightarrow> adds (ucast ?a)"
        "if r = 0 then ng_installed ?a ?g g' else same_table ?g g'" by blast
    have f: "ng_found acks adds (map ci_sccb_addr (row # rows)) = (if r = 0 then ?a else 0)" using e i(3) 2 by (simp add: ng_found_def)
    have l: "ng_probe_loop i2c bus (row # rows) prev g = Some (if r = 0 then ?a else 0, g')" using 2 p i(1) by simp
    show ?thesis unfolding f l using i(2,4) upd z(1) by (cases "r = 0") auto
  next
    case 3
    then have n: "\<not> acks (ucast ?a)" using e by simp
    have "fst (i2c_master_get_bus_handle i2c (ng_i2c_port ?g) x) = ESP_OK" "ng_ok ?g" "unat (ng_device_count ?g) < MAX_DEVICES" for x
      using Cons.prems by auto
    with Cons.IH [OF this(1) z(2) this(2,3), of ?a] n have r: "\<exists>g'. ng_probe_loop i2c bus rows ?a ?g = Some (ng_found acks adds (map ci_sccb_addr rows), g') \<and>
      ng_ok g' \<and> (if ng_found acks adds (map ci_sccb_addr rows) = 0 then same_table ?g g'
        else ng_installed (ng_found acks adds (map ci_sccb_addr rows)) ?g g')" by simp
    have l: "ng_probe_loop i2c bus (row # rows) prev g = ng_probe_loop i2c bus rows ?a ?g" using 3 p by simp
    show ?thesis unfolding skip [OF n] l using r upd by (metis (no_types, lifting))
  qed
qed (simp add: ng_found_def)

lemma remove_loop:
  assumes "\<And>h d. i2c_master_bus_rm_device i2c (Some h) d = (ESP_OK, rmv h d)" and "i + n \<le> length (ng_devices g)"
    and "\<And>k. i \<le> k \<Longrightarrow> k < i + n \<Longrightarrow> dev_handle (ng_devices g ! k) \<noteq> None"
  shows "\<exists>ds. ng_remove_loop i2c i n g = Some (ESP_OK, g\<lparr>ng_devices := ds,
      ng_dev := fold rmv (map (\<lambda>k. the (dev_handle (ng_devices g ! k))) [i..<i + n]) (ng_dev g)\<rparr>) \<and> length ds = length (ng_devices g)"
  using assms(2,3)
proof (induction n arbitrary: i g)
  case 0
  show ?case by (rule exI [of _ "ng_devices g"]) simp
next
  case (Suc n)
  obtain h where h: "dev_handle (ng_devices g ! i) = Some h" using Suc.prems(2) [of i] by auto
  let ?g = "g\<lparr>ng_devices := (ng_devices g)[i := \<lparr>dev_handle = None, dv_address = 0\<rparr>], ng_dev := rmv h (ng_dev g)\<rparr>"
  have "Suc i + n \<le> length (ng_devices ?g)" using Suc.prems(1) by simp
  moreover have "dev_handle (ng_devices ?g ! k) \<noteq> None" if "Suc i \<le> k" "k < Suc i + n" for k using Suc.prems(2) [of k] that by simp
  ultimately obtain ds where r: "ng_remove_loop i2c (Suc i) n ?g = Some (ESP_OK, ?g\<lparr>ng_devices := ds,
      ng_dev := fold rmv (map (\<lambda>k. the (dev_handle (ng_devices ?g ! k))) [Suc i..<Suc i + n]) (ng_dev ?g)\<rparr>)" "length ds = length (ng_devices g)"
    using Suc.IH [of "Suc i" ?g] by auto
  have eq: "map (\<lambda>k. the (dev_handle (ng_devices ?g ! k))) [Suc i..<Suc i + n] = map (\<lambda>k. the (dev_handle (ng_devices g ! k))) [Suc i..<Suc i + n]"
    by (rule map_cong) auto
  show ?case by (rule exI [of _ ds]) (use r [unfolded eq] h Suc.prems(1) assms(1) in \<open>simp add: upt_conv_Cons del: upt_Suc\<close>)
qed

text \<open>
  C40. \<open>SCCB_Deinit\<close> of \<open>sccb-ng.c\<close>, when the I2C driver removes devices and knows the bus, hands every registered device back to
  it, once and in the order of registration, then the bus when the driver owns it, and returns the result of that;
  afterwards the table is empty and no address has a handle.
\<close>

theorem ng_SCCB_Deinit_removes:
  assumes "ng_ok g" and "\<And>h d. i2c_master_bus_rm_device i2c (Some h) d = (ESP_OK, rmv h d)"
    and "\<And>d. i2c_master_get_bus_handle i2c (ng_i2c_port g) d = (ESP_OK, bus)"
    and "hs = map (\<lambda>k. the (dev_handle (ng_devices g ! k))) [0..<unat (ng_device_count g)]"
  shows "\<exists>e g'. ng_SCCB_Deinit i2c g = Some (e, g') \<and> ng_ok g' \<and> ng_device_count g' = 0 \<and> \<not> ng_owns_i2c_port g' \<and>
    (e, ng_dev g') = (if ng_owns_i2c_port g then i2c_del_master_bus i2c bus (fold rmv hs (ng_dev g)) else (ESP_OK, fold rmv hs (ng_dev g))) \<and>
    (\<forall>a. ng_handle a g' = None)"
proof -
  have "0 + unat (ng_device_count g) \<le> length (ng_devices g)"
    "\<And>k. 0 \<le> k \<Longrightarrow> k < 0 + unat (ng_device_count g) \<Longrightarrow> dev_handle (ng_devices g ! k) \<noteq> None"
    using assms(1) by (simp_all add: ng_ok_def)
  from remove_loop [OF assms(2) this] obtain ds where
    d: "ng_remove_loop i2c 0 (unat (ng_device_count g)) g = Some (ESP_OK, g\<lparr>ng_devices := ds, ng_dev := fold rmv hs (ng_dev g)\<rparr>)"
      "length ds = MAX_DEVICES" using assms(1) by (auto simp: assms(4) ng_ok_def)
  obtain e d' where x: "i2c_del_master_bus i2c bus (fold rmv hs (ng_dev g)) = (e, d')"
    by (cases "i2c_del_master_bus i2c bus (fold rmv hs (ng_dev g))")
  show ?thesis using d x assms(3)
    by (cases "ng_owns_i2c_port g") (simp_all add: ng_SCCB_Deinit_def ng_ok_def ng_handle_def get_handle_from_address_def)
qed

text \<open>An I2C driver that records what it is handed back: the handles of the devices and 0 for the bus.\<close>

definition log_i2c :: "(unit, nat, nat list) i2c_master" where
  "log_i2c = \<lparr>i2c_new_master_bus = (\<lambda>_ d. (ESP_OK, d)), i2c_master_get_bus_handle = (\<lambda>_ _. (ESP_OK, ())),
     i2c_del_master_bus = (\<lambda>_ d. (ESP_OK, d @ [0])), i2c_master_bus_add_device = (\<lambda>_ _ d. (ESP_OK, 1, d)),
     i2c_master_bus_rm_device = (\<lambda>h d. (ESP_OK, d @ [the h])), i2c_master_probe = (\<lambda>_ _ d. (ESP_FAIL, d)),
     i2c_master_transmit = (\<lambda>_ _ d. (ESP_OK, d)), i2c_master_transmit_receive = (\<lambda>_ _ _ d. (ESP_OK, [], d))\<rparr>"

definition log_world :: "(nat, nat list) ng_world" where
  "log_world = \<lparr>ng_devices = \<lparr>dev_handle = Some 7, dv_address = 0x30\<rparr> # \<lparr>dev_handle = Some 9, dv_address = 0x3c\<rparr> #
     replicate (MAX_DEVICES - 2) \<lparr>dev_handle = None, dv_address = 0\<rparr>,
     ng_device_count = 2, ng_i2c_port = 1, ng_owns_i2c_port = True, ng_dev = []\<rparr>"

theorem ng_SCCB_Deinit_removes_witness:
  "\<exists>g'. ng_SCCB_Deinit log_i2c log_world = Some (ESP_OK, g') \<and> ng_dev g' = [7, 9, 0] \<and> ng_handle 0x3c g' = None"
proof -
  have n: "unat (ng_device_count log_world) = 2" by (simp add: log_world_def)
  have ok: "ng_ok log_world"
    unfolding ng_ok_def n by (auto simp: log_world_def MAX_DEVICES_def nth_Cons split: nat.split)
  have "[7, 9] = map (\<lambda>k. the (dev_handle (ng_devices log_world ! k))) [0..<unat (ng_device_count log_world)]"
    unfolding n by (simp add: log_world_def upt_rec)
  from ng_SCCB_Deinit_removes [OF ok, of log_i2c "\<lambda>h d. d @ [h]" "()", OF _ _ this]
  show ?thesis by (auto simp: log_i2c_def log_world_def)
qed


definition ng_world0 :: "u8 \<Rightarrow> 'd \<Rightarrow> (unit, 'd) ng_world" where
  "ng_world0 n d = \<lparr>ng_devices = replicate MAX_DEVICES \<lparr>dev_handle = Some (), dv_address = 0x3c\<rparr>, ng_device_count = n,
     ng_i2c_port = 1, ng_owns_i2c_port = True, ng_dev = d\<rparr>"

lemma ng_world0_ok: "n \<le> 254 \<Longrightarrow> ng_ok (ng_world0 n d)"
  by (auto simp: ng_ok_def ng_world0_def MAX_DEVICES_def word_le_nat_alt)


text \<open>
  C38. Probing finds and registers the sensor: while the table has room and the bus exists, and the acknowledgements do not change during
  the probe, \<open>SCCB_Probe\<close> returns the first address of the table of sensors that is acknowledged, if the I2C driver accepts
  a device there, and 0 otherwise. In the first case there is now a handle for the address, so that the accesses of the sensor
  drivers find it, and devices registered before keep their handles; in the second the table is as before.
\<close>

theorem ng_SCCB_Probe_installs:
  assumes "ng_ok g" and "unat (ng_device_count g) < MAX_DEVICES"
    and "\<And>d. fst (i2c_master_get_bus_handle i2c (ng_i2c_port g) d) = ESP_OK"
    and "\<And>bus a d. (fst (i2c_master_probe i2c bus a d) = ESP_OK) = acks a"
    and "\<And>bus c d. (fst (i2c_master_bus_add_device i2c bus c d) = ESP_OK) = adds (dc_device_address c)"
  shows "\<exists>a g'. ng_SCCB_Probe i2c g = Some (a, g') \<and> ng_ok g' \<and>
    a = (case find (\<lambda>a. acks (ucast a)) (map ci_sccb_addr camera_sensor) of
           None \<Rightarrow> 0 | Some a \<Rightarrow> if adds (ucast a) then a else 0) \<and>
    (if a = 0 then same_table g g' else ng_installed a g g')"
proof -
  obtain bus where bus: "i2c_master_get_bus_handle i2c (ng_i2c_port g) (ng_dev g) = (ESP_OK, bus)"
    using assms(3) [of "ng_dev g"] by (cases "i2c_master_get_bus_handle i2c (ng_i2c_port g) (ng_dev g)") auto
  have "0 \<notin> ci_sccb_addr ` set camera_sensor" by (simp add: camera_sensor_def)
  from probe_loop_table [OF assms(4,5,3) this assms(1,2), where prev = 0] bus show ?thesis
    unfolding ng_found_def [symmetric] by (simp add: ng_SCCB_Probe_def)
qed

theorem ng_SCCB_Probe_installs_witness:
  "\<exists>g'. ng_SCCB_Probe (ng_of_hw (wire_hw 0x3c) 1 0x3c) (ng_world0 0 \<lparr>rd_sel = 0, rd_regs = (\<lambda>_. 0)\<rparr>) = Some (0x3c, g') \<and>
     ng_device_count g' = 1 \<and> ng_handle 0x3c g' = Some (Some ())"
proof -
  have ad: "addr_write 0x3c = 0x78" "addr_read 0x3c = 0x79" by (simp_all add: addr_write_def addr_read_def)
  let ?g = "ng_world0 0 \<lparr>rd_sel = 0, rd_regs = (\<lambda>_. 0)\<rparr>" and ?i = "ng_of_hw (wire_hw 0x3c) 1 0x3c"
  let ?acks = "\<lambda>a :: u16. addr_write (ucast a) = 0x78 \<or> addr_write (ucast a) = 0x79"
  have p: "fst (i2c_master_get_bus_handle ?i (ng_i2c_port ?g) d) = ESP_OK" "(fst (i2c_master_probe ?i bus a d) = ESP_OK) = ?acks a"
    "(fst (i2c_master_bus_add_device ?i bus c d) = ESP_OK) = True" for bus a c d
    by (simp_all add: ng_of_hw_def wire_hw_def wire_write_def ad)
  have f: "find (\<lambda>a. ?acks (ucast a)) (map ci_sccb_addr camera_sensor) = Some 0x3c"
    by (simp add: camera_sensor_def addr_write_def)
  from ng_SCCB_Probe_installs [OF ng_world0_ok, of 0 "\<lparr>rd_sel = 0, rd_regs = (\<lambda>_. 0)\<rparr>" ?i ?acks "\<lambda>_. True", OF _ _ p, unfolded f]
  show ?thesis by (auto simp: ng_installed_def ng_world0_def MAX_DEVICES_def)
qed

text \<open>
  C39. Two error paths that fail: when the bus does not exist (a port that was never initialised, given to \<open>SCCB_Use_Port\<close>), \<open>SCCB_Probe\<close> returns
  the error code cut to eight bits as if it were the address of a sensor, and an access to that address dereferences a null
  pointer; when the table is full, the test for room is off by one and \<open>SCCB_Install_Device\<close> writes past its end.
\<close>

theorem ng_error_paths:
  assumes "i2c_master_get_bus_handle i2c (ng_i2c_port g) (ng_dev g) = (ESP_ERR_INVALID_STATE, bus)" and "ng_device_count g = 0"
    and "ng_ok f" and "unat (ng_device_count f) = MAX_DEVICES" and "i2c_master_get_bus_handle i2c (ng_i2c_port f) (ng_dev f) = (ESP_OK, bus)"
    and "fst (i2c_master_bus_add_device i2c bus \<lparr>dc_device_address = ucast a, dc_scl_speed_hz = SCCB_FREQ\<rparr> (ng_dev f)) = ESP_OK"
  shows "ng_SCCB_Probe i2c g = Some (3, g) \<and> 3 \<notin> ci_sccb_addr ` set camera_sensor \<and>
    (\<forall>rx0 r. ng_SCCB_Read rx0 i2c 3 r g = None) \<and> SCCB_Install_Device i2c a f = None"
proof -
  have "3 \<notin> ci_sccb_addr ` set camera_sensor" by (simp add: camera_sensor_def)
  moreover have "ng_SCCB_Read rx0 i2c 3 r g = None" for rx0 r
    using assms(2) by (simp add: ng_SCCB_Read_def ng_receive_def ng_handle_def get_handle_from_address_def)
  ultimately show ?thesis using assms by (auto simp: ng_SCCB_Probe_def SCCB_Install_Device_def ng_ok_def Let_def split: prod.split)
qed

theorem ng_error_paths_witness:
  "\<exists>i2c :: (unit, unit, bool) i2c_master. ng_SCCB_Probe i2c (ng_world0 0 False) = Some (3, ng_world0 0 False) \<and>
     SCCB_Install_Device i2c 0x30 (ng_world0 254 True) = None"
proof -
  let ?i = "(ng_of_hw (sim_hw (\<lambda>_ _ d. (ESP_OK, [], d))) 1 0x3c)\<lparr>i2c_master_get_bus_handle := (\<lambda>_ d. (if d then ESP_OK else ESP_ERR_INVALID_STATE, ()))\<rparr>"
  have "ng_SCCB_Probe ?i (ng_world0 0 False) = Some (3, ng_world0 0 False) \<and> SCCB_Install_Device ?i 0x30 (ng_world0 254 True) = None"
    using ng_error_paths [of ?i "ng_world0 0 False" "()" "ng_world0 254 True" "0x30"] ng_world0_ok [of 254 True]
    by (simp add: ng_of_hw_def MAX_DEVICES_def) (simp add: ng_world0_def)
  then show ?thesis by blast
qed

end
