(* ===== verification/Spec2Isabelle.thy ===== *)
theory Spec2Isabelle
  imports Ov3660 Ov2640 Yuv CamRun CamLife Camera CamUse Bmp Jpg JpgRgb SccbNg
begin

text \<open>
  A model of the camera software of the peeler mouse, and what can be proved of it.

  \<^bold>\<open>The program.\<close> The C code the firmware is built from is the \<open>esp32-camera\<close> component
  (\<open>src/resources/esp32_wifi_tank/esp32cam/components/esp32-camera/\<close>, written EC below) on top of
  the FreeRTOS kernel of ESP-IDF (\<open>src/resources/esp-idf/components/freertos/FreeRTOS-Kernel/\<close>).
  A sensor driver programs the registers of an image sensor over the SCCB bus; the sensor sends
  pixels, which the DMA writes into a ring of half buffers; interrupts post events to a queue; the
  capture task copies the half buffers into frame buffers and queues the filled ones; the
  application takes them and gives them back.

  \<^bold>\<open>Theories, bottom up.\<close>

  \<^item> \<open>Prelude\<close>: machine integers, the state monad with the C idioms, weakest preconditions,
    frame rules.
  \<^item> \<open>Sensor\<close> (EC \<open>driver/include/sensor.h\<close>, \<open>driver/sensor.c\<close>): enumerations, structs, the
    table of supported sensors, the table of resolutions.
  \<^item> \<open>Sccb\<close> (EC \<open>driver/sccb.c\<close>): the bus routines over a parameter \<open>hw\<close> that stands for the
    I2C driver and the device. The locales \<open>sccb_dev8\<close> and \<open>sccb_dev16\<close> are the interface of a
    register device on the bus; they are interpreted on concrete register files.
  \<^item> \<open>SccbNg\<close> (EC \<open>driver/sccb-ng.c\<close>): the variant of the bus routines for the newer I2C driver, with its table of
    devices; the locale \<open>ng_wire\<close> says which commands the newer I2C driver puts on the wire (a write, or a write
    and a read joined by a repeated START), and \<open>same_wire\<close> adds a device that keeps the selected register over a
    STOP. They are interpreted on a device that parses the commands.
  \<^item> \<open>Ov3660\<close>, \<open>Ov2640\<close> (EC \<open>sensors/ov3660.c\<close>, \<open>sensors/ov2640.c\<close> and their
    settings headers): every function and table. \<open>ov3660_call\<close> and \<open>ov2640_call\<close> are the calls
    through the function pointers of \<open>sensor_t\<close>.
  \<^item> \<open>Yuv\<close> (EC \<open>conversions/yuv.c\<close>): the table-driven colour conversion.
  \<^item> \<open>Rtos\<close> (\<open>queue.c\<close>, \<open>tasks.c\<close>): the ring buffer behind every queue, its sends,
    receives and peeks, the tick counter and the time-out test. The locale \<open>bounded_fifo\<close> is what
    a client may assume of a queue; its interpretation \<open>fq\<close> discharges it for the ring buffer.
  \<^item> \<open>CamHal\<close> (EC \<open>driver/cam_hal.c\<close>): marker searches, capture task, events, taking and
    giving frames.
  \<^item> \<open>CamSys\<close>: the running system as a step relation, with interrupts, DMA and application
    interleaved between any two fragments of the capture task; its ownership invariant.
  \<^item> \<open>CamRun\<close>: whole operations: the capture of a raw image, the return of \<open>cam_take\<close> and the time it takes.
  \<^item> \<open>CamConf\<close> (EC \<open>driver/cam_hal.c\<close>): \<open>cam_init\<close>, \<open>cam_config\<close>, \<open>cam_deinit\<close> and
    what they allocate; a bookkeeping of the heap that ties the live blocks to the pointers of the
    driver object.
  \<^item> \<open>CamLife\<close>: the life of a capture, from set-up over any run of \<open>CamSys\<close> to tear-down.
  \<^item> \<open>Camera\<close> (EC \<open>driver/esp_camera.c\<close>): the public interface, which joins the sensor drivers and
    the capture: probing, set-up and tear-down, frames, settings in non-volatile storage.
  \<^item> \<open>CamUse\<close>: what an application sees of it: frames after set-up, settings saved, committed and loaded.
  \<^item> \<open>Bmp\<close> (EC \<open>conversions/to_bmp.c\<close>): the BMP writer and the conversion of raw formats, over memory
    blocks with checked bounds; a reader of the BMP format as the reference.
  \<^item> \<open>Jpg\<close> (EC \<open>conversions/esp_jpg_decode.c\<close>, \<open>conversions/to_bmp.c\<close>): the wrapper around the JPEG decoder,
    the callbacks that store its pixels, \<open>jpg2bmp\<close>, \<open>fmt2rgb888\<close>, \<open>fmt2bmp\<close>, \<open>frame2bmp\<close>. The decoder is a
    parameter, a program of input and output calls. \<open>jd_on\<close> runs such a program on the bytes of the source alone,
    without the wrapper; \<open>paint\<close> draws the rectangles it puts out on a picture. The locale \<open>jpg_painter\<close> is the
    contract of a callback that stores a picture; it is interpreted on both writers of the code.
  \<^item> \<open>JpgRgb\<close>: \<open>jpg2rgb888\<close> and \<open>jpg2rgb565\<close>, the decoding into a buffer of the caller.

  \<^bold>\<open>Correspondence.\<close> Definitions keep the names of the C functions. Sensor drivers and the bus are
  in the state monad over the static variables and the hardware (\<open>world\<close>); \<open>cam_hal.c\<close> and
  \<open>queue.c\<close> pass their structures explicitly (\<open>cam_obj_t\<close>, \<open>Queue_t\<close>) and return
  \<open>None\<close> for undefined behaviour and for a failed \<open>configASSERT\<close>, so that a theorem of the form
  \<open>\<dots> = Some \<dots>\<close> also says that neither happens. \<open>uint8_t\<close> and \<open>uint16_t\<close> are words, a C
  \<open>int\<close> is an integer narrowed where the source stores it, \<open>size_t\<close> arithmetic has its
  wrap-around written out.

  \<^bold>\<open>What is shown.\<close> For the capture: each frame buffer has one owner in every interleaving, the
  driver never writes a buffer the application holds, frames handed out are complete, no access is
  out of bounds, each event is handled to its end, \<open>cam_take\<close> returns within its time-out (twice the time-out on an ESP32-S3), up
  to the latency of the scheduler. The theorems on the running system are outside PSRAM mode, in which a JPEG
  frame is sent without a search for its start. For
  set-up and tear-down: both at the level of the capture and of the whole camera they are all or
  nothing, every block is freed exactly once after any run, a successful set-up establishes the
  precondition of the theorems on the running system, a second set-up destroys the first. For
  the queues: the ring buffer is a bounded FIFO that accepts an item exactly when there is room and delivers one
  exactly when there is one, the time-out test is exact across wrap-around of
  the tick counter. For the bus: what a probe finds, who owns the port, that both variants of the
  driver do the same to a device that treats a repeated START as a STOP and a START. For the sensor drivers: setters are transactional (OV3660), the bank cache is
  coherent (OV2640), the settings that survive a reload from the sensor and those it clears, windows fit the sensor array, and
  where error codes get lost; a saved setting is loaded again once the storage is committed, which the code does
  not do itself. For the
  converters: the colour table computes the fixed-point formula; a frame of any camera resolution written
  as a BMP file is read back pixel by pixel; the rectangles the JPEG decoder puts out for a source arrive in the file or
  buffer, without an access out of bounds, and what happens when the output cannot be allocated.

  \<^bold>\<open>Loops and bounds.\<close> Loops are structural recursion or have a termination proof; the blocking calls,
  \<open>cam_take\<close> and the loops over the rows of a block of pixels are \<open>partial_function (option)\<close> and are proved to return. No fuel is used.

  \<^bold>\<open>Hypotheses on code outside the model.\<close> \<open>alloc_ok\<close>: the allocator returns blocks that are not in use
  (it may fail at any time). \<open>ll_conf_ok\<close>: the low-level capture driver leaves the pointers of
  the driver object alone. \<open>sizes_fit\<close>: the sizes it computed for one configuration fit together; the set-up
  theorem shows that this is exactly what the running system needs of them, and the theorem on frames after
  \<open>esp_camera_init\<close> has it as a hypothesis on the object at hand. \<open>nvs_open_ok\<close>,
  \<open>nvs_set_ok\<close>, \<open>nvs_commit_ok\<close>, \<open>nvs_get_ok\<close>: the documented storage, in which a value set is pending on its handle
  until \<open>nvs_commit\<close>. \<open>env_ticks\<close>, \<open>take_env\<close>: while a task waits, the rest of the system keeps the invariant, the task
  is woken by an item (in the same tick, if need be) or at the latest \<open>J\<close> ticks after its time-out, and vertical
  syncs come at a bounded rate. \<open>decoder_fits\<close>: on the source at hand the JPEG decoder puts out rectangles inside
  the image it announced, with three bytes for each pixel. \<open>ng_wire\<close>, \<open>same_wire\<close>: as above. Each is shown to hold
  of a concrete instance.

  \<^bold>\<open>Configuration.\<close> Where the source depends on the chip at compile time the branch of the ESP32 is taken, except
  for the fields of \<open>plat\<close> (the chip of \<open>cam_config\<close>, the alignment) and the option \<open>ll_cam_dma_reset\<close>, the second wait of \<open>cam_take\<close> on
  the ESP32-S3, over which the theorems are stated.

  \<^bold>\<open>Not modelled.\<close> Logging. The low-level capture driver (\<open>ll_cam.h\<close>), the clock driver and the
  ROM are not in the repository: they are parameters. The JPEG encoder
  (\<open>to_jpg.cpp\<close> and \<open>jpge.cpp\<close>, C++), the other sensor drivers (\<open>Camera\<close> takes them as parameters),
  the storage library, the scheduler, semaphores and mutexes of the kernel and the
  rest of ESP-IDF.
\<close>

end
